theory Spec2Isabelle
  imports Main "HOL-Library.Sublist" "HOL-Library.AList"
begin

section \<open>Polly accelerator code generation (PPCGCodeGeneration.cpp)\<close>

text \<open>
  A shallow embedding of the parts of \<^verbatim>\<open>lib/CodeGen/PPCGCodeGeneration.cpp\<close> that
  decide what is generated: the kill-set analysis, the extent, bound and offset
  computation for arrays, the check for functions a kernel cannot hold, and the
  \<^verbatim>\<open>GPUNodeBuilder\<close> that lowers the annotated tree to host code and kernels.

  LLVM values, isl objects and ppcg structures are taken as data: a record or datatype
  holds what the code reads from them. C++ assertions and null dereferences are results
  of the sum type \<open>error + 'a\<close>.
\<close>

subsection \<open>Errors\<close>

datatype error =
    AssertionFailed string
  | NullDereference string
  | OutOfBounds string
  | Unreachable string

subsection \<open>LLVM types and values\<close>

datatype Type =
    VoidTy
  | IntegerTy nat
  | HalfTy
  | FloatTy
  | DoubleTy
  | FunctionTy
  | PointerTy Type nat
  | VectorTy nat Type
  | ArrayTy Type int

text \<open>
  \<^verbatim>\<open>Type::getPrimitiveSizeInBits\<close> and \<^verbatim>\<open>Type::getScalarSizeInBits\<close> of LLVM: the
  bit width of a floating-point, integer or vector type, and 0 for every other type
  (pointers among them); the scalar size is that of the element type for a vector.
\<close>

fun getPrimitiveSizeInBits :: "Type \<Rightarrow> nat" where
  "getPrimitiveSizeInBits HalfTy = 16"
| "getPrimitiveSizeInBits FloatTy = 32"
| "getPrimitiveSizeInBits DoubleTy = 64"
| "getPrimitiveSizeInBits (IntegerTy n) = n"
| "getPrimitiveSizeInBits (VectorTy n t) = n * getPrimitiveSizeInBits t"
| "getPrimitiveSizeInBits _ = 0"

fun getScalarSizeInBits :: "Type \<Rightarrow> nat" where
  "getScalarSizeInBits (VectorTy n t) = getPrimitiveSizeInBits t"
| "getScalarSizeInBits t = getPrimitiveSizeInBits t"

text \<open>\<^verbatim>\<open>computeSizeInBytes\<close> (line 281).\<close>

definition computeSizeInBytes :: "Type \<Rightarrow> nat" where
  "computeSizeInBytes T =
     (let bytes = getPrimitiveSizeInBits T div 8
      in if bytes = 0 then getScalarSizeInBits T div 8 else bytes)"

text \<open>
  \<^verbatim>\<open>llvm::Function\<close>: its name and whether it is an intrinsic. A value is a function,
  a value of the host module (\<open>Val\<close>) or a value of a kernel function
  (\<open>KernelValue\<close>, with the name of that function: an argument, an alloca, an
  intrinsic call); the code reads the name and the type of a value.
\<close>

datatype Function = Function (FunctionName: string) (isIntrinsic: bool)

datatype Value =
    FunctionValue Function
  | Val string Type
  | KernelValue string string Type

fun getType :: "Value \<Rightarrow> Type" where
  "getType (FunctionValue F) = PointerTy FunctionTy 0"
| "getType (Val n t) = t"
| "getType (KernelValue fn n t) = t"

fun getName :: "Value \<Rightarrow> string" where
  "getName (FunctionValue F) = FunctionName F"
| "getName (Val n t) = n"
| "getName (KernelValue fn n t) = n"

text \<open>\<^verbatim>\<open>dyn_cast<Function>\<close>.\<close>

fun dyn_cast_Function :: "Value \<Rightarrow> Function option" where
  "dyn_cast_Function (FunctionValue F) = Some F"
| "dyn_cast_Function v = None"

text \<open>
  An instruction is a call, with its called operand and its arguments, or any other
  instruction with its operands. The called operand is the last operand of a call.
  \<^verbatim>\<open>getCalledFunction\<close> is null for an indirect call.
\<close>

datatype Instruction =
    CallInst Value "Value list"
  | OtherInst "Value list"



record BasicBlock =
  BlockName :: string
  Instructions :: "Instruction list"

text \<open>
  A user of a value is an instruction, known here by the name of its parent block, or
  something else (\<^verbatim>\<open>dyn_cast<Instruction>\<close> gives null).
\<close>

datatype User =
    InstructionIn string
  | NotAnInstruction

record Region =
  RegionBlocks :: "string list"

fun Region_contains :: "Region \<Rightarrow> string \<Rightarrow> bool" where
  "Region_contains R b = (b \<in> set (RegionBlocks R))"

subsection \<open>Scop arrays\<close>

datatype MemoryKind = MK_Array | MK_Value | MK_PHI | MK_ExitPHI

text \<open>
  A symbolic quantity (an \<^verbatim>\<open>isl_pw_aff\<close> over the parameters of the region) is the
  function from a valuation \<open>'p\<close> of the parameters to its value there; \<open>None\<close> where
  the piecewise expression has no piece.
\<close>

type_synonym 'p isl_pw_aff = "'p \<Rightarrow> int option"

text \<open>
  \<^verbatim>\<open>ScopArrayInfo\<close>: what this file reads of it. \<open>DimensionSizesPw\<close> has one entry
  per dimension; the entry is \<open>None\<close> where \<^verbatim>\<open>getDimensionSizePw\<close> returns null
  (the outermost dimension of an array that is not a Fortran array).
\<close>

record 'p ScopArrayInfo =
  BasePtr :: Value
  BasePtrId :: string
  BasePtrUsers :: "User list"
  Kind :: MemoryKind
  ElementType :: Type
  ElemSizeInBytes :: nat
  DimensionSizesPw :: "'p isl_pw_aff option list"
  ReadOnly :: bool

definition isPHIKind :: "('p, 'x) ScopArrayInfo_scheme \<Rightarrow> bool" where
  "isPHIKind SAI = (Kind SAI = MK_PHI)"

definition isValueKind :: "('p, 'x) ScopArrayInfo_scheme \<Rightarrow> bool" where
  "isValueKind SAI = (Kind SAI = MK_Value)"

definition getNumberOfDimensions :: "('p, 'x) ScopArrayInfo_scheme \<Rightarrow> nat" where
  "getNumberOfDimensions SAI = length (DimensionSizesPw SAI)"

subsection \<open>Kill-set analysis\<close>

text \<open>
  \<^verbatim>\<open>isScalarUsesContainedInScop\<close> (line 147): the loop over the users of the base
  pointer, with its assertion on each user and its early return.
\<close>

fun usersContained :: "Region \<Rightarrow> User list \<Rightarrow> error + bool" where
  "usersContained R [] = Inr True"
| "usersContained R (NotAnInstruction # Us) =
     Inl (AssertionFailed ''invalid user of scop array info'')"
| "usersContained R (InstructionIn b # Us) =
     (if \<not> Region_contains R b then Inr False else usersContained R Us)"

definition isScalarUsesContainedInScop ::
    "Region \<Rightarrow> ('p, 'x) ScopArrayInfo_scheme \<Rightarrow> error + bool" where
  "isScalarUsesContainedInScop R SAI =
     (if \<not> isValueKind SAI then Inl (AssertionFailed ''this function only deals with scalars.'')
      else usersContained R (BasePtrUsers SAI))"

text \<open>
  One entry of \<^verbatim>\<open>TaggedMustKills\<close>: the map
  \<^verbatim>\<open>{ [SKill_phantom_X[] -> ref_phantomX[]] -> X[] }\<close> of universe relations between
  three named zero-dimensional tuples.
\<close>

record TaggedMustKill =
  KillStmtId :: string
  PhantomRefId :: string
  KilledId :: string

datatype isl_schedule =
    Schedule_from_domain string
  | Schedule_set isl_schedule isl_schedule

record MustKillsInfo =
  KillsSchedule :: "isl_schedule option"
  TaggedMustKills :: "TaggedMustKill list"

text \<open>Step 1 of \<^verbatim>\<open>computeMustKillsInfo\<close> (line 175): the ids to kill, in array order.\<close>

fun collectKillMemIds ::
    "Region \<Rightarrow> ('p, 'x) ScopArrayInfo_scheme list \<Rightarrow> error + string list" where
  "collectKillMemIds R [] = Inr []"
| "collectKillMemIds R (SAI # SAIs) =
     (if isPHIKind SAI then
        (case collectKillMemIds R SAIs of
           Inl e \<Rightarrow> Inl e
         | Inr ids \<Rightarrow> Inr (BasePtrId SAI # ids))
      else if isValueKind SAI then
        (case isScalarUsesContainedInScop R SAI of
           Inl e \<Rightarrow> Inl e
         | Inr c \<Rightarrow>
            (case collectKillMemIds R SAIs of
               Inl e \<Rightarrow> Inl e
             | Inr ids \<Rightarrow> Inr (if c then BasePtrId SAI # ids else ids)))
      else collectKillMemIds R SAIs)"

text \<open>Steps 2 and 3 (line 190): one tagged kill and one schedule node per id.\<close>

fun addKills :: "string list \<Rightarrow> MustKillsInfo \<Rightarrow> MustKillsInfo" where
  "addKills [] Info = Info"
| "addKills (phiId # ids) Info =
     (let KillStmt = ''SKill_phantom_'' @ phiId;
          PhantomRef = ''ref_phantom'' @ phiId;
          TaggedMustKill = \<lparr>KillStmtId = KillStmt, PhantomRefId = PhantomRef, KilledId = phiId\<rparr>;
          KillSchedule = Schedule_from_domain KillStmt
      in addKills ids
           \<lparr>KillsSchedule =
              (case KillsSchedule Info of
                 Some Sched \<Rightarrow> Some (Schedule_set Sched KillSchedule)
               | None \<Rightarrow> Some KillSchedule),
            TaggedMustKills = TaggedMustKills Info @ [TaggedMustKill]\<rparr>)"

definition computeMustKillsInfo ::
    "Region \<Rightarrow> ('p, 'x) ScopArrayInfo_scheme list \<Rightarrow> error + MustKillsInfo" where
  "computeMustKillsInfo R arrays =
     (case collectKillMemIds R arrays of
        Inl e \<Rightarrow> Inl e
      | Inr KillMemIds \<Rightarrow>
          Inr (addKills KillMemIds \<lparr>KillsSchedule = None, TaggedMustKills = []\<rparr>))"

text \<open>The scalars a kill information kills.\<close>

definition killedIds :: "MustKillsInfo \<Rightarrow> string set" where
  "killedIds Info = KilledId ` set (TaggedMustKills Info)"

text \<open>Every user is an instruction inside the region (the claim's words).\<close>

definition allUsesInRegion :: "Region \<Rightarrow> ('p, 'x) ScopArrayInfo_scheme \<Rightarrow> bool" where
  "allUsesInRegion R SAI =
     list_all (\<lambda>U. case U of InstructionIn b \<Rightarrow> b \<in> set (RegionBlocks R) | NotAnInstruction \<Rightarrow> False)
       (BasePtrUsers SAI)"

text \<open>Every user of every array is an instruction: what LLVM guarantees for a scalar.\<close>

definition usersAreInstructions :: "('p, 'x) ScopArrayInfo_scheme \<Rightarrow> bool" where
  "usersAreInstructions SAI = list_all (\<lambda>U. U \<noteq> NotAnInstruction) (BasePtrUsers SAI)"


subsection \<open>Kill-set analysis: the selection rule\<close>

lemma usersContained_Inr:
  "usersContained R Us = Inr c \<Longrightarrow>
     c = list_all (\<lambda>U. case U of InstructionIn b \<Rightarrow> b \<in> set (RegionBlocks R)
                               | NotAnInstruction \<Rightarrow> False) Us"
proof (induction R Us arbitrary: c rule: usersContained.induct)
  case (1 R)
  then show ?case by simp
next
  case (2 R Us)
  then show ?case by simp
next
  case (3 R b Us)
  then show ?case by (cases "b \<in> set (RegionBlocks R)") auto
qed

lemma usersContained_total:
  "list_all (\<lambda>U. U \<noteq> NotAnInstruction) Us \<Longrightarrow> \<exists>c. usersContained R Us = Inr c"
  by (induction R Us rule: usersContained.induct) auto

definition mustKill :: "Region \<Rightarrow> ('p, 'x) ScopArrayInfo_scheme \<Rightarrow> bool" where
  "mustKill R SAI = (isPHIKind SAI \<or> (isValueKind SAI \<and> allUsesInRegion R SAI))"

lemma collectKillMemIds_Inr:
  "collectKillMemIds R arrays = Inr ids \<Longrightarrow>
     ids = map BasePtrId (filter (mustKill R) arrays)"
proof (induction arrays arbitrary: ids)
  case Nil
  then show ?case by simp
next
  case (Cons SAI SAIs)
  show ?case
  proof (cases "isPHIKind SAI")
    case True
    with Cons show ?thesis
      by (auto simp: mustKill_def split: sum.splits)
  next
    case notPhi: False
    show ?thesis
    proof (cases "isValueKind SAI")
      case True
      with notPhi Cons show ?thesis
        by (auto simp: mustKill_def allUsesInRegion_def isScalarUsesContainedInScop_def
            split: sum.splits dest: usersContained_Inr)
    next
      case False
      with notPhi Cons show ?thesis
        by (auto simp: mustKill_def)
    qed
  qed
qed

lemma collectKillMemIds_total:
  "list_all usersAreInstructions arrays \<Longrightarrow> \<exists>ids. collectKillMemIds R arrays = Inr ids"
proof (induction arrays)
  case Nil
  then show ?case by simp
next
  case (Cons SAI SAIs)
  then obtain ids where ids: "collectKillMemIds R SAIs = Inr ids" by auto
  from Cons.prems have "list_all (\<lambda>U. U \<noteq> NotAnInstruction) (BasePtrUsers SAI)"
    by (simp add: usersAreInstructions_def)
  then obtain c where "usersContained R (BasePtrUsers SAI) = Inr c"
    using usersContained_total by blast
  with ids show ?case
    by (simp add: isScalarUsesContainedInScop_def)
qed

lemma addKills_killed:
  "KilledId ` set (TaggedMustKills (addKills ids Info)) =
     KilledId ` set (TaggedMustKills Info) \<union> set ids"
  by (induction ids arbitrary: Info) (auto simp: Let_def)

lemma computeMustKillsInfo_killedIds:
  "computeMustKillsInfo R arrays = Inr Info \<Longrightarrow>
     killedIds Info = BasePtrId ` {SAI \<in> set arrays. mustKill R SAI}"
proof -
  assume ret: "computeMustKillsInfo R arrays = Inr Info"
  then obtain ids where ids: "collectKillMemIds R arrays = Inr ids"
    and Info: "Info = addKills ids \<lparr>KillsSchedule = None, TaggedMustKills = []\<rparr>"
    by (auto simp: computeMustKillsInfo_def split: sum.splits)
  have "killedIds Info = set ids"
    by (simp add: Info killedIds_def addKills_killed)
  also have "ids = map BasePtrId (filter (mustKill R) arrays)"
    using ids by (rule collectKillMemIds_Inr)
  finally show ?thesis by auto
qed

text \<open>
  C3. When \<^verbatim>\<open>computeMustKillsInfo\<close> returns, the scalars it kills are every PHI-kind
  array, and the value-kind arrays all of whose users are instructions of the region;
  a value-kind array with a user outside the region, and every array of another kind,
  is left out. It returns whenever the users of the arrays are instructions (its
  assertion on a user cannot fail then). The ids of the arrays are distinct.
\<close>

theorem computeMustKillsInfo_selection:
  assumes "distinct (map BasePtrId arrays)"
  shows "(list_all usersAreInstructions arrays \<longrightarrow>
            (\<exists>Info. computeMustKillsInfo R arrays = Inr Info)) \<and>
         (\<forall>Info SAI. computeMustKillsInfo R arrays = Inr Info \<longrightarrow> SAI \<in> set arrays \<longrightarrow>
            (BasePtrId SAI \<in> killedIds Info) =
              (isPHIKind SAI \<or> (isValueKind SAI \<and> allUsesInRegion R SAI)))"
proof (intro conjI impI allI)
  assume "list_all usersAreInstructions arrays"
  then obtain ids where "collectKillMemIds R arrays = Inr ids"
    using collectKillMemIds_total by blast
  then show "\<exists>Info. computeMustKillsInfo R arrays = Inr Info"
    by (simp add: computeMustKillsInfo_def)
next
  fix Info SAI
  assume ret: "computeMustKillsInfo R arrays = Inr Info" and mem: "SAI \<in> set arrays"
  have inj: "inj_on BasePtrId (set arrays)"
    using assms by (simp add: distinct_map)
  have "(BasePtrId SAI \<in> killedIds Info) = mustKill R SAI"
  proof
    assume "BasePtrId SAI \<in> killedIds Info"
    then obtain SAI' where "SAI' \<in> set arrays" "mustKill R SAI'" "BasePtrId SAI' = BasePtrId SAI"
      using computeMustKillsInfo_killedIds [OF ret] by auto
    with inj mem show "mustKill R SAI" by (auto dest: inj_onD)
  next
    assume "mustKill R SAI"
    with mem show "BasePtrId SAI \<in> killedIds Info"
      using computeMustKillsInfo_killedIds [OF ret] by auto
  qed
  then show "(BasePtrId SAI \<in> killedIds Info) =
               (isPHIKind SAI \<or> (isValueKind SAI \<and> allUsesInRegion R SAI))"
    by (simp add: mustKill_def)
qed


text \<open>
  A region of two blocks with four arrays: a PHI with a user after the region, a scalar
  used only inside, a scalar with one user after the region, and an array.
\<close>

definition killRegion :: Region where
  "killRegion = \<lparr>RegionBlocks = [''body'', ''latch'']\<rparr>"

definition killArray :: "string \<Rightarrow> MemoryKind \<Rightarrow> User list \<Rightarrow> unit ScopArrayInfo" where
  "killArray n k us =
     \<lparr>BasePtr = Val n (IntegerTy 64), BasePtrId = n, BasePtrUsers = us, Kind = k,
      ElementType = IntegerTy 64, ElemSizeInBytes = 8,
      DimensionSizesPw = (if k = MK_Array then [None] else []), ReadOnly = False\<rparr>"

definition killArrays :: "unit ScopArrayInfo list" where
  "killArrays =
     [killArray ''phi'' MK_PHI [InstructionIn ''exit''],
      killArray ''inside'' MK_Value [InstructionIn ''body'', InstructionIn ''latch''],
      killArray ''escapes'' MK_Value [InstructionIn ''body'', InstructionIn ''exit''],
      killArray ''A'' MK_Array [InstructionIn ''body'']]"

theorem computeMustKillsInfo_selection_witness:
  "distinct (map BasePtrId killArrays) \<and> list_all usersAreInstructions killArrays \<and>
   (\<exists>Info. computeMustKillsInfo killRegion killArrays = Inr Info \<and>
      ''phi'' \<in> killedIds Info \<and> ''inside'' \<in> killedIds Info \<and>
      ''escapes'' \<notin> killedIds Info \<and> ''A'' \<notin> killedIds Info)"
proof -
  have d: "distinct (map BasePtrId killArrays)"
    by (simp add: killArrays_def killArray_def)
  have u: "list_all usersAreInstructions killArrays"
    by (simp add: killArrays_def killArray_def usersAreInstructions_def)
  note sel = computeMustKillsInfo_selection [OF d, of killRegion]
  from sel u obtain Info where ret: "computeMustKillsInfo killRegion killArrays = Inr Info"
    by blast
  have k: "\<And>SAI. SAI \<in> set killArrays \<Longrightarrow>
      (BasePtrId SAI \<in> killedIds Info) =
        (isPHIKind SAI \<or> (isValueKind SAI \<and> allUsesInRegion killRegion SAI))"
    using sel ret by blast
  have "''phi'' \<in> killedIds Info"
    using k [of "killArray ''phi'' MK_PHI [InstructionIn ''exit'']"]
    by (simp add: killArrays_def killArray_def isPHIKind_def)
  moreover have "''inside'' \<in> killedIds Info"
    using k [of "killArray ''inside'' MK_Value [InstructionIn ''body'', InstructionIn ''latch'']"]
    by (simp add: killArrays_def killArray_def isPHIKind_def isValueKind_def
        allUsesInRegion_def killRegion_def)
  moreover have "''escapes'' \<notin> killedIds Info"
    using k [of "killArray ''escapes'' MK_Value [InstructionIn ''body'', InstructionIn ''exit'']"]
    by (simp add: killArrays_def killArray_def isPHIKind_def isValueKind_def
        allUsesInRegion_def killRegion_def)
  moreover have "''A'' \<notin> killedIds Info"
    using k [of "killArray ''A'' MK_Array [InstructionIn ''body'']"]
    by (simp add: killArrays_def killArray_def isPHIKind_def isValueKind_def)
  ultimately show ?thesis using d u ret by blast
qed


section \<open>Extent, bounds and offset of an array\<close>

subsection \<open>isl sets\<close>

text \<open>
  An \<^verbatim>\<open>isl_set\<close> is a set of integer tuples that depends on the parameters of the
  region. It is modelled by its value at every valuation \<open>'p\<close> of the parameters, and
  that value is kept in the form the code builds it in: the empty set, or a universe
  cut by a lower and an upper bound on single dimensions (a box; \<open>None\<close> is no bound).
  Every extent the code computes has this form. The generated expressions are used by
  code that runs at one valuation; the tests of the generator (\<^verbatim>\<open>isl_set_is_empty\<close>,
  \<^verbatim>\<open>isl_set_is_subset\<close>) are about all valuations.
\<close>

type_synonym bounds = "int option \<times> int option"

datatype isl_box = Empty | Box "bounds list"

type_synonym 'p isl_set = "'p \<Rightarrow> isl_box"

text \<open>An \<^verbatim>\<open>isl_ast_expr\<close> built from a piecewise expression: its value when it is run.\<close>

type_synonym 'p isl_ast_expr = "'p \<Rightarrow> int option"

fun bounds_empty :: "bounds \<Rightarrow> bool" where
  "bounds_empty (Some l, Some u) = (u < l)"
| "bounds_empty _ = False"

fun box_is_empty :: "isl_box \<Rightarrow> bool" where
  "box_is_empty Empty = True"
| "box_is_empty (Box bs) = list_ex bounds_empty bs"

fun tighten_lower :: "int \<Rightarrow> bounds \<Rightarrow> bounds" where
  "tighten_lower v (None, u) = (Some v, u)"
| "tighten_lower v (Some l, u) = (Some (max l v), u)"

fun tighten_upper :: "int \<Rightarrow> bounds \<Rightarrow> bounds" where
  "tighten_upper v (l, None) = (l, Some v)"
| "tighten_upper v (l, Some u) = (l, Some (min u v))"

fun box_lower :: "nat \<Rightarrow> int \<Rightarrow> isl_box \<Rightarrow> isl_box" where
  "box_lower i v Empty = Empty"
| "box_lower i v (Box bs) = Box (bs[i := tighten_lower v (bs ! i)])"

fun box_upper :: "nat \<Rightarrow> int \<Rightarrow> isl_box \<Rightarrow> isl_box" where
  "box_upper i v Empty = Empty"
| "box_upper i v (Box bs) = Box (bs[i := tighten_upper v (bs ! i)])"

fun box_dim_min :: "isl_box \<Rightarrow> nat \<Rightarrow> int option" where
  "box_dim_min Empty i = None"
| "box_dim_min (Box bs) i =
     (if list_ex bounds_empty bs \<or> length bs \<le> i then None else fst (bs ! i))"

fun box_dim_max :: "isl_box \<Rightarrow> nat \<Rightarrow> int option" where
  "box_dim_max Empty i = None"
| "box_dim_max (Box bs) i =
     (if list_ex bounds_empty bs \<or> length bs \<le> i then None else snd (bs ! i))"

text \<open>The lexicographic minimum: the corner of the lower bounds, when there is one.\<close>

fun box_lexmin :: "isl_box \<Rightarrow> isl_box" where
  "box_lexmin Empty = Empty"
| "box_lexmin (Box bs) =
     (if list_ex bounds_empty bs \<or> list_ex (\<lambda>b. fst b = None) bs then Empty
      else Box (map (\<lambda>b. (fst b, fst b)) bs))"

fun lower_le :: "int option \<Rightarrow> int option \<Rightarrow> bool" where
  "lower_le None l = True"
| "lower_le (Some a) None = False"
| "lower_le (Some a) (Some b) = (a \<le> b)"

fun upper_le :: "int option \<Rightarrow> int option \<Rightarrow> bool" where
  "upper_le u None = True"
| "upper_le None (Some b) = False"
| "upper_le (Some a) (Some b) = (a \<le> b)"

fun box_subset :: "isl_box \<Rightarrow> isl_box \<Rightarrow> bool" where
  "box_subset Empty B = True"
| "box_subset (Box as) Empty = list_ex bounds_empty as"
| "box_subset (Box as) (Box bs) =
     (list_ex bounds_empty as \<or>
      list_all2 (\<lambda>a b. lower_le (fst b) (fst a) \<and> upper_le (snd a) (snd b)) as bs)"

fun box_project_out :: "isl_box \<Rightarrow> nat \<Rightarrow> nat \<Rightarrow> isl_box" where
  "box_project_out Empty first n = Empty"
| "box_project_out (Box bs) first n =
     (if list_ex bounds_empty bs then Empty else Box (take first bs @ drop (first + n) bs))"

fun bounds_intersect :: "bounds \<Rightarrow> bounds \<Rightarrow> bounds" where
  "bounds_intersect a (None, None) = a"
| "bounds_intersect a (Some l, None) = tighten_lower l a"
| "bounds_intersect a (None, Some u) = tighten_upper u a"
| "bounds_intersect a (Some l, Some u) = tighten_lower l (tighten_upper u a)"

fun box_intersect :: "isl_box \<Rightarrow> isl_box \<Rightarrow> isl_box" where
  "box_intersect Empty B = Empty"
| "box_intersect (Box as) Empty = Empty"
| "box_intersect (Box as) (Box bs) = Box (map2 bounds_intersect as bs)"

text \<open>The isl functions the code calls, at every valuation.\<close>

definition isl_set_empty :: "nat \<Rightarrow> 'p isl_set" where
  "isl_set_empty n = (\<lambda>p. Empty)"

definition isl_set_universe :: "nat \<Rightarrow> 'p isl_set" where
  "isl_set_universe n = (\<lambda>p. Box (replicate n (None, None)))"

definition isl_set_is_empty :: "'p isl_set \<Rightarrow> bool" where
  "isl_set_is_empty S = (\<forall>p. box_is_empty (S p))"

definition isl_set_is_subset :: "'p isl_set \<Rightarrow> 'p isl_set \<Rightarrow> bool" where
  "isl_set_is_subset A B = (\<forall>p. box_subset (A p) (B p))"

definition isl_set_intersect :: "'p isl_set \<Rightarrow> 'p isl_set \<Rightarrow> 'p isl_set" where
  "isl_set_intersect A B = (\<lambda>p. box_intersect (A p) (B p))"

definition isl_set_lower_bound_si :: "'p isl_set \<Rightarrow> nat \<Rightarrow> int \<Rightarrow> 'p isl_set" where
  "isl_set_lower_bound_si S i v = (\<lambda>p. box_lower i v (S p))"

definition isl_set_fix_si :: "'p isl_set \<Rightarrow> nat \<Rightarrow> int \<Rightarrow> 'p isl_set" where
  "isl_set_fix_si S i v = (\<lambda>p. box_upper i v (box_lower i v (S p)))"

definition isl_set_dim_min :: "'p isl_set \<Rightarrow> nat \<Rightarrow> 'p isl_pw_aff" where
  "isl_set_dim_min S i = (\<lambda>p. box_dim_min (S p) i)"

definition isl_set_dim_max :: "'p isl_set \<Rightarrow> nat \<Rightarrow> 'p isl_pw_aff" where
  "isl_set_dim_max S i = (\<lambda>p. box_dim_max (S p) i)"

definition isl_set_lexmin :: "'p isl_set \<Rightarrow> 'p isl_set" where
  "isl_set_lexmin S = (\<lambda>p. box_lexmin (S p))"

definition isl_set_project_out :: "'p isl_set \<Rightarrow> nat \<Rightarrow> nat \<Rightarrow> 'p isl_set" where
  "isl_set_project_out S first n = (\<lambda>p. box_project_out (S p) first n)"

text \<open>
  \<^verbatim>\<open>isl_pw_aff_le_set(f, x_i)\<close>, \<^verbatim>\<open>isl_pw_aff_ge_set(f, x_i)\<close> and
  \<^verbatim>\<open>isl_pw_aff_gt_set(f, x_i)\<close> for a parametric expression \<open>f\<close> and the coordinate
  \<open>x_i\<close> of a space of \<open>n\<close> dimensions: the tuples with \<open>f \<le> x_i\<close>, \<open>f \<ge> x_i\<close>,
  \<open>f > x_i\<close>; no tuple where \<open>f\<close> has no value.
\<close>

definition isl_pw_aff_le_set :: "'p isl_pw_aff \<Rightarrow> nat \<Rightarrow> nat \<Rightarrow> 'p isl_set" where
  "isl_pw_aff_le_set f n i =
     (\<lambda>p. case f p of None \<Rightarrow> Empty
                     | Some v \<Rightarrow> box_lower i v (Box (replicate n (None, None))))"

definition isl_pw_aff_ge_set :: "'p isl_pw_aff \<Rightarrow> nat \<Rightarrow> nat \<Rightarrow> 'p isl_set" where
  "isl_pw_aff_ge_set f n i =
     (\<lambda>p. case f p of None \<Rightarrow> Empty
                     | Some v \<Rightarrow> box_upper i v (Box (replicate n (None, None))))"

definition isl_pw_aff_gt_set :: "'p isl_pw_aff \<Rightarrow> nat \<Rightarrow> nat \<Rightarrow> 'p isl_set" where
  "isl_pw_aff_gt_set f n i =
     (\<lambda>p. case f p of None \<Rightarrow> Empty
                     | Some v \<Rightarrow> box_upper i (v - 1) (Box (replicate n (None, None))))"

text \<open>Arithmetic on expressions: no value where an operand has none.\<close>

definition isl_ast_expr_from_val :: "int \<Rightarrow> 'p isl_ast_expr" where
  "isl_ast_expr_from_val v = (\<lambda>p. Some v)"

definition isl_ast_expr_add :: "'p isl_ast_expr \<Rightarrow> 'p isl_ast_expr \<Rightarrow> 'p isl_ast_expr" where
  "isl_ast_expr_add a b =
     (\<lambda>p. case a p of None \<Rightarrow> None
                     | Some x \<Rightarrow> (case b p of None \<Rightarrow> None | Some y \<Rightarrow> Some (x + y)))"

definition isl_ast_expr_mul :: "'p isl_ast_expr \<Rightarrow> 'p isl_ast_expr \<Rightarrow> 'p isl_ast_expr" where
  "isl_ast_expr_mul a b =
     (\<lambda>p. case a p of None \<Rightarrow> None
                     | Some x \<Rightarrow> (case b p of None \<Rightarrow> None | Some y \<Rightarrow> Some (x * y)))"

definition isl_ast_expr_sub :: "'p isl_ast_expr \<Rightarrow> 'p isl_ast_expr \<Rightarrow> 'p isl_ast_expr" where
  "isl_ast_expr_sub a b =
     (\<lambda>p. case a p of None \<Rightarrow> None
                     | Some x \<Rightarrow> (case b p of None \<Rightarrow> None | Some y \<Rightarrow> Some (x - y)))"

text \<open>
  The elements of the arrays that are accessed (\<^verbatim>\<open>S->getAccesses()\<close> cut to the domains,
  then its range): for each array, by the id of its space, the list of the index tuples
  accessed at a valuation. \<^verbatim>\<open>isl_union_set_extract_set\<close> gives the part of one array,
  empty when the union has none.
\<close>

type_synonym 'p isl_point_set = "'p \<Rightarrow> int list list"

type_synonym 'p isl_union_set = "(string \<times> 'p isl_point_set) list"

definition isl_union_set_is_empty :: "'p isl_union_set \<Rightarrow> bool" where
  "isl_union_set_is_empty U = list_all (\<lambda>e. \<forall>p. snd e p = []) U"

definition isl_union_set_extract_set :: "'p isl_union_set \<Rightarrow> string \<Rightarrow> 'p isl_point_set" where
  "isl_union_set_extract_set U i = (case map_of U i of None \<Rightarrow> (\<lambda>p. []) | Some f \<Rightarrow> f)"

fun min_list_opt :: "int list \<Rightarrow> int option" where
  "min_list_opt [] = None"
| "min_list_opt (x # xs) = Some (fold min xs x)"

fun max_list_opt :: "int list \<Rightarrow> int option" where
  "max_list_opt [] = None"
| "max_list_opt (x # xs) = Some (fold max xs x)"

text \<open>\<^verbatim>\<open>isl_set_dim_min\<close> and \<^verbatim>\<open>isl_set_dim_max\<close> on the accessed elements of an array.\<close>

definition points_dim_min :: "'p isl_point_set \<Rightarrow> nat \<Rightarrow> 'p isl_pw_aff" where
  "points_dim_min A i = (\<lambda>p. min_list_opt (map (\<lambda>x. x ! i) (A p)))"

definition points_dim_max :: "'p isl_point_set \<Rightarrow> nat \<Rightarrow> 'p isl_pw_aff" where
  "points_dim_max A i = (\<lambda>p. max_list_opt (map (\<lambda>x. x ! i) (A p)))"


subsection \<open>The arrays of the GPU program\<close>

text \<open>
  \<^verbatim>\<open>gpu_array_info\<close> of ppcg: the fields this file sets and reads. \<open>user\<close> is the
  \<^verbatim>\<open>ScopArrayInfo\<close> the array was made from, which is also what
  \<^verbatim>\<open>ScopArrayInfo::getFromId\<close> finds from the id of the array's space. An entry of
  \<open>bound\<close> is \<open>None\<close> while it is a null pointer.
\<close>

record 'p gpu_array_info =
  array_name :: string
  size_in_bytes :: nat
  n_index :: nat
  extent :: "'p isl_set"
  bound :: "'p isl_pw_aff option list"
  read_only_scalar :: bool
  user :: "'p ScopArrayInfo"

definition gpu_array_is_scalar :: "'p gpu_array_info \<Rightarrow> bool" where
  "gpu_array_is_scalar Array = (n_index Array = 0)"

definition gpu_array_is_read_only_scalar :: "'p gpu_array_info \<Rightarrow> bool" where
  "gpu_array_is_read_only_scalar Array = read_only_scalar Array"

text \<open>
  The last loop of \<^verbatim>\<open>getExtent\<close> (line 2554): dimension \<open>i\<close> stays below its size;
  a missing size is skipped for dimension 0 and fails the assertion otherwise.
\<close>

fun extentBelowSizes ::
    "'p isl_pw_aff option list \<Rightarrow> nat \<Rightarrow> nat list \<Rightarrow> 'p isl_set \<Rightarrow> error + 'p isl_set" where
  "extentBelowSizes sizes NumDims [] Extent = Inr Extent"
| "extentBelowSizes sizes NumDims (i # js) Extent =
     (case sizes ! i of
        None \<Rightarrow>
          (if i = 0 then extentBelowSizes sizes NumDims js Extent
           else Inl (AssertionFailed ''invalid dimension isl_pw_aff for nonzero dimension''))
      | Some PwAff \<Rightarrow>
          extentBelowSizes sizes NumDims js
            (isl_set_intersect (isl_pw_aff_gt_set PwAff NumDims i) Extent))"

text \<open>\<^verbatim>\<open>getExtent\<close> (line 2505), for the accessed elements \<open>AccessUSet\<close> of the region.\<close>

definition getExtent :: "'p isl_union_set \<Rightarrow> 'p ScopArrayInfo \<Rightarrow> error + 'p isl_set" where
  "getExtent AccessUSet Array =
     (let NumDims = getNumberOfDimensions Array in
      if isl_union_set_is_empty AccessUSet then Inr (isl_set_empty NumDims)
      else if getNumberOfDimensions Array = 0 then Inr (isl_set_universe NumDims)
      else
        (let AccessSet = isl_union_set_extract_set AccessUSet (BasePtrId Array);
             OuterMin = points_dim_min AccessSet 0;
             OuterMax = points_dim_max AccessSet 0;
             Extent0 = isl_set_universe NumDims;
             Extent1 = isl_set_intersect Extent0 (isl_pw_aff_le_set OuterMin NumDims 0);
             Extent2 = isl_set_intersect Extent1 (isl_pw_aff_ge_set OuterMax NumDims 0);
             Extent3 = fold (\<lambda>i E. isl_set_lower_bound_si E i 0) [1..<NumDims] Extent2
         in extentBelowSizes (DimensionSizesPw Array) NumDims [0..<NumDims] Extent3))"

text \<open>
  \<^verbatim>\<open>setArrayBounds\<close> (line 2586). The bound of dimension 0 is the largest index of the
  extent in that dimension plus one (zero for an empty extent); \<^verbatim>\<open>isl_pw_aff_gist\<close>
  rewrites the expression and keeps its value at the valuations of the context. The
  bounds of the inner dimensions are the sizes of the array.
\<close>

definition setArrayBounds :: "'p gpu_array_info \<Rightarrow> 'p ScopArrayInfo \<Rightarrow> 'p gpu_array_info" where
  "setArrayBounds PPCGArray Array =
     (let bound0 =
            (if n_index PPCGArray > 0 then
               (if isl_set_is_empty (extent PPCGArray) then [Some (\<lambda>p. Some 0)]
                else
                  (let Dom = isl_set_project_out (extent PPCGArray) 1 (n_index PPCGArray - 1);
                       Bound = isl_set_dim_max Dom 0;
                       One = (\<lambda>p. case Bound p of None \<Rightarrow> None | Some b \<Rightarrow> Some 1)
                   in [Some (isl_ast_expr_add Bound One)]))
             else []);
          inner = map (\<lambda>i. DimensionSizesPw Array ! i) [1..<n_index PPCGArray]
      in PPCGArray\<lparr>bound := bound0 @ inner\<rparr>)"

text \<open>One step of the loop of \<^verbatim>\<open>createArrays\<close> (line 2623).\<close>

definition createArray :: "'p isl_union_set \<Rightarrow> 'p ScopArrayInfo \<Rightarrow> error + 'p gpu_array_info" where
  "createArray AccessUSet Array =
     (case getExtent AccessUSet Array of
        Inl e \<Rightarrow> Inl e
      | Inr Extent \<Rightarrow>
          Inr (setArrayBounds
                 \<lparr>array_name = BasePtrId Array,
                  size_in_bytes = getPrimitiveSizeInBits (ElementType Array) div 8,
                  n_index = getNumberOfDimensions Array,
                  extent = Extent,
                  bound = replicate (getNumberOfDimensions Array) None,
                  read_only_scalar = (ReadOnly Array \<and> getNumberOfDimensions Array = 0),
                  user = Array\<rparr>
                 Array))"

fun createArrays ::
    "'p isl_union_set \<Rightarrow> 'p ScopArrayInfo list \<Rightarrow> error + 'p gpu_array_info list" where
  "createArrays AccessUSet [] = Inr []"
| "createArrays AccessUSet (Array # Arrays) =
     (case createArray AccessUSet Array of
        Inl e \<Rightarrow> Inl e
      | Inr PPCGArray \<Rightarrow>
          (case createArrays AccessUSet Arrays of
             Inl e \<Rightarrow> Inl e
           | Inr rest \<Rightarrow> Inr (PPCGArray # rest)))"

text \<open>
  The second loop of \<^verbatim>\<open>getArrayOffset\<close> (line 1051). A null bound gives a null
  expression, which \<^verbatim>\<open>ExprBuilder.create\<close> cannot take.
\<close>

fun offsetTerms ::
    "'p isl_set \<Rightarrow> 'p isl_pw_aff option list \<Rightarrow> nat list \<Rightarrow> 'p isl_ast_expr \<Rightarrow>
       error + 'p isl_ast_expr" where
  "offsetTerms MinSet bnd [] Result = Inr Result"
| "offsetTerms MinSet bnd (i # js) Result =
     (if i > 0 then
        (case bnd ! (i - 1) of
           None \<Rightarrow> Inl (NullDereference ''Array->bound'')
         | Some Bound_I \<Rightarrow>
             offsetTerms MinSet bnd js
               (isl_ast_expr_add (isl_ast_expr_mul Result Bound_I) (isl_set_dim_min MinSet i)))
      else offsetTerms MinSet bnd js (isl_ast_expr_add Result (isl_set_dim_min MinSet i)))"

text \<open>\<^verbatim>\<open>getArrayOffset\<close> (line 1027): \<open>None\<close> is the null pointer it returns.\<close>

definition getArrayOffset :: "'p gpu_array_info \<Rightarrow> error + 'p isl_ast_expr option" where
  "getArrayOffset Array =
     (if gpu_array_is_scalar Array then Inr None
      else
        (let MinSet = isl_set_lexmin (extent Array);
             n = n_index Array;
             ZeroSet = fold (\<lambda>i Z. isl_set_fix_si Z i 0) [0..<n] (isl_set_universe n)
         in if isl_set_is_subset MinSet ZeroSet then Inr None
            else
              (case offsetTerms MinSet (bound Array) [0..<n] (isl_ast_expr_from_val 0) of
                 Inl e \<Rightarrow> Inl e
               | Inr Result \<Rightarrow> Inr (Some Result))))"

text \<open>\<^verbatim>\<open>getArraySize\<close> (line 1004): the element size times the bounds.\<close>

fun sizeFactors ::
    "'p isl_pw_aff option list \<Rightarrow> nat list \<Rightarrow> 'p isl_ast_expr \<Rightarrow> error + 'p isl_ast_expr" where
  "sizeFactors bnd [] Res = Inr Res"
| "sizeFactors bnd (i # js) Res =
     (case bnd ! i of
        None \<Rightarrow> Inl (NullDereference ''Array->bound'')
      | Some Bound_I \<Rightarrow> sizeFactors bnd js (isl_ast_expr_mul Res Bound_I))"

definition getArraySize :: "'p gpu_array_info \<Rightarrow> error + 'p isl_ast_expr" where
  "getArraySize Array =
     (let ArraySize = isl_ast_expr_from_val (int (size_in_bytes Array)) in
      if \<not> gpu_array_is_scalar Array then
        (case bound Array ! 0 of
           None \<Rightarrow> Inl (NullDereference ''Array->bound'')
         | Some OffsetDimZero \<Rightarrow>
             (case sizeFactors (bound Array) [1..<n_index Array] OffsetDimZero of
                Inl e \<Rightarrow> Inl e
              | Inr NumElements \<Rightarrow> Inr (isl_ast_expr_mul ArraySize NumElements)))
      else Inr ArraySize)"


subsection \<open>The extent of an array\<close>

lemma box_intersect_Empty_right [simp]: "box_intersect B Empty = Empty"
  by (cases B) simp_all

lemma fold_lower_bound_Empty:
  "fold (\<lambda>i E. isl_set_lower_bound_si E i 0) js (\<lambda>p. Empty) = (\<lambda>p. Empty)"
  by (induction js) (simp_all add: isl_set_lower_bound_si_def)

lemma extentBelowSizes_Empty:
  "list_all (\<lambda>i. i = 0 \<or> sizes ! i \<noteq> None) js \<Longrightarrow>
     extentBelowSizes sizes n js (\<lambda>p. Empty) = Inr (\<lambda>p. Empty)"
proof (induction js)
  case Nil
  then show ?case by simp
next
  case (Cons i js)
  then show ?case
    by (cases "sizes ! i") (simp_all add: isl_set_intersect_def)
qed

lemma getExtent_never_accessed:
  assumes "\<not> isl_union_set_is_empty U" and "0 < getNumberOfDimensions A"
    and "\<forall>p. isl_union_set_extract_set U (BasePtrId A) p = []"
    and "list_all (\<lambda>i. DimensionSizesPw A ! i \<noteq> None) [1..<getNumberOfDimensions A]"
  shows "getExtent U A = Inr (isl_set_empty (getNumberOfDimensions A))"
proof -
  let ?n = "getNumberOfDimensions A"
  have min: "points_dim_min (isl_union_set_extract_set U (BasePtrId A)) 0 = (\<lambda>p. None)"
    using assms(3) by (simp add: points_dim_min_def)
  have e1: "isl_set_intersect (isl_set_universe ?n) (isl_pw_aff_le_set (\<lambda>p. None) ?n 0) = (\<lambda>p. Empty)"
    by (simp add: isl_set_intersect_def isl_pw_aff_le_set_def)
  have e2: "\<And>B. isl_set_intersect (\<lambda>p. Empty) B = (\<lambda>p. Empty)"
    by (simp add: isl_set_intersect_def)
  have sz: "list_all (\<lambda>i. i = 0 \<or> DimensionSizesPw A ! i \<noteq> None) [0..<?n]"
    using assms(4) by (auto simp: list_all_iff) 
  show ?thesis
    using assms(1,2)
    by (simp add: getExtent_def Let_def min e1 e2 fold_lower_bound_Empty
        extentBelowSizes_Empty [OF sz] isl_set_empty_def)
qed


text \<open>
  C8 (as amended). \<^verbatim>\<open>getExtent\<close> tests the accesses of the whole region first: when
  no element of any array is accessed it returns the empty set, for a scalar too.
  Otherwise it returns the universal set for an array of zero dimensions, whether or not
  that array is accessed itself, and the empty set for an array of one or more
  dimensions that is never accessed (its inner sizes being known, as the assertion asks).
\<close>

theorem getExtent_cases:
  "(isl_union_set_is_empty U \<longrightarrow>
      getExtent U A = Inr (isl_set_empty (getNumberOfDimensions A))) \<and>
   (\<not> isl_union_set_is_empty U \<and> getNumberOfDimensions A = 0 \<longrightarrow>
      getExtent U A = Inr (isl_set_universe 0)) \<and>
   (\<not> isl_union_set_is_empty U \<and> 0 < getNumberOfDimensions A \<and>
    (\<forall>p. isl_union_set_extract_set U (BasePtrId A) p = []) \<and>
    list_all (\<lambda>i. DimensionSizesPw A ! i \<noteq> None) [1..<getNumberOfDimensions A] \<longrightarrow>
      getExtent U A = Inr (isl_set_empty (getNumberOfDimensions A)))"
  using getExtent_never_accessed [of U A] by (simp add: getExtent_def)

text \<open>
  A region that accesses \<open>A[i + 42]\<close> for \<open>0 \<le> i \<le> 57\<close>, with a scalar and a second
  array that are not accessed.
\<close>

definition extScalar :: "unit ScopArrayInfo" where
  "extScalar =
     \<lparr>BasePtr = Val ''s'' FloatTy, BasePtrId = ''MemRef_s'', BasePtrUsers = [],
      Kind = MK_Value, ElementType = FloatTy, ElemSizeInBytes = 4,
      DimensionSizesPw = [], ReadOnly = True\<rparr>"

definition extArray :: "string \<Rightarrow> unit isl_pw_aff option list \<Rightarrow> unit ScopArrayInfo" where
  "extArray n sizes =
     \<lparr>BasePtr = Val n (PointerTy FloatTy 0), BasePtrId = ''MemRef_'' @ n, BasePtrUsers = [],
      Kind = MK_Array, ElementType = FloatTy, ElemSizeInBytes = 4,
      DimensionSizesPw = sizes, ReadOnly = False\<rparr>"

definition extAccesses :: "unit isl_union_set" where
  "extAccesses = [(''MemRef_A'', \<lambda>p. map (\<lambda>i. [i + 42]) [0..57])]"

lemma all_unit: "(\<forall>p::unit. P p) = P ()"
  by (metis (full_types) old.unit.exhaust)

theorem getExtent_cases_witness:
  "isl_union_set_is_empty ([] :: unit isl_union_set) \<and>
   getExtent [] extScalar = Inr (isl_set_empty 0) \<and>
   \<not> isl_union_set_is_empty extAccesses \<and>
   getExtent extAccesses extScalar = Inr (isl_set_universe 0) \<and>
   getExtent extAccesses (extArray ''B'' [None]) = Inr (isl_set_empty 1)"
proof -
  have n0: "getNumberOfDimensions extScalar = 0"
    by (simp add: getNumberOfDimensions_def extScalar_def)
  have n1: "getNumberOfDimensions (extArray ''B'' [None]) = 1"
    by (simp add: getNumberOfDimensions_def extArray_def)
  have e: "isl_union_set_is_empty ([] :: unit isl_union_set)"
    by (simp add: isl_union_set_is_empty_def)
  have ne: "\<not> isl_union_set_is_empty extAccesses"
    by (simp add: isl_union_set_is_empty_def extAccesses_def all_unit upto.simps)
  have b: "\<forall>p. isl_union_set_extract_set extAccesses (BasePtrId (extArray ''B'' [None])) p = []"
    by (simp add: isl_union_set_extract_set_def extAccesses_def extArray_def)
  show ?thesis
    using getExtent_cases [of "[]" extScalar] getExtent_cases [of extAccesses extScalar]
      getExtent_cases [of extAccesses "extArray ''B'' [None]"] e ne b
    by (simp add: n0 n1)
qed

text \<open>
  C8 as stated fails for a scalar: with no access in the region its extent is the empty
  set, not the universal one; with accesses to other arrays only, its extent is the
  universal set although its own access set is empty.
\<close>

theorem getExtent_scalar_counterexample:
  "getNumberOfDimensions extScalar = 0 \<and>
   getExtent [] extScalar \<noteq> Inr (isl_set_universe 0) \<and>
   (\<forall>p. isl_union_set_extract_set extAccesses (BasePtrId extScalar) p = []) \<and>
   getExtent extAccesses extScalar \<noteq> Inr (isl_set_empty 0)"
proof -
  have n0: "getNumberOfDimensions extScalar = 0"
    by (simp add: getNumberOfDimensions_def extScalar_def)
  have ne: "\<not> isl_union_set_is_empty extAccesses"
    by (simp add: isl_union_set_is_empty_def extAccesses_def all_unit upto.simps)
  have d: "(isl_set_empty 0 :: unit isl_set) \<noteq> isl_set_universe 0"
    by (simp add: isl_set_empty_def isl_set_universe_def fun_eq_iff)
  have 1: "getExtent [] extScalar = Inr (isl_set_empty 0)"
    by (simp add: getExtent_def isl_union_set_is_empty_def n0)
  have 2: "getExtent extAccesses extScalar = Inr (isl_set_universe 0)"
    using ne by (simp add: getExtent_def n0)
  have 3: "\<forall>p. isl_union_set_extract_set extAccesses (BasePtrId extScalar) p = []"
    by (simp add: isl_union_set_extract_set_def extAccesses_def extScalar_def)
  show ?thesis using n0 1 2 3 d by (simp add: eq_commute [of "isl_set_universe 0"])
qed



subsection \<open>The bound and the offset of an array\<close>

lemma fold_min_le: "fold min xs (x::int) \<le> x"
proof (induction xs arbitrary: x)
  case Nil
  then show ?case by simp
next
  case (Cons y ys)
  have "fold min ys (min y x) \<le> min y x" by (rule Cons.IH)
  then show ?case by simp
qed

lemma fold_max_ge: "(x::int) \<le> fold max xs x"
proof (induction xs arbitrary: x)
  case Nil
  then show ?case by simp
next
  case (Cons y ys)
  have "max y x \<le> fold max ys (max y x)" by (rule Cons.IH)
  then show ?case by simp
qed

lemma min_le_max_list:
  "min_list_opt xs = Some a \<Longrightarrow> max_list_opt xs = Some b \<Longrightarrow> a \<le> b"
proof (cases xs)
  case Nil
  assume "min_list_opt xs = Some a"
  with Nil show ?thesis by simp
next
  case (Cons x ys)
  assume "min_list_opt xs = Some a" "max_list_opt xs = Some b"
  with Cons have "a \<le> x" "x \<le> b"
    using fold_min_le [of ys x] fold_max_ge [of x ys] by auto
  then show ?thesis by simp
qed

lemma fold_upd_length:
  "length (fold (\<lambda>i bs. bs[i := g i (bs ! i)]) js bs) = length bs"
  by (induction js arbitrary: bs) simp_all

lemma fold_upd_nth:
  "distinct js \<Longrightarrow> j < length bs \<Longrightarrow>
     fold (\<lambda>i bs. bs[i := g i (bs ! i)]) js bs ! j = (if j \<in> set js then g j (bs ! j) else bs ! j)"
proof (induction js arbitrary: bs)
  case Nil
  then show ?case by simp
next
  case (Cons i js)
  let ?bs = "bs[i := g i (bs ! i)]"
  have ih: "fold (\<lambda>i bs. bs[i := g i (bs ! i)]) js ?bs ! j =
          (if j \<in> set js then g j (?bs ! j) else ?bs ! j)"
    using Cons.prems by (intro Cons.IH) simp_all
  show ?case
  proof (cases "j \<in> set js")
    case True
    with Cons.prems have "i \<noteq> j" by auto
    with True ih show ?thesis by simp
  next
    case False
    with ih Cons.prems show ?thesis by (cases "i = j") simp_all
  qed
qed

lemma bounds_intersect_lower: "bounds_intersect a (Some v, None) = tighten_lower v a"
  by simp

lemma bounds_intersect_none_left: "bounds_intersect (None, None) b = b"
  by (cases b; cases "fst b"; cases "snd b") auto

fun below :: "int \<Rightarrow> bounds \<Rightarrow> bounds" where
  "below v (l, None) = (l, Some v)"
| "below v (l, Some u) = (l, Some (min v u))"

lemma bounds_intersect_upper_left: "bounds_intersect (None, Some v) b = below v b"
  by (cases b; cases "fst b"; cases "snd b") auto

lemma intersect_le_upd:
  assumes "length as = n" "i < n"
  shows "box_intersect (Box as) (box_lower i v (Box (replicate n (None, None)))) =
           Box (as[i := tighten_lower v (as ! i)])"
  using assms by (auto intro!: nth_equalityI simp: nth_list_update)

lemma intersect_ge_upd:
  assumes "length as = n" "i < n"
  shows "box_intersect (Box as) (box_upper i v (Box (replicate n (None, None)))) =
           Box (as[i := tighten_upper v (as ! i)])"
  using assms by (auto intro!: nth_equalityI simp: nth_list_update)

lemma intersect_gt_upd:
  assumes "length as = n" "i < n"
  shows "box_intersect (box_upper i v (Box (replicate n (None, None)))) (Box as) =
           Box (as[i := below v (as ! i)])"
  using assms
  by (auto intro!: nth_equalityI
      simp: nth_list_update bounds_intersect_none_left bounds_intersect_upper_left)


lemma fold_lower_at:
  "E q = Box bs \<Longrightarrow>
     fold (\<lambda>i E. isl_set_lower_bound_si E i 0) js E q =
       Box (fold (\<lambda>i bs. bs[i := tighten_lower 0 (bs ! i)]) js bs)"
  by (induction js arbitrary: E bs) (simp_all add: isl_set_lower_bound_si_def)

definition belowSize ::
    "'p isl_pw_aff option list \<Rightarrow> nat \<Rightarrow> nat \<Rightarrow> 'p isl_set \<Rightarrow> 'p isl_set" where
  "belowSize sizes n i E =
     (case sizes ! i of None \<Rightarrow> E
      | Some PwAff \<Rightarrow> isl_set_intersect (isl_pw_aff_gt_set PwAff n i) E)"

lemma extentBelowSizes_fold:
  "list_all (\<lambda>i. i = 0 \<or> sizes ! i \<noteq> None) js \<Longrightarrow>
     extentBelowSizes sizes n js E = Inr (fold (belowSize sizes n) js E)"
proof (induction js arbitrary: E)
  case Nil
  then show ?case by simp
next
  case (Cons i js)
  then show ?case by (cases "sizes ! i") (auto simp: belowSize_def)
qed

fun sizeBound :: "'p isl_pw_aff option \<Rightarrow> 'p \<Rightarrow> bounds \<Rightarrow> bounds" where
  "sizeBound None q b = b"
| "sizeBound (Some f) q b = (case f q of None \<Rightarrow> b | Some v \<Rightarrow> below (v - 1) b)"

lemma fold_belowSize_at:
  assumes "E q = Box bs" "length bs = n"
    and "\<forall>i\<in>set js. i < n \<and> (\<forall>f. sizes ! i = Some f \<longrightarrow> f q \<noteq> None)"
  shows "fold (belowSize sizes n) js E q =
           Box (fold (\<lambda>i bs. bs[i := sizeBound (sizes ! i) q (bs ! i)]) js bs)"
  using assms
proof (induction js arbitrary: E bs)
  case Nil
  then show ?case by simp
next
  case (Cons i js)
  have i: "i < n" using Cons.prems by simp
  show ?case
  proof (cases "sizes ! i")
    case None
    then have "belowSize sizes n i E = E" by (simp add: belowSize_def)
    moreover have "bs[i := sizeBound (sizes ! i) q (bs ! i)] = bs" using None by simp
    ultimately show ?thesis using Cons by simp
  next
    case (Some f)
    with Cons.prems obtain v where v: "f q = Some v" by auto
    have "belowSize sizes n i E q = Box (bs[i := below (v - 1) (bs ! i)])"
      using Some v Cons.prems(1,2) i
      by (simp add: belowSize_def isl_set_intersect_def isl_pw_aff_gt_set_def intersect_gt_upd
          del: box_upper.simps)
    moreover have "bs[i := sizeBound (sizes ! i) q (bs ! i)] = bs[i := below (v - 1) (bs ! i)]"
      using Some v by simp
    ultimately show ?thesis
      using Cons.prems by (simp add: Cons.IH)
  qed
qed

lemma fold_belowSize_Empty:
  "E q = Empty \<Longrightarrow> fold (belowSize sizes n) js E q = Empty"
proof (induction js arbitrary: E)
  case Nil
  then show ?case by simp
next
  case (Cons i js)
  have "belowSize sizes n i E q = Empty"
    using Cons.prems by (cases "sizes ! i") (simp_all add: belowSize_def isl_set_intersect_def)
  then show ?case by (simp add: Cons.IH)
qed

lemma fold_lower_Empty:
  "E q = Empty \<Longrightarrow> fold (\<lambda>i E. isl_set_lower_bound_si E i 0) js E q = Empty"
  by (induction js arbitrary: E) (simp_all add: isl_set_lower_bound_si_def)

lemma extract_nonempty:
  "isl_union_set_extract_set U i p \<noteq> [] \<Longrightarrow> \<not> isl_union_set_is_empty U"
proof -
  assume ne: "isl_union_set_extract_set U i p \<noteq> []"
  then obtain f where f: "map_of U i = Some f" and fp: "f p \<noteq> []"
    by (auto simp: isl_union_set_extract_set_def split: option.splits)
  from f have "(i, f) \<in> set U" by (rule map_of_SomeD)
  with fp show ?thesis
    by (force simp: isl_union_set_is_empty_def list_all_iff)
qed

text \<open>The extent of an array that is accessed, at one valuation.\<close>

lemma getExtent_at:
  fixes U :: "'p isl_union_set" and A :: "'p ScopArrayInfo"
  defines "n \<equiv> getNumberOfDimensions A"
    and "sizes \<equiv> DimensionSizesPw A"
    and "pts \<equiv> isl_union_set_extract_set U (BasePtrId A)"
  assumes n: "0 < n" and U: "\<not> isl_union_set_is_empty U"
    and inner: "list_all (\<lambda>i. sizes ! i \<noteq> None) [1..<n]"
  shows "\<exists>E. getExtent U A = Inr E \<and>
           (\<forall>q. pts q = [] \<longrightarrow> E q = Empty) \<and>
           (\<forall>q m M. points_dim_min pts 0 q = Some m \<longrightarrow> points_dim_max pts 0 q = Some M \<longrightarrow>
              (\<forall>i<n. \<forall>f. sizes ! i = Some f \<longrightarrow> f q \<noteq> None) \<longrightarrow>
              (\<exists>bs. E q = Box bs \<and> length bs = n \<and>
                 bs ! 0 = sizeBound (sizes ! 0) q (Some m, Some M) \<and>
                 (\<forall>j. 0 < j \<longrightarrow> j < n \<longrightarrow> bs ! j = sizeBound (sizes ! j) q (Some 0, None))))"
proof -
  define E2 where "E2 =
    isl_set_intersect
      (isl_set_intersect (isl_set_universe n) (isl_pw_aff_le_set (points_dim_min pts 0) n 0))
      (isl_pw_aff_ge_set (points_dim_max pts 0) n 0)"
  define E3 where "E3 = fold (\<lambda>i E. isl_set_lower_bound_si E i 0) [1..<n] E2"
  define E where "E = fold (belowSize sizes n) [0..<n] E3"
  have sz: "list_all (\<lambda>i. i = 0 \<or> sizes ! i \<noteq> None) [0..<n]"
    using inner by (auto simp: list_all_iff)
  have ret: "getExtent U A = Inr E"
    using n U extentBelowSizes_fold [OF sz, of n E3]
    by (simp add: getExtent_def Let_def E_def E3_def E2_def n_def sizes_def pts_def)
  have empty: "E q = Empty" if "pts q = []" for q
  proof -
    have "E2 q = Empty"
      using that by (simp add: E2_def isl_set_intersect_def isl_pw_aff_le_set_def points_dim_min_def)
    then have "E3 q = Empty" unfolding E3_def by (rule fold_lower_Empty)
    then show ?thesis unfolding E_def by (rule fold_belowSize_Empty)
  qed
  have box: "\<exists>bs. E q = Box bs \<and> length bs = n \<and>
                 bs ! 0 = sizeBound (sizes ! 0) q (Some m, Some M) \<and>
                 (\<forall>j. 0 < j \<longrightarrow> j < n \<longrightarrow> bs ! j = sizeBound (sizes ! j) q (Some 0, None))"
    if m: "points_dim_min pts 0 q = Some m" and M: "points_dim_max pts 0 q = Some M"
      and known: "\<forall>i<n. \<forall>f. sizes ! i = Some f \<longrightarrow> f q \<noteq> None" for q m M
  proof -
    let ?b2 = "(replicate n (None, None))[0 := (Some m, Some M)]"
    have "E2 q = Box (((replicate n (None, None))[0 := (Some m, None)])[0 := (Some m, Some M)])"
      using n m M
      by (simp add: E2_def isl_set_intersect_def isl_pw_aff_le_set_def isl_pw_aff_ge_set_def
          isl_set_universe_def intersect_le_upd intersect_ge_upd del: box_lower.simps box_upper.simps)
    then have e2: "E2 q = Box ?b2" by simp
    let ?b3 = "fold (\<lambda>i bs. bs[i := tighten_lower 0 (bs ! i)]) [1..<n] ?b2"
    have e3: "E3 q = Box ?b3" unfolding E3_def using e2 by (rule fold_lower_at)
    have l3: "length ?b3 = n"
      by (simp add: fold_upd_length [where g = "\<lambda>i. tighten_lower 0"])
    let ?b = "fold (\<lambda>i bs. bs[i := sizeBound (sizes ! i) q (bs ! i)]) [0..<n] ?b3"
    have e: "E q = Box ?b"
      unfolding E_def using e3 l3 known by (intro fold_belowSize_at) auto
    have l: "length ?b = n"
      using l3 by (simp add: fold_upd_length [where g = "\<lambda>i. sizeBound (sizes ! i) q"])
    have b3_0: "?b3 ! 0 = (Some m, Some M)"
      using n by (simp add: fold_upd_nth [where g = "\<lambda>i. tighten_lower 0"])
    have b3_j: "?b3 ! j = (Some 0, None)" if "0 < j" "j < n" for j
      using that by (simp add: fold_upd_nth [where g = "\<lambda>i. tighten_lower 0"])
    have b_j: "?b ! j = sizeBound (sizes ! j) q (?b3 ! j)" if "j < n" for j
      using that l3 by (simp add: fold_upd_nth [where g = "\<lambda>i. sizeBound (sizes ! i) q"])
    show ?thesis
      using e l b_j b3_0 b3_j n by auto
  qed
  show ?thesis using ret empty box by blast
qed


definition sizesFit :: "'p isl_pw_aff option list \<Rightarrow> int \<Rightarrow> 'p \<Rightarrow> bool" where
  "sizesFit sizes M q =
     ((case sizes ! 0 of None \<Rightarrow> True
       | Some f \<Rightarrow> (case f q of None \<Rightarrow> False | Some v \<Rightarrow> M < v)) \<and>
      list_all (\<lambda>i. case sizes ! i of None \<Rightarrow> False
                   | Some f \<Rightarrow> (case f q of None \<Rightarrow> False | Some v \<Rightarrow> 1 \<le> v))
        [1..<length sizes])"

lemma sizesFit_outer:
  "sizesFit sizes M q \<Longrightarrow> sizeBound (sizes ! 0) q (Some m, Some M) = (Some m, Some M)"
  by (cases "sizes ! 0") (auto simp: sizesFit_def split: option.splits)

lemma sizesFit_innerD:
  assumes "sizesFit sizes M q" "0 < j" "j < length sizes"
  shows "\<exists>f v. sizes ! j = Some f \<and> f q = Some v \<and> 1 \<le> v"
proof -
  have "j \<in> set [1..<length sizes]" using assms(2,3) by simp
  with assms(1) have "case sizes ! j of None \<Rightarrow> False
      | Some f \<Rightarrow> (case f q of None \<Rightarrow> False | Some v \<Rightarrow> 1 \<le> v)"
    unfolding sizesFit_def list_all_iff by blast
  then show ?thesis by (auto split: option.splits)
qed

lemma sizesFit_inner:
  assumes "sizesFit sizes M q" "0 < j" "j < length sizes"
  shows "\<exists>v. sizeBound (sizes ! j) q (Some 0, None) = (Some 0, Some v) \<and> 0 \<le> v"
proof -
  from sizesFit_innerD [OF assms] obtain f v
    where "sizes ! j = Some f" "f q = Some v" "1 \<le> v" by blast
  then show ?thesis by simp
qed

lemma sizesFit_known:
  assumes "sizesFit sizes M q" "i < length sizes" "sizes ! i = Some f"
  shows "f q \<noteq> None"
proof (cases "i = 0")
  case True
  with assms show ?thesis by (auto simp: sizesFit_def split: option.splits)
next
  case False
  with sizesFit_innerD [OF assms(1) _ assms(2)] assms(3) show ?thesis by auto
qed

lemma sizesFit_nonnull:
  assumes "sizesFit sizes M q"
  shows "list_all (\<lambda>i. sizes ! i \<noteq> None) [1..<length sizes]"
proof -
  have "sizes ! i \<noteq> None" if "i \<in> set [1..<length sizes]" for i
    using sizesFit_innerD [OF assms, of i] that by auto
  then show ?thesis by (simp add: list_all_iff)
qed

lemma fold_fix_at:
  "Z q = Box bs \<Longrightarrow> \<forall>i\<in>set js. i < length bs \<Longrightarrow>
     fold (\<lambda>i Z. isl_set_fix_si Z i 0) js Z q =
       Box (fold (\<lambda>i bs. bs[i := tighten_upper 0 (tighten_lower 0 (bs ! i))]) js bs)"
  by (induction js arbitrary: Z bs) (simp_all add: isl_set_fix_si_def)

lemma ZeroSet_at:
  "\<exists>zs. fold (\<lambda>i Z. isl_set_fix_si Z i 0) [0..<n] (isl_set_universe n) q = Box zs \<and>
        length zs = n \<and> (\<forall>j<n. zs ! j = (Some 0, Some 0))"
proof -
  let ?g = "\<lambda>i::nat. \<lambda>b. tighten_upper 0 (tighten_lower 0 b)"
  let ?zs = "fold (\<lambda>i bs. bs[i := ?g i (bs ! i)]) [0..<n] (replicate n (None, None))"
  have "fold (\<lambda>i Z. isl_set_fix_si Z i 0) [0..<n] (isl_set_universe n) q = Box ?zs"
    by (rule fold_fix_at) (simp_all add: isl_set_universe_def)
  moreover have "length ?zs = n" by (simp add: fold_upd_length [where g = ?g])
  moreover have "\<forall>j<n. ?zs ! j = (Some 0, Some 0)"
    by (simp add: fold_upd_nth [where g = ?g])
  ultimately show ?thesis by blast
qed

lemma offsetTerms_total:
  "list_all (\<lambda>i. i = 0 \<or> bnd ! (i - 1) \<noteq> None) js \<Longrightarrow>
     \<exists>R. offsetTerms MinSet bnd js R0 = Inr R"
proof (induction js arbitrary: R0)
  case Nil
  then show ?case by simp
next
  case (Cons i js)
  then show ?case by (cases "bnd ! (i - 1)") auto
qed


text \<open>
  The shape of the extent of an accessed array at one valuation: dimension 0 runs from
  the smallest to the largest index accessed, every inner dimension from 0 to a bound
  that is not negative.
\<close>

definition accessedBox :: "isl_box \<Rightarrow> nat \<Rightarrow> int \<Rightarrow> int \<Rightarrow> bool" where
  "accessedBox B n m M =
     (\<exists>bs. B = Box bs \<and> length bs = n \<and> 0 < n \<and> bs ! 0 = (Some m, Some M) \<and> m \<le> M \<and>
        (\<forall>j. 0 < j \<longrightarrow> j < n \<longrightarrow> (\<exists>v. bs ! j = (Some 0, Some v) \<and> 0 \<le> v)))"

lemma accessedBox_bounds:
  assumes "accessedBox (Box bs) n m M" "b \<in> set bs"
  shows "\<exists>l u. b = (Some l, Some u) \<and> l \<le> u"
proof -
  from assms(2) obtain j where j: "j < length bs" "b = bs ! j"
    by (auto simp: in_set_conv_nth)
  show ?thesis
  proof (cases "j = 0")
    case True
    with assms(1) j show ?thesis by (auto simp: accessedBox_def)
  next
    case False
    with assms(1) j have "\<exists>v. bs ! j = (Some 0, Some v) \<and> 0 \<le> v"
      by (auto simp: accessedBox_def)
    with j show ?thesis by auto
  qed
qed

lemma accessedBox_nonempty:
  assumes "accessedBox (Box bs) n m M"
  shows "\<not> list_ex bounds_empty bs"
proof
  assume "list_ex bounds_empty bs"
  then obtain b where b: "b \<in> set bs" "bounds_empty b" by (auto simp: list_ex_iff)
  from accessedBox_bounds [OF assms b(1)] b(2) show False by auto
qed

lemma accessedBox_lower:
  assumes "accessedBox (Box bs) n m M"
  shows "\<not> list_ex (\<lambda>b. fst b = None) bs"
proof
  assume "list_ex (\<lambda>b. fst b = None) bs"
  then obtain b where b: "b \<in> set bs" "fst b = None" by (auto simp: list_ex_iff)
  from accessedBox_bounds [OF assms b(1)] b(2) show False by auto
qed

lemma accessedBox_dim_max:
  assumes "accessedBox B n m M"
  shows "box_dim_max (box_project_out B 1 (n - 1)) 0 = Some M"
proof -
  from assms obtain bs where B: "B = Box bs" and l: "length bs = n" "0 < n"
    and b0: "bs ! 0 = (Some m, Some M)"
    by (auto simp: accessedBox_def)
  have ne: "\<not> list_ex bounds_empty bs"
    using assms B accessedBox_nonempty by blast
  have "set (take 1 bs @ drop n bs) \<subseteq> set bs"
    by (auto dest: in_set_takeD in_set_dropD)
  with ne have ne': "\<not> list_ex bounds_empty (take 1 bs @ drop n bs)"
    by (auto simp: list_ex_iff)
  have "(take 1 bs @ drop n bs) ! 0 = bs ! 0"
    using l by (cases bs) simp_all
  with B l ne ne' b0 show ?thesis by simp
qed

lemma accessedBox_lexmin:
  assumes "accessedBox (Box bs) n m M"
  shows "box_lexmin (Box bs) = Box (map (\<lambda>b. (fst b, fst b)) bs)"
  using accessedBox_nonempty [OF assms] accessedBox_lower [OF assms] by simp

lemma accessedBox_lexmin_min:
  assumes "accessedBox B n m M"
  shows "box_dim_min (box_lexmin B) 0 = Some m"
proof -
  from assms obtain bs where B: "B = Box bs" and l: "length bs = n" "0 < n"
    and b0: "bs ! 0 = (Some m, Some M)"
    by (auto simp: accessedBox_def)
  have "\<not> list_ex bounds_empty (map (\<lambda>b. (fst b, fst b)) bs)"
  proof
    assume "list_ex bounds_empty (map (\<lambda>b. (fst b, fst b)) bs)"
    then obtain b where b: "b \<in> set bs" "bounds_empty (fst b, fst b)"
      by (auto simp: list_ex_iff)
    from accessedBox_bounds [OF assms [unfolded B] b(1)] b(2) show False by auto
  qed
  then show ?thesis
    using accessedBox_lexmin [OF assms [unfolded B]] B l b0 by simp
qed

lemma accessedBox_subset_zero:
  assumes "accessedBox B n m M" "length zs = n" "\<forall>j<n. zs ! j = (Some 0, Some 0)"
  shows "box_subset (box_lexmin B) (Box zs) = (m = 0)"
proof -
  from assms(1) obtain bs where B: "B = Box bs" and l: "length bs = n" "0 < n"
    and b0: "bs ! 0 = (Some m, Some M)"
    and bj: "\<And>j. 0 < j \<Longrightarrow> j < n \<Longrightarrow> \<exists>v. bs ! j = (Some 0, Some v) \<and> 0 \<le> v"
    by (auto simp: accessedBox_def)
  let ?as = "map (\<lambda>b. (fst b, fst b)) bs"
  have ne: "\<not> list_ex bounds_empty ?as"
  proof
    assume "list_ex bounds_empty ?as"
    then obtain b where b: "b \<in> set bs" "bounds_empty (fst b, fst b)"
      by (auto simp: list_ex_iff)
    from accessedBox_bounds [OF assms(1) [unfolded B] b(1)] b(2) show False by auto
  qed
  have step: "(lower_le (fst (zs ! j)) (fst (?as ! j)) \<and> upper_le (snd (?as ! j)) (snd (zs ! j))) =
               (j = 0 \<longrightarrow> m = 0)" if "j < n" for j
  proof (cases "j = 0")
    case True
    with that l b0 assms(3) show ?thesis by auto
  next
    case False
    with bj [of j] that obtain v where "bs ! j = (Some 0, Some v)" by auto
    with False that l assms(3) show ?thesis by simp
  qed
  have "list_all2 (\<lambda>a b. lower_le (fst b) (fst a) \<and> upper_le (snd a) (snd b)) ?as zs =
          (\<forall>j<n. j = 0 \<longrightarrow> m = 0)"
    using l assms(2) step by (simp add: list_all2_conv_all_nth)
  also have "\<dots> = (m = 0)" using l by auto
  finally show ?thesis
    using accessedBox_lexmin [OF assms(1) [unfolded B]] B ne by simp
qed


lemma min_list_opt_None [simp]: "(min_list_opt xs = None) = (xs = [])"
  by (cases xs) simp_all

lemma max_list_opt_None [simp]: "(max_list_opt xs = None) = (xs = [])"
  by (cases xs) simp_all

text \<open>
  The bound and the offset of an accessed array. \<open>sizesFit\<close> says that, where the
  array is accessed, its inner sizes are known and positive and the indices accessed in
  dimension 0 stay below a declared outermost size.
\<close>

lemma createArray_accessed:
  fixes U :: "'p isl_union_set" and A :: "'p ScopArrayInfo"
  defines "sizes \<equiv> DimensionSizesPw A"
    and "pts \<equiv> isl_union_set_extract_set U (BasePtrId A)"
  assumes nonscalar: "0 < getNumberOfDimensions A"
    and acc: "pts p \<noteq> []"
    and fit: "\<forall>q M. points_dim_max pts 0 q = Some M \<longrightarrow> sizesFit sizes M q"
  shows "\<exists>G. createArray U A = Inr G \<and>
           (\<exists>b. bound G ! 0 = Some b \<and>
                (\<forall>q M. points_dim_max pts 0 q = Some M \<longrightarrow> b q = Some (M + 1))) \<and>
           (\<exists>off. getArrayOffset G = Inr off \<and>
                (off = None) = (\<forall>q. pts q = [] \<or> points_dim_min pts 0 q = Some 0) \<and>
                (getNumberOfDimensions A = 1 \<longrightarrow> off \<noteq> None \<longrightarrow>
                   off = Some (points_dim_min pts 0)))"
proof -
  define n where "n = getNumberOfDimensions A"
  have n: "0 < n" "n = length sizes"
    using nonscalar by (simp_all add: n_def sizes_def getNumberOfDimensions_def)
  have U: "\<not> isl_union_set_is_empty U"
    using acc unfolding pts_def by (rule extract_nonempty)
  from acc obtain Mp where Mp: "points_dim_max pts 0 p = Some Mp"
    by (cases "points_dim_max pts 0 p") (simp_all add: points_dim_max_def)
  with fit have fitp: "sizesFit sizes Mp p" by blast
  have inner: "list_all (\<lambda>i. sizes ! i \<noteq> None) [1..<n]"
    using sizesFit_nonnull [OF fitp] n by simp
  from getExtent_at [OF nonscalar U inner [unfolded n_def sizes_def]]
  obtain E where ret: "getExtent U A = Inr E"
    and empty: "\<And>q. pts q = [] \<Longrightarrow> E q = Empty"
    and box: "\<And>q m M. points_dim_min pts 0 q = Some m \<Longrightarrow> points_dim_max pts 0 q = Some M \<Longrightarrow>
              (\<forall>i<n. \<forall>f. sizes ! i = Some f \<longrightarrow> f q \<noteq> None) \<Longrightarrow>
              (\<exists>bs. E q = Box bs \<and> length bs = n \<and>
                 bs ! 0 = sizeBound (sizes ! 0) q (Some m, Some M) \<and>
                 (\<forall>j. 0 < j \<longrightarrow> j < n \<longrightarrow> bs ! j = sizeBound (sizes ! j) q (Some 0, None)))"
    unfolding n_def sizes_def pts_def by blast
  have good: "accessedBox (E q) n m M"
    if m: "points_dim_min pts 0 q = Some m" and M: "points_dim_max pts 0 q = Some M" for q m M
  proof -
    from fit M have f: "sizesFit sizes M q" by blast
    have known: "\<forall>i<n. \<forall>f. sizes ! i = Some f \<longrightarrow> f q \<noteq> None"
      using sizesFit_known [OF f] n by auto
    from box [OF m M known] obtain bs where bs: "E q = Box bs" "length bs = n"
      "bs ! 0 = sizeBound (sizes ! 0) q (Some m, Some M)"
      "\<And>j. 0 < j \<Longrightarrow> j < n \<Longrightarrow> bs ! j = sizeBound (sizes ! j) q (Some 0, None)"
      by blast
    have "m \<le> M"
      using m M by (auto simp: points_dim_min_def points_dim_max_def intro: min_le_max_list)
    moreover have "\<exists>v. bs ! j = (Some 0, Some v) \<and> 0 \<le> v" if "0 < j" "j < n" for j
      using sizesFit_inner [OF f, of j] bs(4) [OF that] that n by simp
    ultimately show ?thesis
      using bs(1,2,3) n sizesFit_outer [OF f] by (auto simp: accessedBox_def)
  qed
  have cases_q: "pts q = [] \<or> (\<exists>m M. points_dim_min pts 0 q = Some m \<and>
      points_dim_max pts 0 q = Some M)" for q
    by (cases "pts q") (simp_all add: points_dim_min_def points_dim_max_def)
  from acc cases_q [of p] obtain mp where mp: "points_dim_min pts 0 p = Some mp" by auto
  have notempty: "\<not> isl_set_is_empty E"
  proof
    assume "isl_set_is_empty E"
    then have "box_is_empty (E p)" by (simp add: isl_set_is_empty_def)
    with good [OF mp Mp] show False
      using accessedBox_nonempty by (auto simp: accessedBox_def)
  qed
  define Bound where "Bound = isl_set_dim_max (isl_set_project_out E 1 (n - 1)) 0"
  define b where "b = isl_ast_expr_add Bound (\<lambda>p. case Bound p of None \<Rightarrow> None | Some b \<Rightarrow> Some 1)"
  define G where "G =
     \<lparr>array_name = BasePtrId A,
      size_in_bytes = getPrimitiveSizeInBits (ElementType A) div 8,
      n_index = n, extent = E,
      bound = Some b # map (\<lambda>i. sizes ! i) [1..<n],
      read_only_scalar = (ReadOnly A \<and> n = 0), user = A\<rparr>"
  have G: "createArray U A = Inr G"
    using ret n(1) notempty
    by (simp add: createArray_def setArrayBounds_def Let_def G_def b_def Bound_def
        n_def [symmetric] sizes_def [symmetric])
  have bnd: "b q = Some (M + 1)" if M: "points_dim_max pts 0 q = Some M" for q M
  proof -
    from M cases_q [of q] obtain m where m: "points_dim_min pts 0 q = Some m"
      by (auto simp: points_dim_max_def)
    have "Bound q = Some M"
      using accessedBox_dim_max [OF good [OF m M]]
      by (simp add: Bound_def isl_set_dim_max_def isl_set_project_out_def)
    then show ?thesis by (simp add: b_def isl_ast_expr_add_def)
  qed
  define MinSet where "MinSet = isl_set_lexmin E"
  define ZeroSet where
    "ZeroSet = fold (\<lambda>i Z. isl_set_fix_si Z i 0) [0..<n] (isl_set_universe n :: 'p isl_set)"
  have sub: "isl_set_is_subset MinSet ZeroSet =
               (\<forall>q. pts q = [] \<or> points_dim_min pts 0 q = Some 0)"
  proof -
    have "box_subset (MinSet q) (ZeroSet q) = (pts q = [] \<or> points_dim_min pts 0 q = Some 0)"
      for q
    proof (cases "pts q = []")
      case True
      then show ?thesis by (simp add: MinSet_def isl_set_lexmin_def empty)
    next
      case False
      with cases_q [of q] obtain m M where mM: "points_dim_min pts 0 q = Some m"
        "points_dim_max pts 0 q = Some M" by auto
      from ZeroSet_at [of n q] obtain zs where zs: "ZeroSet q = Box zs" "length zs = n"
        "\<forall>j<n. zs ! j = (Some 0, Some 0)" unfolding ZeroSet_def by blast
      show ?thesis
        using accessedBox_subset_zero [OF good [OF mM] zs(2,3)] zs(1) mM False
        by (simp add: MinSet_def isl_set_lexmin_def)
    qed
    then show ?thesis by (simp add: isl_set_is_subset_def)
  qed
  have tot: "\<exists>R. offsetTerms MinSet (bound G) [0..<n] (isl_ast_expr_from_val 0) = Inr R"
  proof (rule offsetTerms_total)
    have "bound G ! (i - 1) \<noteq> None" if "i < n" "i \<noteq> 0" for i
    proof (cases "i - 1")
      case 0
      then show ?thesis by (simp add: G_def)
    next
      case (Suc k)
      with that have k: "Suc k < n" "Suc k \<in> set [1..<n]" by auto
      with inner have "sizes ! Suc k \<noteq> None" unfolding list_all_iff by blast
      with Suc k show ?thesis by (simp add: G_def)
    qed
    then show "list_all (\<lambda>i. i = 0 \<or> bound G ! (i - 1) \<noteq> None) [0..<n]"
      unfolding list_all_iff by (metis atLeastLessThan_iff set_upt)
  qed
  then obtain R where R: "offsetTerms MinSet (bound G) [0..<n] (isl_ast_expr_from_val 0) = Inr R"
    by blast
  define off where "off = (if isl_set_is_subset MinSet ZeroSet then None else Some R)"
  have off: "getArrayOffset G = Inr off"
    using n(1) R
    by (simp add: getArrayOffset_def gpu_array_is_scalar_def Let_def off_def
        MinSet_def ZeroSet_def G_def)
  have one: "off = Some (points_dim_min pts 0)" if "n = 1" "off \<noteq> None"
  proof -
    have "R = isl_ast_expr_add (isl_ast_expr_from_val 0) (isl_set_dim_min MinSet 0)"
      using R that(1) by simp
    moreover have "isl_ast_expr_add (isl_ast_expr_from_val 0) (isl_set_dim_min MinSet 0) q =
        points_dim_min pts 0 q" for q
    proof (cases "pts q = []")
      case True
      then show ?thesis
        by (simp add: isl_ast_expr_add_def isl_ast_expr_from_val_def isl_set_dim_min_def
            MinSet_def isl_set_lexmin_def empty points_dim_min_def)
    next
      case False
      with cases_q [of q] obtain m M where mM: "points_dim_min pts 0 q = Some m"
        "points_dim_max pts 0 q = Some M" by auto
      show ?thesis
        using accessedBox_lexmin_min [OF good [OF mM]] mM
        by (simp add: isl_ast_expr_add_def isl_ast_expr_from_val_def isl_set_dim_min_def
            MinSet_def isl_set_lexmin_def)
    qed
    ultimately have "R = points_dim_min pts 0" by (simp add: fun_eq_iff)
    with that(2) show ?thesis by (simp add: off_def split: if_splits)
  qed
  have b0: "bound G ! 0 = Some b" by (simp add: G_def)
  have offNone: "(off = None) = (\<forall>q. pts q = [] \<or> points_dim_min pts 0 q = Some 0)"
    using sub by (simp add: off_def)
  show ?thesis
    using G b0 bnd off offNone one unfolding n_def by blast
qed


text \<open>
  C2 (as amended). For an array of one or more dimensions that is accessed, the bound
  of dimension 0 is the largest index accessed in that dimension plus one: the smallest
  index is not subtracted. The offset is the null value exactly when, at every
  valuation of the parameters, the array is not accessed or the smallest index of
  dimension 0 is zero. For an array of one dimension an offset that is not null is the
  symbolic minimum.
\<close>

theorem createArray_bound_offset:
  assumes "0 < getNumberOfDimensions A"
    and "isl_union_set_extract_set U (BasePtrId A) p \<noteq> []"
    and "\<forall>q M. points_dim_max (isl_union_set_extract_set U (BasePtrId A)) 0 q = Some M \<longrightarrow>
           sizesFit (DimensionSizesPw A) M q"
  shows "\<exists>G. createArray U A = Inr G \<and>
           (\<exists>b. bound G ! 0 = Some b \<and>
                (\<forall>q M. points_dim_max (isl_union_set_extract_set U (BasePtrId A)) 0 q = Some M \<longrightarrow>
                   b q = Some (M + 1))) \<and>
           (\<exists>off. getArrayOffset G = Inr off \<and>
                (off = None) =
                  (\<forall>q. isl_union_set_extract_set U (BasePtrId A) q = [] \<or>
                       points_dim_min (isl_union_set_extract_set U (BasePtrId A)) 0 q = Some 0) \<and>
                (getNumberOfDimensions A = 1 \<longrightarrow> off \<noteq> None \<longrightarrow>
                   off = Some (points_dim_min (isl_union_set_extract_set U (BasePtrId A)) 0)))"
  using assms by (rule createArray_accessed)

text \<open>The array \<open>A\<close> of the region above: \<open>A[i + 42]\<close> for \<open>0 \<le> i \<le> 57\<close>.\<close>

definition extA :: "unit isl_point_set" where
  "extA = isl_union_set_extract_set extAccesses (BasePtrId (extArray ''A'' [None]))"

lemma extA_min_max:
  "points_dim_min extA 0 () = Some 42" "points_dim_max extA 0 () = Some 99" "extA () \<noteq> []"
  by (code_simp, code_simp, code_simp)

lemma extA_fit: "sizesFit (DimensionSizesPw (extArray ''A'' [None])) M q"
  by (simp add: sizesFit_def extArray_def)

lemma extA_dims: "getNumberOfDimensions (extArray ''A'' [None]) = 1"
  by (simp add: getNumberOfDimensions_def extArray_def)

theorem createArray_bound_offset_witness:
  "0 < getNumberOfDimensions (extArray ''A'' [None]) \<and> extA () \<noteq> [] \<and>
   points_dim_min extA 0 () = Some 42 \<and> points_dim_max extA 0 () = Some 99 \<and>
   (\<exists>G. createArray extAccesses (extArray ''A'' [None]) = Inr G \<and>
      (\<exists>b. bound G ! 0 = Some b \<and> b () = Some 100) \<and>
      getArrayOffset G = Inr (Some (points_dim_min extA 0)))"
proof -
  have fit: "\<forall>q M. points_dim_max (isl_union_set_extract_set extAccesses
                 (BasePtrId (extArray ''A'' [None]))) 0 q = Some M \<longrightarrow>
               sizesFit (DimensionSizesPw (extArray ''A'' [None])) M q"
    using extA_fit by blast
  have d: "0 < getNumberOfDimensions (extArray ''A'' [None])" by (simp add: extA_dims)
  from createArray_bound_offset [OF d extA_min_max(3) [unfolded extA_def] fit]
  obtain G b off where G: "createArray extAccesses (extArray ''A'' [None]) = Inr G"
    and b: "bound G ! 0 = Some b" "\<And>q M. points_dim_max extA 0 q = Some M \<Longrightarrow> b q = Some (M + 1)"
    and off: "getArrayOffset G = Inr off"
      "(off = None) = (\<forall>q. extA q = [] \<or> points_dim_min extA 0 q = Some 0)"
      "off \<noteq> None \<Longrightarrow> off = Some (points_dim_min extA 0)"
    unfolding extA_def [symmetric] using extA_dims by blast
  have "b () = Some 100" using b(2) [OF extA_min_max(2)] by simp
  moreover have "off \<noteq> None" using off(2) extA_min_max(1,3) by auto
  ultimately show ?thesis using G b(1) off(1,3) d extA_min_max by auto
qed

text \<open>
  C2 as stated fails on the bound: for \<open>A[i + 42]\<close>, \<open>0 \<le> i \<le> 57\<close>, the indices
  run from 42 to 99 and the bound is 100, not \<open>99 - 42 + 1 = 58\<close>.
\<close>

theorem createArray_bound_counterexample:
  "\<exists>G b. createArray extAccesses (extArray ''A'' [None]) = Inr G \<and>
      points_dim_min extA 0 () = Some 42 \<and> points_dim_max extA 0 () = Some 99 \<and>
      bound G ! 0 = Some b \<and> b () = Some 100 \<and> b () \<noteq> Some (99 - 42 + 1)"
proof -
  have fit: "\<forall>q M. points_dim_max (isl_union_set_extract_set extAccesses
                 (BasePtrId (extArray ''A'' [None]))) 0 q = Some M \<longrightarrow>
               sizesFit (DimensionSizesPw (extArray ''A'' [None])) M q"
    using extA_fit by blast
  have d: "0 < getNumberOfDimensions (extArray ''A'' [None])" by (simp add: extA_dims)
  from createArray_accessed [OF d extA_min_max(3) [unfolded extA_def] fit]
  obtain G b where G: "createArray extAccesses (extArray ''A'' [None]) = Inr G"
    and b: "bound G ! 0 = Some b" "\<And>q M. points_dim_max extA 0 q = Some M \<Longrightarrow> b q = Some (M + 1)"
    unfolding extA_def [symmetric] by blast
  have "b () = Some 100" using b(2) [OF extA_min_max(2)] by simp
  then show ?thesis using G b(1) extA_min_max by auto
qed

section \<open>The GPU node builder\<close>

subsection \<open>Kernels, statements and the annotated tree\<close>

datatype GPURuntime = CUDA | OpenCL

datatype GPUArch = NVPTX64 | SPIR32 | SPIR64

datatype ppcg_access_type = ppcg_access_global | ppcg_access_shared | ppcg_access_private

text \<open>\<^verbatim>\<open>ppcg_kernel_var\<close>: a kernel-local array, with the element type of its array.\<close>

record ppcg_kernel_var =
  var_name :: string
  var_type :: ppcg_access_type
  var_size :: "int list"
  var_elem :: Type

text \<open>
  \<^verbatim>\<open>ppcg_kernel\<close>. \<open>requires_array_argument i\<close> is
  \<^verbatim>\<open>ppcg_kernel_requires_array_argument(Kernel, i)\<close>; \<open>space_set_ids\<close> and
  \<open>space_param_ids\<close> are the ids of the set and parameter dimensions of
  \<^verbatim>\<open>Kernel->space\<close>: the host loop iterators around the kernel and its parameters.
  \<^verbatim>\<open>Kernel->n_array\<close> is the number of arrays of the program (ppcg allocates
  \<^verbatim>\<open>kernel->array\<close> with \<^verbatim>\<open>prog->n_array\<close> entries), and \<^verbatim>\<open>Kernel->tree\<close> is
  kept beside the kernel in the annotation of its node.
\<close>

record 'p ppcg_kernel =
  kernel_id :: nat
  n_grid :: nat
  grid_size :: "'p isl_pw_aff list"
  n_block :: nat
  block_dim :: "int list"
  requires_array_argument :: "nat \<Rightarrow> bool"
  space_set_ids :: "string list"
  space_param_ids :: "string list"
  block_ids :: "string list"
  thread_ids :: "string list"
  kernel_var :: "ppcg_kernel_var list"

text \<open>
  A statement of the region: a block or a region of blocks. \<open>References\<close> are the
  values \<^verbatim>\<open>addReferencesFromStmt\<close> records for it and \<open>SCEVValues\<close> the values
  \<^verbatim>\<open>findValues\<close> finds in the expressions it records (both are functions of other
  files; the closure takes their results as they are).
\<close>

datatype StmtBody = BlockStmt BasicBlock | RegionStmt "BasicBlock list"

record ScopStmt =
  StmtName :: string
  Body :: StmtBody
  References :: "Value list"
  SCEVValues :: "Value list"

datatype ppcg_kernel_stmt =
    ppcg_kernel_domain ScopStmt
  | ppcg_kernel_copy bool
  | ppcg_kernel_sync

text \<open>
  The annotated tree. A user node has the name of the id of its expression, the array
  that id points to (for a transfer), and its annotation: a kernel with its tree, or a
  kernel statement. A loop node has the id of its iterator.
\<close>

datatype 'p annotation =
    Anno_kernel "'p ppcg_kernel" "'p isl_ast_node option"
  | Anno_kernel_stmt ppcg_kernel_stmt
and 'p isl_ast_node =
    Node_user string "nat option" "'p annotation option"
  | Node_block "'p isl_ast_node list"
  | Node_for string "'p isl_ast_node"
  | Node_if "'p isl_ast_node" "'p isl_ast_node option"

subsection \<open>The state of the builder and the code it emits\<close>

text \<open>Where the IR builder inserts: in a block of the host function or in a kernel.\<close>

datatype InsertPoint = HostPoint string | KernelPoint string

text \<open>
  One slot of the launch parameter block: a pointer to the host storage of a read-only
  scalar, to a cell holding the device pointer of an array, to a cell holding a value,
  or to a cell holding the size of an argument.
\<close>

datatype ParamSlot =
    Slot_scalar string
  | Slot_array string
  | Slot_value Value
  | Slot_size nat

text \<open>
  What the builder emits: the calls into the host runtime, and the instructions of a
  kernel this file creates itself. A call keeps the array or kernel it is for and, for
  memory calls, the size expression.
\<close>

datatype 'p Emitted =
    polly_initContext GPURuntime
  | polly_freeContext
  | polly_allocateMemoryForDevice string "'p isl_ast_expr"
  | polly_freeDeviceMemory string
  | polly_copyFromHostToDevice string "'p isl_ast_expr"
  | polly_copyFromDeviceToHost string "'p isl_ast_expr"
  | polly_synchronizeDevice
  | polly_getDevicePtr string
  | polly_getKernel string
  | polly_launchKernel string "'p isl_ast_expr list" "int list" "ParamSlot option list"
  | polly_freeKernel string
  | nvvm_barrier0
  | SharedRead
  | SharedWrite
  | CopyStmt string
  | LoadArgument string
  | InitScalar string
  | StoreArgument string

record KernelFunction =
  FnName :: string
  FnArgTypes :: "Type list"
  FnArgNames :: "string list"

text \<open>
  The members of \<^verbatim>\<open>GPUNodeBuilder\<close> (and of its base class) this file changes.
  \<open>IDToValue\<close> and \<open>DeviceAllocations\<close> are iterated, so they are association lists in
  insertion order; \<open>ScalarMap\<close> is keyed by the id of the array.
\<close>

record 'p GPUNodeBuilder =
  BuildSuccessful :: bool
  DeepestSequential :: nat
  DeepestParallel :: nat
  IDToValue :: "(string \<times> Value) list"
  ValueMap :: "Value \<rightharpoonup> Value"
  ScalarMap :: "string \<rightharpoonup> Value"
  EscapeMap :: "Value list"
  IDToSAI :: "string list"
  DeviceAllocations :: "(string \<times> Value) list"
  LocalArrays :: "Value list"
  KernelIds :: "string list"
  GPUModule :: "KernelFunction option"
  InsertPoint :: InsertPoint
  Code :: "(InsertPoint \<times> 'p Emitted) list"

text \<open>
  What a run of the builder is given: the options, the target, the program of ppcg, the
  arrays, parameters and statements of the region, the values \<^verbatim>\<open>addParameters\<close>
  binds to the parameters of the context, and the answer of LLVM's module verifier for
  the kernel of a given name (\<open>True\<close>: the module is broken).
\<close>

record 'p Env =
  ManagedMemory :: bool
  FailOnVerifyModuleFailure :: bool
  Runtime :: GPURuntime
  Arch :: GPUArch
  ProgArrays :: "'p gpu_array_info list"
  ScopArrays :: "'p ScopArrayInfo list"
  ScopParams :: "string list"
  ScopStmts :: "ScopStmt list"
  ScopFunction :: string
  ParamValues :: "(string \<times> Value) list"
  verifyModule :: "string \<Rightarrow> bool"

definition emit :: "'p Emitted \<Rightarrow> 'p GPUNodeBuilder \<Rightarrow> 'p GPUNodeBuilder" where
  "emit I s = s\<lparr>Code := Code s @ [(InsertPoint s, I)]\<rparr>"

text \<open>\<^verbatim>\<open>getKernelFuncName\<close> (line 695).\<close>

fun digits :: "nat \<Rightarrow> nat \<Rightarrow> string" where
  "digits 0 n = []"
| "digits (Suc fuel) n =
     (if n < 10 then [char_of (48 + n)] else digits fuel (n div 10) @ [char_of (48 + n mod 10)])"

definition to_string :: "nat \<Rightarrow> string" where
  "to_string n = digits (Suc n) n"

definition getKernelFuncName :: "'p Env \<Rightarrow> nat \<Rightarrow> string" where
  "getKernelFuncName env Kernel_id = ''FUNC_'' @ ScopFunction env @ ''_KERNEL_'' @ to_string Kernel_id"

text \<open>
  The calls into the runtime (lines 773-994). Those for device memory assert that the
  managed-memory mode is off, the synchronisation that it is on.
\<close>

definition createCallAllocateMemoryForDevice ::
    "'p Env \<Rightarrow> string \<Rightarrow> 'p isl_ast_expr \<Rightarrow> 'p GPUNodeBuilder \<Rightarrow> error + 'p GPUNodeBuilder" where
  "createCallAllocateMemoryForDevice env Array Size s =
     (if ManagedMemory env then
        Inl (AssertionFailed ''Managed memory does not allocate or free memory for device'')
      else Inr (emit (polly_allocateMemoryForDevice Array Size) s))"

definition createCallFreeDeviceMemory ::
    "'p Env \<Rightarrow> string \<Rightarrow> 'p GPUNodeBuilder \<Rightarrow> error + 'p GPUNodeBuilder" where
  "createCallFreeDeviceMemory env Array s =
     (if ManagedMemory env then
        Inl (AssertionFailed ''Managed memory does not allocate or free memory for device'')
      else Inr (emit (polly_freeDeviceMemory Array) s))"

definition createCallCopyFromHostToDevice ::
    "'p Env \<Rightarrow> string \<Rightarrow> 'p isl_ast_expr \<Rightarrow> 'p GPUNodeBuilder \<Rightarrow> error + 'p GPUNodeBuilder" where
  "createCallCopyFromHostToDevice env Array Size s =
     (if ManagedMemory env then
        Inl (AssertionFailed ''Managed memory does not transfer memory between device and host'')
      else Inr (emit (polly_copyFromHostToDevice Array Size) s))"

definition createCallCopyFromDeviceToHost ::
    "'p Env \<Rightarrow> string \<Rightarrow> 'p isl_ast_expr \<Rightarrow> 'p GPUNodeBuilder \<Rightarrow> error + 'p GPUNodeBuilder" where
  "createCallCopyFromDeviceToHost env Array Size s =
     (if ManagedMemory env then
        Inl (AssertionFailed ''Managed memory does not transfer memory between device and host'')
      else Inr (emit (polly_copyFromDeviceToHost Array Size) s))"

definition createCallSynchronizeDevice ::
    "'p Env \<Rightarrow> 'p GPUNodeBuilder \<Rightarrow> error + 'p GPUNodeBuilder" where
  "createCallSynchronizeDevice env s =
     (if \<not> ManagedMemory env then
        Inl (AssertionFailed ''explicit synchronization is only necessary for managed memory'')
      else Inr (emit polly_synchronizeDevice s))"

definition createCallInitContext :: "'p Env \<Rightarrow> 'p GPUNodeBuilder \<Rightarrow> 'p GPUNodeBuilder" where
  "createCallInitContext env s = emit (polly_initContext (Runtime env)) s"

definition createCallFreeContext :: "'p GPUNodeBuilder \<Rightarrow> 'p GPUNodeBuilder" where
  "createCallFreeContext s = emit polly_freeContext s"

definition createCallGetDevicePtr :: "string \<Rightarrow> 'p GPUNodeBuilder \<Rightarrow> 'p GPUNodeBuilder" where
  "createCallGetDevicePtr Array s = emit (polly_getDevicePtr Array) s"

definition createCallGetKernel :: "string \<Rightarrow> 'p GPUNodeBuilder \<Rightarrow> 'p GPUNodeBuilder" where
  "createCallGetKernel Entry s = emit (polly_getKernel Entry) s"

definition createCallLaunchKernel ::
    "string \<Rightarrow> 'p isl_ast_expr list \<Rightarrow> int list \<Rightarrow> ParamSlot option list \<Rightarrow>
       'p GPUNodeBuilder \<Rightarrow> 'p GPUNodeBuilder" where
  "createCallLaunchKernel GPUKernel GridDims BlockDims Parameters s =
     emit (polly_launchKernel GPUKernel GridDims BlockDims Parameters) s"

definition createCallFreeKernel :: "string \<Rightarrow> 'p GPUNodeBuilder \<Rightarrow> 'p GPUNodeBuilder" where
  "createCallFreeKernel GPUKernel s = emit (polly_freeKernel GPUKernel) s"

subsection \<open>Helpers\<close>

text \<open>\<^verbatim>\<open>isPrefix\<close> (line 1000): \<^verbatim>\<open>String.find(Prefix) == 0\<close>.\<close>

definition isPrefix :: "string \<Rightarrow> string \<Rightarrow> bool" where
  "isPrefix String Prefix = prefix Prefix String"

text \<open>\<^verbatim>\<open>llvm::SetVector\<close>: a list without repetition, in insertion order.\<close>

definition SetVector_insert :: "'a list \<Rightarrow> 'a \<Rightarrow> 'a list" where
  "SetVector_insert V x = (if x \<in> set V then V else V @ [x])"

definition SetVector_remove :: "'a list \<Rightarrow> 'a \<Rightarrow> 'a list" where
  "SetVector_remove V x = removeAll x V"

text \<open>
  \<^verbatim>\<open>IDToValue[Id]\<close> where the value is dereferenced next: on a missing id the map
  gives a null pointer.
\<close>

definition lookupID :: "'p GPUNodeBuilder \<Rightarrow> string \<Rightarrow> error + Value" where
  "lookupID s ID =
     (case map_of (IDToValue s) ID of
        None \<Rightarrow> Inl (NullDereference (''IDToValue['' @ ID @ '']''))
      | Some v \<Rightarrow> Inr v)"

text \<open>
  \<^verbatim>\<open>BlockGenerator::getOrCreateAlloca\<close> belongs to another file of the repository. This
  file uses it as its name says: the storage \<open>ScalarMap\<close> binds to the scalar, created
  in the function being built and bound when there is none. \<open>ScalarMap\<close> is of type
  \<^verbatim>\<open>BlockGenerator::AllocaMapTy\<close>, and \<^verbatim>\<open>createKernel\<close> clears it before the kernel is
  built so that the kernel gets storage of its own.
\<close>

definition getOrCreateAlloca ::
    "('p, 'x) ScopArrayInfo_scheme \<Rightarrow> 'p GPUNodeBuilder \<Rightarrow> Value \<times> 'p GPUNodeBuilder" where
  "getOrCreateAlloca Array s =
     (case ScalarMap s (BasePtrId Array) of
        Some Addr \<Rightarrow> (Addr, s)
      | None \<Rightarrow>
          (let n = getName (BasePtr Array) @ (if isPHIKind Array then ''.phiops'' else ''.s2a'');
               t = PointerTy (ElementType Array) 0;
               Addr = (case InsertPoint s of
                         HostPoint b \<Rightarrow> Val n t
                       | KernelPoint fn \<Rightarrow> KernelValue fn n t)
           in (Addr, s\<lparr>ScalarMap := (ScalarMap s)(BasePtrId Array \<mapsto> Addr)\<rparr>)))"

text \<open>The indices of the arrays a kernel takes as arguments, in order.\<close>

definition requiredArrays :: "'p Env \<Rightarrow> 'p ppcg_kernel \<Rightarrow> nat list" where
  "requiredArrays env Kernel =
     filter (requires_array_argument Kernel) [0..<length (ProgArrays env)]"

subsection \<open>The closure of a kernel\<close>

text \<open>\<^verbatim>\<open>isValidFunctionInKernel\<close> (line 1289).\<close>

fun isValidFunctionInKernel :: "Function option \<Rightarrow> error + bool" where
  "isValidFunctionInKernel None = Inl (AssertionFailed ''F is an invalid pointer'')"
| "isValidFunctionInKernel (Some F) = Inr (isIntrinsic F \<and> prefix ''llvm.sqrt'' (FunctionName F))"

text \<open>\<^verbatim>\<open>isValidSubtreeValue\<close> (line 1302).\<close>

definition isValidSubtreeValue :: "Value \<Rightarrow> bool" where
  "isValidSubtreeValue V = (dyn_cast_Function V = None)"

text \<open>\<^verbatim>\<open>getFunctionsFromRawSubtreeValues\<close> (line 1305).\<close>

fun functionsFrom :: "Value list \<Rightarrow> Function list \<Rightarrow> error + Function list" where
  "functionsFrom [] SubtreeFunctions = Inr SubtreeFunctions"
| "functionsFrom (It # rest) SubtreeFunctions =
     (case dyn_cast_Function It of
        None \<Rightarrow> functionsFrom rest SubtreeFunctions
      | Some F \<Rightarrow>
          (case isValidFunctionInKernel (Some F) of
             Inl e \<Rightarrow> Inl e
           | Inr ok \<Rightarrow>
               (if \<not> ok then
                  Inl (AssertionFailed ''Code should have bailed out by this point if an invalid function were present in a kernel.'')
                else functionsFrom rest (SetVector_insert SubtreeFunctions F))))"

definition getFunctionsFromRawSubtreeValues :: "Value list \<Rightarrow> error + Function list" where
  "getFunctionsFromRawSubtreeValues RawSubtreeValues = functionsFrom RawSubtreeValues []"

text \<open>
  What the walk over the kernel's tree collects: the values referenced, and the values
  of the expressions referenced (added after the walk).
\<close>

record SubtreeReferences =
  Values :: "Value list"
  SCEVs :: "Value list"

definition addReferencesFromStmt :: "ScopStmt \<Rightarrow> SubtreeReferences \<Rightarrow> SubtreeReferences" where
  "addReferencesFromStmt Stmt Refs =
     \<lparr>Values = fold (\<lambda>v V. SetVector_insert V v) (References Stmt) (Values Refs),
      SCEVs = SCEVs Refs @ SCEVValues Stmt\<rparr>"

text \<open>
  \<^verbatim>\<open>collectReferencesInGPUStmt\<close> (line 1263) on one node. The annotation of a node named
  \<^verbatim>\<open>Stmt...\<close> is read as a kernel statement of a statement of the region.
\<close>

fun collectReferencesInGPUStmt ::
    "'p isl_ast_node \<Rightarrow> SubtreeReferences \<Rightarrow> error + SubtreeReferences" where
  "collectReferencesInGPUStmt (Node_user Str u Anno) Refs =
     (if \<not> isPrefix Str ''Stmt'' then Inr Refs
      else
        (case Anno of
           Some (Anno_kernel_stmt (ppcg_kernel_domain Stmt)) \<Rightarrow> Inr (addReferencesFromStmt Stmt Refs)
         | _ \<Rightarrow> Inl (NullDereference ''KernelStmt->u.d.stmt'')))"
| "collectReferencesInGPUStmt Node Refs = Inr Refs"

text \<open>\<^verbatim>\<open>isl_ast_node_foreach_descendant_top_down\<close>: a node, then its children.\<close>

fun foreach_descendant_top_down ::
    "'p isl_ast_node \<Rightarrow> SubtreeReferences \<Rightarrow> error + SubtreeReferences"
  and foreach_descendants ::
    "'p isl_ast_node list \<Rightarrow> SubtreeReferences \<Rightarrow> error + SubtreeReferences" where
  "foreach_descendant_top_down (Node_user Str u Anno) Refs =
     collectReferencesInGPUStmt (Node_user Str u Anno) Refs"
| "foreach_descendant_top_down (Node_block ns) Refs = foreach_descendants ns Refs"
| "foreach_descendant_top_down (Node_for it body) Refs = foreach_descendant_top_down body Refs"
| "foreach_descendant_top_down (Node_if t e) Refs =
     (case foreach_descendant_top_down t Refs of
        Inl x \<Rightarrow> Inl x
      | Inr Refs1 \<Rightarrow>
          (case e of None \<Rightarrow> Inr Refs1 | Some en \<Rightarrow> foreach_descendant_top_down en Refs1))"
| "foreach_descendants [] Refs = Inr Refs"
| "foreach_descendants (n # ns) Refs =
     (case foreach_descendant_top_down n Refs of
        Inl x \<Rightarrow> Inl x
      | Inr Refs1 \<Rightarrow> foreach_descendants ns Refs1)"

text \<open>
  The loops at lines 1341 and 1350: the value bound to each id is removed; the
  assertion fails on an id that is not bound.
\<close>

fun removeBoundValues ::
    "(string \<times> Value) list \<Rightarrow> string list \<Rightarrow> Value list \<Rightarrow> error + Value list" where
  "removeBoundValues IDs [] SubtreeValues = Inr SubtreeValues"
| "removeBoundValues IDs (ID # Ids) SubtreeValues =
     (case map_of IDs ID of
        None \<Rightarrow> Inl (AssertionFailed ''IDToValue.count(Id)'')
      | Some v \<Rightarrow> removeBoundValues IDs Ids (SetVector_remove SubtreeValues v))"

text \<open>
  The reference set of \<^verbatim>\<open>getReferencesInKernel\<close> before its partition (lines
  1322-1356).
\<close>

definition filteredReferences ::
    "'p Env \<Rightarrow> 'p ppcg_kernel \<Rightarrow> 'p isl_ast_node option \<Rightarrow> 'p GPUNodeBuilder \<Rightarrow>
       error + Value list" where
  "filteredReferences env Kernel tree s =
     (let SubtreeValues0 = fold (\<lambda>I V. SetVector_insert V (snd I)) (IDToValue s) [];
          References0 = \<lparr>Values = SubtreeValues0, SCEVs = []\<rparr>
      in case (case tree of None \<Rightarrow> Inr References0
                          | Some t \<Rightarrow> foreach_descendant_top_down t References0) of
           Inl e \<Rightarrow> Inl e
         | Inr Refs \<Rightarrow>
             (let SubtreeValues1 = fold (\<lambda>v V. SetVector_insert V v) (SCEVs Refs) (Values Refs);
                  SubtreeValues2 =
                    fold (\<lambda>SAI V. SetVector_remove V (BasePtr SAI)) (ScopArrays env) SubtreeValues1
              in case removeBoundValues (IDToValue s) (ScopParams env) SubtreeValues2 of
                   Inl e \<Rightarrow> Inl e
                 | Inr SubtreeValues3 \<Rightarrow>
                     removeBoundValues (IDToValue s) (space_set_ids Kernel) SubtreeValues3))"

text \<open>\<^verbatim>\<open>getReferencesInKernel\<close> (line 1320).\<close>

definition getReferencesInKernel ::
    "'p Env \<Rightarrow> 'p ppcg_kernel \<Rightarrow> 'p isl_ast_node option \<Rightarrow> 'p GPUNodeBuilder \<Rightarrow>
       error + (Value list \<times> Function list)" where
  "getReferencesInKernel env Kernel tree s =
     (case filteredReferences env Kernel tree s of
        Inl e \<Rightarrow> Inl e
      | Inr SubtreeValues \<Rightarrow>
          (let ValidSubtreeValues = filter isValidSubtreeValue SubtreeValues
           in case getFunctionsFromRawSubtreeValues SubtreeValues of
                Inl e \<Rightarrow> Inl e
              | Inr ValidSubtreeFunctions \<Rightarrow> Inr (ValidSubtreeValues, ValidSubtreeFunctions)))"

subsection \<open>The kernel function\<close>

text \<open>
  The type of the formal argument of the kernel for array \<open>i\<close> (line 1732): the element
  type for a read-only scalar, a pointer into global memory (address space 1) otherwise.
\<close>

definition arrayArgumentType :: "'p Env \<Rightarrow> nat \<Rightarrow> Type" where
  "arrayArgumentType env i =
     (if gpu_array_is_read_only_scalar (ProgArrays env ! i)
      then ElementType (user (ProgArrays env ! i))
      else PointerTy (IntegerTy 8) 1)"

text \<open>The types of the values bound to a list of ids (lines 1756-1763).\<close>

fun boundTypes :: "'p GPUNodeBuilder \<Rightarrow> string list \<Rightarrow> error + Type list" where
  "boundTypes s [] = Inr []"
| "boundTypes s (ID # Ids) =
     (case lookupID s ID of
        Inl e \<Rightarrow> Inl e
      | Inr v \<Rightarrow>
          (case boundTypes s Ids of
             Inl e \<Rightarrow> Inl e
           | Inr Ts \<Rightarrow> Inr (getType v # Ts)))"

text \<open>
  The loop at line 1807 for one array argument: its inner bounds are turned into
  values (a null bound cannot be), and the argument becomes a kernel-local array.
\<close>

definition declareArrayArgument ::
    "'p Env \<Rightarrow> string \<Rightarrow> nat \<Rightarrow> 'p GPUNodeBuilder \<Rightarrow> error + 'p GPUNodeBuilder" where
  "declareArrayArgument env fn i s =
     (let Array = ProgArrays env ! i;
          Arg = KernelValue fn (array_name Array) (arrayArgumentType env i)
      in if \<not> list_all (\<lambda>j. bound Array ! j \<noteq> None) [1..<n_index Array] then
           Inl (NullDereference ''Kernel->array[i].array->bound[j]'')
         else
           Inr (s\<lparr>LocalArrays := LocalArrays s @ [Arg],
                  KernelIds := KernelIds s @ [array_name Array],
                  IDToSAI := IDToSAI s @ [array_name Array]\<rparr>))"

fun declareArrayArguments ::
    "'p Env \<Rightarrow> string \<Rightarrow> nat list \<Rightarrow> 'p GPUNodeBuilder \<Rightarrow> error + 'p GPUNodeBuilder" where
  "declareArrayArguments env fn [] s = Inr s"
| "declareArrayArguments env fn (i # js) s =
     (case declareArrayArgument env fn i s of
        Inl e \<Rightarrow> Inl e
      | Inr s1 \<Rightarrow> declareArrayArguments env fn js s1)"

text \<open>The loop at line 1837: a host iterator is bound to its argument.\<close>

definition bindHostIterator :: "string \<Rightarrow> string \<Rightarrow> 'p GPUNodeBuilder \<Rightarrow> 'p GPUNodeBuilder" where
  "bindHostIterator fn ID s =
     s\<lparr>IDToValue := AList.update ID (KernelValue fn ID (IntegerTy 64)) (IDToValue s)\<rparr>"

text \<open>
  The loop at line 1845: the value of a parameter is mapped to its argument, and the
  parameter is bound to the argument.
\<close>

definition bindParameter :: "string \<Rightarrow> string \<Rightarrow> 'p GPUNodeBuilder \<Rightarrow> error + 'p GPUNodeBuilder" where
  "bindParameter fn ID s =
     (case lookupID s ID of
        Inl e \<Rightarrow> Inl e
      | Inr v \<Rightarrow>
          (let Arg = KernelValue fn ID (getType v)
           in Inr (s\<lparr>ValueMap := (ValueMap s)(v \<mapsto> Arg),
                     IDToValue := AList.update ID Arg (IDToValue s)\<rparr>)))"

fun bindParameters :: "string \<Rightarrow> string list \<Rightarrow> 'p GPUNodeBuilder \<Rightarrow> error + 'p GPUNodeBuilder" where
  "bindParameters fn [] s = Inr s"
| "bindParameters fn (ID # Ids) s =
     (case bindParameter fn ID s of
        Inl e \<Rightarrow> Inl e
      | Inr s1 \<Rightarrow> bindParameters fn Ids s1)"

text \<open>The loop at line 1855: a value of the closure is mapped to its argument.\<close>

definition mapSubtreeValue :: "string \<Rightarrow> Value \<Rightarrow> 'p GPUNodeBuilder \<Rightarrow> 'p GPUNodeBuilder" where
  "mapSubtreeValue fn V s =
     s\<lparr>ValueMap := (ValueMap s)(V \<mapsto> KernelValue fn (getName V) (getType V))\<rparr>"

text \<open>
  \<^verbatim>\<open>createKernelFunctionDecl\<close> (line 1720): the formal arguments for the required
  arrays, the host iterators, the parameters and the values of the closure, in this
  order, and the bindings of the ids and values to them.
\<close>

definition createKernelFunctionDecl ::
    "'p Env \<Rightarrow> 'p ppcg_kernel \<Rightarrow> Value list \<Rightarrow> 'p GPUNodeBuilder \<Rightarrow>
       error + (KernelFunction \<times> 'p GPUNodeBuilder)" where
  "createKernelFunctionDecl env Kernel SubtreeValues s =
     (let Identifier = getKernelFuncName env (kernel_id Kernel);
          Arrays = requiredArrays env Kernel;
          NumHostIters = length (space_set_ids Kernel)
      in case boundTypes s (space_param_ids Kernel) of
           Inl e \<Rightarrow> Inl e
         | Inr VarTypes \<Rightarrow>
             (let Args = map (arrayArgumentType env) Arrays
                         @ replicate NumHostIters (IntegerTy 64)
                         @ VarTypes
                         @ map getType SubtreeValues;
                  Names = map (\<lambda>i. array_name (ProgArrays env ! i)) Arrays
                          @ space_set_ids Kernel
                          @ space_param_ids Kernel
                          @ map getName SubtreeValues;
                  FN = \<lparr>FnName = Identifier, FnArgTypes = Args, FnArgNames = Names\<rparr>
              in case declareArrayArguments env Identifier Arrays s of
                   Inl e \<Rightarrow> Inl e
                 | Inr s1 \<Rightarrow>
                     (let s2 = fold (bindHostIterator Identifier) (space_set_ids Kernel) s1
                      in case bindParameters Identifier (space_param_ids Kernel) s2 of
                           Inl e \<Rightarrow> Inl e
                         | Inr s3 \<Rightarrow>
                             Inr (FN, fold (mapSubtreeValue Identifier) SubtreeValues s3))))"

text \<open>
  \<^verbatim>\<open>prepareKernelArguments\<close> (line 1902): a scalar argument is stored to the storage of
  the scalar in the kernel, after a load through the argument when it is not read-only.
\<close>

definition prepareKernelArgument :: "'p Env \<Rightarrow> nat \<Rightarrow> 'p GPUNodeBuilder \<Rightarrow> 'p GPUNodeBuilder" where
  "prepareKernelArgument env i s =
     (let Array = ProgArrays env ! i; SAI = user Array
      in if getNumberOfDimensions SAI > 0 then s
         else
           (let s1 = (if \<not> gpu_array_is_read_only_scalar Array
                      then emit (LoadArgument (array_name Array)) s else s);
                s2 = snd (getOrCreateAlloca SAI s1)
            in emit (InitScalar (array_name Array)) s2))"

definition prepareKernelArguments ::
    "'p Env \<Rightarrow> 'p ppcg_kernel \<Rightarrow> 'p GPUNodeBuilder \<Rightarrow> 'p GPUNodeBuilder" where
  "prepareKernelArguments env Kernel s =
     fold (prepareKernelArgument env) (requiredArrays env Kernel) s"

text \<open>\<^verbatim>\<open>createKernelVariables\<close> (line 1975).\<close>

definition createKernelVariable ::
    "string \<Rightarrow> ppcg_kernel_var \<Rightarrow> 'p GPUNodeBuilder \<Rightarrow> error + 'p GPUNodeBuilder" where
  "createKernelVariable fn Var s =
     (let ArrayTy' = foldr (\<lambda>Bound T. ArrayTy T Bound) (var_size Var) (var_elem Var)
      in case (case var_type Var of
                 ppcg_access_shared \<Rightarrow> Inr (KernelValue fn (var_name Var) (PointerTy ArrayTy' 3))
               | ppcg_access_private \<Rightarrow> Inr (KernelValue fn ''private_array'' (PointerTy ArrayTy' 0))
               | ppcg_access_global \<Rightarrow> Inl (Unreachable ''unknown variable type'')) of
           Inl e \<Rightarrow> Inl e
         | Inr Allocation \<Rightarrow>
             Inr (s\<lparr>IDToValue := AList.update (var_name Var) Allocation (IDToValue s),
                    LocalArrays := LocalArrays s @ [Allocation],
                    KernelIds := KernelIds s @ [var_name Var],
                    IDToSAI := IDToSAI s @ [var_name Var]\<rparr>))"

fun createKernelVariables ::
    "string \<Rightarrow> ppcg_kernel_var list \<Rightarrow> 'p GPUNodeBuilder \<Rightarrow> error + 'p GPUNodeBuilder" where
  "createKernelVariables fn [] s = Inr s"
| "createKernelVariables fn (Var # Vars) s =
     (case createKernelVariable fn Var s of
        Inl e \<Rightarrow> Inl e
      | Inr s1 \<Rightarrow> createKernelVariables fn Vars s1)"

text \<open>
  \<^verbatim>\<open>insertKernelIntrinsics\<close> (line 1864): the ids of the blocks and threads are bound
  to intrinsic reads. There are two block intrinsics and three thread intrinsics.
\<close>

fun addIds ::
    "string \<Rightarrow> nat \<Rightarrow> string list \<Rightarrow> nat list \<Rightarrow> 'p GPUNodeBuilder \<Rightarrow> error + 'p GPUNodeBuilder" where
  "addIds fn limit ids [] s = Inr s"
| "addIds fn limit ids (i # js) s =
     (if limit \<le> i \<or> length ids \<le> i then Inl (OutOfBounds ''Intrinsics'')
      else addIds fn limit ids js
             (s\<lparr>IDToValue :=
                  AList.update (ids ! i) (KernelValue fn (ids ! i) (IntegerTy 64)) (IDToValue s)\<rparr>))"

definition insertKernelIntrinsics ::
    "string \<Rightarrow> 'p ppcg_kernel \<Rightarrow> 'p GPUNodeBuilder \<Rightarrow> error + 'p GPUNodeBuilder" where
  "insertKernelIntrinsics fn Kernel s =
     (case addIds fn 2 (block_ids Kernel) [0..<n_grid Kernel] s of
        Inl e \<Rightarrow> Inl e
      | Inr s1 \<Rightarrow> addIds fn 3 (thread_ids Kernel) [0..<n_block Kernel] s1)"

text \<open>\<^verbatim>\<open>createKernelFunction\<close> (line 2026).\<close>

definition createKernelFunction ::
    "'p Env \<Rightarrow> 'p ppcg_kernel \<Rightarrow> Value list \<Rightarrow> 'p GPUNodeBuilder \<Rightarrow>
       error + 'p GPUNodeBuilder" where
  "createKernelFunction env Kernel SubtreeValues s =
     (case createKernelFunctionDecl env Kernel SubtreeValues s of
        Inl e \<Rightarrow> Inl e
      | Inr (FN, s1) \<Rightarrow>
          (let s2 = s1\<lparr>GPUModule := Some FN, InsertPoint := KernelPoint (FnName FN)\<rparr>;
               s3 = prepareKernelArguments env Kernel s2
           in case createKernelVariables (FnName FN) (kernel_var Kernel) s3 of
                Inl e \<Rightarrow> Inl e
              | Inr s4 \<Rightarrow> insertKernelIntrinsics (FnName FN) Kernel s4))"

text \<open>\<^verbatim>\<open>setupKernelSubtreeFunctions\<close> (line 1577).\<close>

fun setupKernelSubtreeFunctions ::
    "Function list \<Rightarrow> 'p GPUNodeBuilder \<Rightarrow> error + 'p GPUNodeBuilder" where
  "setupKernelSubtreeFunctions [] s = Inr s"
| "setupKernelSubtreeFunctions (Fn # Fns) s =
     (if ValueMap s (FunctionValue Fn) \<noteq> None then
        Inl (AssertionFailed ''Fn already present in ValueMap'')
      else setupKernelSubtreeFunctions Fns
             (s\<lparr>ValueMap := (ValueMap s)(FunctionValue Fn \<mapsto> FunctionValue Fn)\<rparr>))"

text \<open>
  \<^verbatim>\<open>finalizeKernelArguments\<close> (line 1932). \<open>storeBack\<close> is the loop: a scalar that is
  not read-only is stored back through its argument; the result says whether any
  scalar was stored.
\<close>

fun storeBack ::
    "'p Env \<Rightarrow> nat list \<Rightarrow> bool \<Rightarrow> 'p GPUNodeBuilder \<Rightarrow> bool \<times> 'p GPUNodeBuilder" where
  "storeBack env [] StoredScalar s = (StoredScalar, s)"
| "storeBack env (i # js) StoredScalar s =
     (let Array = ProgArrays env ! i; SAI = user Array
      in if getNumberOfDimensions SAI > 0 then storeBack env js StoredScalar s
         else if gpu_array_is_read_only_scalar Array then storeBack env js StoredScalar s
         else
           (let s1 = snd (getOrCreateAlloca SAI s)
            in storeBack env js True (emit (StoreArgument (array_name Array)) s1)))"

definition finalizeKernelArguments ::
    "'p Env \<Rightarrow> 'p ppcg_kernel \<Rightarrow> 'p GPUNodeBuilder \<Rightarrow> 'p GPUNodeBuilder" where
  "finalizeKernelArguments env Kernel s =
     (case storeBack env (requiredArrays env Kernel) False s of
        (StoredScalar, s1) \<Rightarrow>
          (if StoredScalar then
             (if n_block Kernel \<noteq> 0 \<or> n_grid Kernel \<noteq> 0
              then s1\<lparr>BuildSuccessful := False\<rparr> else s1)
           else s1))"

text \<open>
  \<^verbatim>\<open>finalizeKernelFunction\<close> (line 2173): the assembly of the kernel, or the empty
  string and a build that failed when the module does not verify, or the end of the
  run when that is asked for.
\<close>

definition finalizeKernelFunction ::
    "'p Env \<Rightarrow> 'p GPUNodeBuilder \<Rightarrow> error + (string \<times> 'p GPUNodeBuilder)" where
  "finalizeKernelFunction env s =
     (case GPUModule s of
        None \<Rightarrow> Inl (NullDereference ''GPUModule'')
      | Some FN \<Rightarrow>
          (if verifyModule env (FnName FN) then
             (if FailOnVerifyModuleFailure env then Inl (Unreachable ''VerifyModule failed.'')
              else Inr ([], s\<lparr>BuildSuccessful := False\<rparr>))
           else Inr (''asm:'' @ FnName FN, s\<lparr>GPUModule := None\<rparr>)))"

text \<open>\<^verbatim>\<open>getGridSizes\<close> (line 1400) and \<^verbatim>\<open>getBlockSizes\<close> (line 1419).\<close>

definition getGridSizes :: "'p ppcg_kernel \<Rightarrow> 'p isl_ast_expr list" where
  "getGridSizes Kernel =
     take 2 (take (n_grid Kernel) (grid_size Kernel)
             @ replicate (3 - n_grid Kernel) (isl_ast_expr_from_val 1))"

definition getBlockSizes :: "'p ppcg_kernel \<Rightarrow> int list" where
  "getBlockSizes Kernel =
     take 3 (take (n_block Kernel) (block_dim Kernel) @ replicate (3 - n_block Kernel) 1)"

subsection \<open>Launch parameters\<close>

text \<open>
  \<^verbatim>\<open>getOrCreateManagedDeviceArray\<close> (line 1069): the host pointer that stands for the
  device array in managed-memory mode. Pointer casts and the offset added to the pointer
  are not kept in the value.
\<close>

definition getOrCreateManagedDeviceArray ::
    "'p Env \<Rightarrow> 'p gpu_array_info \<Rightarrow> 'p GPUNodeBuilder \<Rightarrow> error + (Value \<times> 'p GPUNodeBuilder)" where
  "getOrCreateManagedDeviceArray env Array s =
     (if \<not> ManagedMemory env then
        Inl (AssertionFailed ''Only used when you wish to get a host pointer for sending data to the kernel, with managed memory'')
      else
        (case map_of (DeviceAllocations s) (BasePtrId (user Array)) of
           Some v \<Rightarrow> Inr (v, s)
         | None \<Rightarrow>
             (case (if gpu_array_is_scalar Array then getOrCreateAlloca (user Array) s
                    else (BasePtr (user Array), s)) of
                (HostPtr, s1) \<Rightarrow>
                  (case getArrayOffset Array of
                     Inl e \<Rightarrow> Inl e
                   | Inr Offset \<Rightarrow>
                       Inr (HostPtr,
                            s1\<lparr>DeviceAllocations :=
                                 AList.update (BasePtrId (user Array)) HostPtr
                                   (DeviceAllocations s1)\<rparr>)))))"

text \<open>
  The local variables of \<^verbatim>\<open>createLaunchParameters\<close>: the next index, the sizes of the
  arguments, the parameter block (a slot is \<open>None\<close> until it is stored to) and the
  builder.
\<close>

record 'p LaunchState =
  Index :: nat
  ArgSizes :: "nat list"
  Parameters :: "ParamSlot option list"
  Builder :: "'p GPUNodeBuilder"

text \<open>
  A store of \<^verbatim>\<open>ArgSizes[Index]\<close> and of the slot, and the increment. Writing
  \<^verbatim>\<open>ArgSizes\<close> past its end is undefined in C++.
\<close>

definition storeSlot ::
    "nat \<Rightarrow> ParamSlot \<Rightarrow> 'p GPUNodeBuilder \<Rightarrow> 'p LaunchState \<Rightarrow> error + 'p LaunchState" where
  "storeSlot sz slot s L =
     (if length (ArgSizes L) \<le> Index L then Inl (OutOfBounds ''ArgSizes[Index]'')
      else Inr \<lparr>Index = Index L + 1,
                ArgSizes = (ArgSizes L)[Index L := sz],
                Parameters = (Parameters L)[Index L := Some slot],
                Builder = s\<rparr>)"

text \<open>The loop over the arrays (line 1458), for one required array.\<close>

definition launchArrayArgument :: "'p Env \<Rightarrow> nat \<Rightarrow> 'p LaunchState \<Rightarrow> error + 'p LaunchState" where
  "launchArrayArgument env i L =
     (let Array = ProgArrays env ! i; SAI = user Array; s = Builder L
      in if length (ArgSizes L) \<le> Index L then Inl (OutOfBounds ''ArgSizes[Index]'')
         else
           (case (if ManagedMemory env then
                    (case getOrCreateManagedDeviceArray env Array s of
                       Inl e \<Rightarrow> Inl e
                     | Inr (DevArray, s1) \<Rightarrow> Inr s1)
                  else
                    (case map_of (DeviceAllocations s) (BasePtrId SAI) of
                       None \<Rightarrow> Inl (NullDereference ''DeviceAllocations[SAI]'')
                     | Some DevArray \<Rightarrow> Inr (createCallGetDevicePtr (array_name Array) s))) of
              Inl e \<Rightarrow> Inl e
            | Inr s1 \<Rightarrow>
                (case getArrayOffset Array of
                   Inl e \<Rightarrow> Inl e
                 | Inr Offset \<Rightarrow>
                     (if gpu_array_is_read_only_scalar Array then
                        storeSlot (ElemSizeInBytes SAI) (Slot_scalar (array_name Array))
                          (if ManagedMemory env then s1 else snd (getOrCreateAlloca SAI s1)) L
                      else
                        storeSlot (ElemSizeInBytes SAI) (Slot_array (array_name Array)) s1 L))))"

fun launchArrayArguments ::
    "'p Env \<Rightarrow> nat list \<Rightarrow> 'p LaunchState \<Rightarrow> error + 'p LaunchState" where
  "launchArrayArguments env [] L = Inr L"
| "launchArrayArguments env (i # js) L =
     (case launchArrayArgument env i L of
        Inl e \<Rightarrow> Inl e
      | Inr L1 \<Rightarrow> launchArrayArguments env js L1)"

text \<open>The loops over the host iterators and the parameters (lines 1515 and 1533).\<close>

fun launchBoundValues :: "string list \<Rightarrow> 'p LaunchState \<Rightarrow> error + 'p LaunchState" where
  "launchBoundValues [] L = Inr L"
| "launchBoundValues (ID # Ids) L =
     (case lookupID (Builder L) ID of
        Inl e \<Rightarrow> Inl e
      | Inr v \<Rightarrow>
          (case storeSlot (computeSizeInBytes (getType v)) (Slot_value v) (Builder L) L of
             Inl e \<Rightarrow> Inl e
           | Inr L1 \<Rightarrow> launchBoundValues Ids L1))"

text \<open>The loop over the values of the closure (line 1549).\<close>

fun launchSubtreeValues :: "Value list \<Rightarrow> 'p LaunchState \<Rightarrow> error + 'p LaunchState" where
  "launchSubtreeValues [] L = Inr L"
| "launchSubtreeValues (v # vs) L =
     (case storeSlot (computeSizeInBytes (getType v)) (Slot_value v) (Builder L) L of
        Inl e \<Rightarrow> Inl e
      | Inr L1 \<Rightarrow> launchSubtreeValues vs L1)"

text \<open>The loop over the sizes (line 1561).\<close>

fun launchSizes :: "nat list \<Rightarrow> 'p LaunchState \<Rightarrow> 'p LaunchState" where
  "launchSizes [] L = L"
| "launchSizes (i # js) L =
     launchSizes js
       (L\<lparr>Parameters := (Parameters L)[Index L := Some (Slot_size (ArgSizes L ! i))],
          Index := Index L + 1\<rparr>)"

text \<open>
  \<^verbatim>\<open>createLaunchParameters\<close> (line 1442), for the kernel function \<open>F\<close>: the parameter
  block of \<open>2 * NumArgs\<close> slots, and the builder.
\<close>

definition createLaunchParameters ::
    "'p Env \<Rightarrow> 'p ppcg_kernel \<Rightarrow> KernelFunction \<Rightarrow> Value list \<Rightarrow> 'p GPUNodeBuilder \<Rightarrow>
       error + (ParamSlot option list \<times> 'p GPUNodeBuilder)" where
  "createLaunchParameters env Kernel F SubtreeValues s =
     (let NumArgs = length (FnArgTypes F);
          L0 = \<lparr>Index = 0, ArgSizes = replicate NumArgs 0,
                Parameters = replicate (2 * NumArgs) None, Builder = s\<rparr>
      in case launchArrayArguments env (requiredArrays env Kernel) L0 of
           Inl e \<Rightarrow> Inl e
         | Inr L1 \<Rightarrow>
             (case launchBoundValues (space_set_ids Kernel) L1 of
                Inl e \<Rightarrow> Inl e
              | Inr L2 \<Rightarrow>
                  (case launchBoundValues (space_param_ids Kernel) L2 of
                     Inl e \<Rightarrow> Inl e
                   | Inr L3 \<Rightarrow>
                       (case launchSubtreeValues SubtreeValues L3 of
                          Inl e \<Rightarrow> Inl e
                        | Inr L4 \<Rightarrow>
                            (let L5 = launchSizes [0..<NumArgs] L4
                             in Inr (Parameters L5, Builder L5))))))"

subsection \<open>Data transfers and device arrays\<close>

datatype DataDirection = HOST_TO_DEVICE | DEVICE_TO_HOST

text \<open>The size of a transfer or an allocation: the array size less the offset.\<close>

definition sizeLessOffset ::
    "'p gpu_array_info \<Rightarrow> 'p isl_ast_expr \<Rightarrow> 'p isl_ast_expr option \<Rightarrow> 'p isl_ast_expr" where
  "sizeLessOffset Array Size Offset =
     (case Offset of
        None \<Rightarrow> Size
      | Some Off \<Rightarrow>
          isl_ast_expr_sub Size
            (isl_ast_expr_mul Off (isl_ast_expr_from_val (int (ElemSizeInBytes (user Array))))))"

text \<open>\<^verbatim>\<open>createDataTransfer\<close> (line 1099), for the array the id of the node points to.\<close>

definition createDataTransfer ::
    "'p Env \<Rightarrow> nat option \<Rightarrow> DataDirection \<Rightarrow> 'p GPUNodeBuilder \<Rightarrow> error + 'p GPUNodeBuilder" where
  "createDataTransfer env u Direction s =
     (if ManagedMemory env then Inl (AssertionFailed ''Managed memory needs no data transfers'')
      else
        (case u of
           None \<Rightarrow> Inl (NullDereference ''Array'')
         | Some i \<Rightarrow>
             (if length (ProgArrays env) \<le> i then Inl (OutOfBounds ''Prog->array'')
              else
                (let Array = ProgArrays env ! i; ScopArray = user Array
                 in case getArraySize Array of
                      Inl e \<Rightarrow> Inl e
                    | Inr Size \<Rightarrow>
                        (case getArrayOffset Array of
                           Inl e \<Rightarrow> Inl e
                         | Inr Offset \<Rightarrow>
                             (case map_of (DeviceAllocations s) (BasePtrId ScopArray) of
                                None \<Rightarrow> Inl (NullDereference ''DeviceAllocations[ScopArray]'')
                              | Some DevPtr \<Rightarrow>
                                  (let s1 = (if gpu_array_is_scalar Array
                                             then snd (getOrCreateAlloca ScopArray s) else s);
                                       Size1 = sizeLessOffset Array Size Offset
                                   in if Direction = HOST_TO_DEVICE then
                                        createCallCopyFromHostToDevice env (array_name Array) Size1 s1
                                      else
                                        createCallCopyFromDeviceToHost env (array_name Array) Size1 s1)))))))"

text \<open>\<^verbatim>\<open>allocateDeviceArrays\<close> (line 720).\<close>

fun allocateArrays ::
    "'p Env \<Rightarrow> 'p gpu_array_info list \<Rightarrow> 'p GPUNodeBuilder \<Rightarrow> error + 'p GPUNodeBuilder" where
  "allocateArrays env [] s = Inr s"
| "allocateArrays env (Array # Arrays) s =
     (case getArraySize Array of
        Inl e \<Rightarrow> Inl e
      | Inr ArraySize \<Rightarrow>
          (case getArrayOffset Array of
             Inl e \<Rightarrow> Inl e
           | Inr Offset \<Rightarrow>
               (case createCallAllocateMemoryForDevice env (array_name Array)
                       (sizeLessOffset Array ArraySize Offset) s of
                  Inl e \<Rightarrow> Inl e
                | Inr s1 \<Rightarrow>
                    allocateArrays env Arrays
                      (s1\<lparr>DeviceAllocations :=
                           AList.update (BasePtrId (user Array))
                             (Val (''p_dev_array_'' @ array_name Array) (PointerTy (IntegerTy 8) 0))
                             (DeviceAllocations s1)\<rparr>))))"

definition allocateDeviceArrays :: "'p Env \<Rightarrow> 'p GPUNodeBuilder \<Rightarrow> error + 'p GPUNodeBuilder" where
  "allocateDeviceArrays env s =
     (if ManagedMemory env then
        Inl (AssertionFailed ''Managed memory will directly send host pointers to the kernel. There is no need for device arrays'')
      else allocateArrays env (ProgArrays env) s)"

text \<open>\<^verbatim>\<open>freeDeviceArrays\<close> (line 767).\<close>

fun freeArrays :: "'p Env \<Rightarrow> (string \<times> Value) list \<Rightarrow> 'p GPUNodeBuilder \<Rightarrow> error + 'p GPUNodeBuilder" where
  "freeArrays env [] s = Inr s"
| "freeArrays env (Array # Arrays) s =
     (case createCallFreeDeviceMemory env (getName (snd Array)) s of
        Inl e \<Rightarrow> Inl e
      | Inr s1 \<Rightarrow> freeArrays env Arrays s1)"

definition freeDeviceArrays :: "'p Env \<Rightarrow> 'p GPUNodeBuilder \<Rightarrow> error + 'p GPUNodeBuilder" where
  "freeDeviceArrays env s =
     (if ManagedMemory env then
        Inl (AssertionFailed ''Managed memory does not use device arrays'')
      else freeArrays env (DeviceAllocations s) s)"

text \<open>
  \<^verbatim>\<open>createKernelCopy\<close> (line 1205), \<^verbatim>\<open>createScopStmt\<close> (line 1222) and
  \<^verbatim>\<open>createKernelSync\<close> (line 1238).
\<close>

definition createKernelCopy :: "bool \<Rightarrow> 'p GPUNodeBuilder \<Rightarrow> 'p GPUNodeBuilder" where
  "createKernelCopy read s = (if read then emit SharedRead s else emit SharedWrite s)"

definition createScopStmt :: "ScopStmt \<Rightarrow> 'p GPUNodeBuilder \<Rightarrow> 'p GPUNodeBuilder" where
  "createScopStmt Stmt s = emit (CopyStmt (StmtName Stmt)) s"

definition createKernelSync :: "'p GPUNodeBuilder \<Rightarrow> 'p GPUNodeBuilder" where
  "createKernelSync s = emit nvvm_barrier0 s"


subsection \<open>Kernels and the walk over the tree\<close>

text \<open>What \<^verbatim>\<open>createKernel\<close> keeps of the host while the kernel is built.\<close>

record KernelContext =
  SubtreeValues :: "Value list"
  HostInsertPoint :: InsertPoint
  HostIDs :: "(string \<times> Value) list"
  HostValueMap :: "Value \<rightharpoonup> Value"
  HostScalarMap :: "string \<rightharpoonup> Value"

text \<open>The update of the two depths at the entry of \<^verbatim>\<open>createKernel\<close> (line 1598).\<close>

definition updateDepths :: "'p ppcg_kernel \<Rightarrow> 'p GPUNodeBuilder \<Rightarrow> 'p GPUNodeBuilder" where
  "updateDepths Kernel s =
     (if n_grid Kernel > 1 then
        s\<lparr>DeepestParallel := max (DeepestParallel s) (length (space_set_ids Kernel))\<rparr>
      else
        s\<lparr>DeepestSequential := max (DeepestSequential s) (length (space_set_ids Kernel))\<rparr>)"

text \<open>\<^verbatim>\<open>createKernel\<close> up to the walk over the tree of the kernel (lines 1592-1635).\<close>

definition enterKernel ::
    "'p Env \<Rightarrow> 'p ppcg_kernel \<Rightarrow> 'p isl_ast_node option \<Rightarrow> 'p GPUNodeBuilder \<Rightarrow>
       error + (KernelContext \<times> 'p GPUNodeBuilder)" where
  "enterKernel env Kernel tree s =
     (let s0 = updateDepths Kernel s
      in case getReferencesInKernel env Kernel tree s0 of
           Inl e \<Rightarrow> Inl e
         | Inr (Vals, SubtreeFunctions) \<Rightarrow>
             (if tree = None then Inl (AssertionFailed ''Device AST of kernel node is empty'')
              else
                (let ctx = \<lparr>SubtreeValues = Vals,
                            HostInsertPoint = InsertPoint s0,
                            HostIDs = IDToValue s0,
                            HostValueMap = ValueMap s0,
                            HostScalarMap = ScalarMap s0\<rparr>;
                     s1 = s0\<lparr>ScalarMap := Map.empty\<rparr>
                 in case createKernelFunction env Kernel Vals s1 of
                      Inl e \<Rightarrow> Inl e
                    | Inr s2 \<Rightarrow>
                        (case setupKernelSubtreeFunctions SubtreeFunctions s2 of
                           Inl e \<Rightarrow> Inl e
                         | Inr s3 \<Rightarrow> Inr (ctx, s3)))))"

text \<open>
  The restoration of the host (lines 1647-1656): the bindings of the ids, the value map
  and the storage of the scalars are those saved at the entry.
\<close>

definition restoreHost :: "KernelContext \<Rightarrow> 'p GPUNodeBuilder \<Rightarrow> 'p GPUNodeBuilder" where
  "restoreHost ctx s =
     s\<lparr>IDToValue := HostIDs ctx,
       ValueMap := HostValueMap ctx,
       ScalarMap := HostScalarMap ctx,
       EscapeMap := [],
       IDToSAI := [],
       LocalArrays := []\<rparr>"

text \<open>
  \<^verbatim>\<open>createKernel\<close> after the walk over the tree of the kernel (lines 1639-1677). \<open>F\<close>
  is the function the builder inserts into, the kernel of the module.
\<close>

definition leaveKernel ::
    "'p Env \<Rightarrow> 'p ppcg_kernel \<Rightarrow> KernelContext \<Rightarrow> 'p GPUNodeBuilder \<Rightarrow>
       error + 'p GPUNodeBuilder" where
  "leaveKernel env Kernel ctx s =
     (let s1 = finalizeKernelArguments env Kernel s
      in case GPUModule s1 of
           None \<Rightarrow> Inl (NullDereference ''GPUModule'')
         | Some F \<Rightarrow>
             (case finalizeKernelFunction env (restoreHost ctx s1) of
                Inl e \<Rightarrow> Inl e
              | Inr (ASMString, s3) \<Rightarrow>
                  (case createLaunchParameters env Kernel F (SubtreeValues ctx)
                          (s3\<lparr>InsertPoint := HostInsertPoint ctx\<rparr>) of
                     Inl e \<Rightarrow> Inl e
                   | Inr (Params, s5) \<Rightarrow>
                       (let Name = getKernelFuncName env (kernel_id Kernel);
                            s6 = createCallGetKernel Name s5;
                            s7 = createCallLaunchKernel Name (getGridSizes Kernel)
                                   (getBlockSizes Kernel) Params s6;
                            s8 = createCallFreeKernel Name s7
                        in Inr (s8\<lparr>KernelIds := []\<rparr>)))))"

text \<open>
  The value a loop binds to its iterator while its body is built, in the function the
  builder inserts into.
\<close>

definition loopIV :: "string \<Rightarrow> 'p GPUNodeBuilder \<Rightarrow> Value" where
  "loopIV it s =
     (case InsertPoint s of
        HostPoint b \<Rightarrow> Val it (IntegerTy 64)
      | KernelPoint fn \<Rightarrow> KernelValue fn it (IntegerTy 64))"

text \<open>
  The walk. \<^verbatim>\<open>create\<close> is \<^verbatim>\<open>IslNodeBuilder::create\<close>, of the base class in another
  file of the repository: it dispatches on the type of the node, to \<^verbatim>\<open>createUser\<close> of
  this file (line 1144) for a user node, to the children of a block in order, to the
  body of a loop with the iterator bound while the body is built, and to the branches of
  a conditional. \<^verbatim>\<open>createKernel\<close> (line 1592) walks the tree of the kernel between its
  two halves.
\<close>

fun create :: "'p Env \<Rightarrow> 'p isl_ast_node \<Rightarrow> 'p GPUNodeBuilder \<Rightarrow> error + 'p GPUNodeBuilder"
  and createBlock ::
    "'p Env \<Rightarrow> 'p isl_ast_node list \<Rightarrow> 'p GPUNodeBuilder \<Rightarrow> error + 'p GPUNodeBuilder"
  and createUser ::
    "'p Env \<Rightarrow> string \<Rightarrow> nat option \<Rightarrow> 'p annotation option \<Rightarrow> 'p GPUNodeBuilder \<Rightarrow>
       error + 'p GPUNodeBuilder"
  and createKernel ::
    "'p Env \<Rightarrow> 'p ppcg_kernel \<Rightarrow> 'p isl_ast_node option \<Rightarrow> 'p GPUNodeBuilder \<Rightarrow>
       error + 'p GPUNodeBuilder" where
  "create env (Node_user Str u Anno) s = createUser env Str u Anno s"
| "create env (Node_block ns) s = createBlock env ns s"
| "create env (Node_for it body) s =
     (case create env body (s\<lparr>IDToValue := AList.update it (loopIV it s) (IDToValue s)\<rparr>) of
        Inl e \<Rightarrow> Inl e
      | Inr s1 \<Rightarrow> Inr (s1\<lparr>IDToValue := AList.delete it (IDToValue s1)\<rparr>))"
| "create env (Node_if t e) s =
     (case create env t s of
        Inl x \<Rightarrow> Inl x
      | Inr s1 \<Rightarrow> (case e of None \<Rightarrow> Inr s1 | Some en \<Rightarrow> create env en s1))"
| "createBlock env [] s = Inr s"
| "createBlock env (n # ns) s =
     (case create env n s of
        Inl x \<Rightarrow> Inl x
      | Inr s1 \<Rightarrow> createBlock env ns s1)"
| "createUser env Str u None s =
     (if Str = ''kernel'' then Inl (NullDereference ''Kernel'')
      else if isPrefix Str ''to_device'' then
        (if \<not> ManagedMemory env then createDataTransfer env u HOST_TO_DEVICE s else Inr s)
      else if isPrefix Str ''from_device'' then
        (if \<not> ManagedMemory env then createDataTransfer env u DEVICE_TO_HOST s
         else createCallSynchronizeDevice env s)
      else Inl (NullDereference ''KernelStmt''))"
| "createUser env Str u (Some (Anno_kernel Kernel tree)) s =
     (if Str = ''kernel'' then createKernel env Kernel tree s
      else if isPrefix Str ''to_device'' then
        (if \<not> ManagedMemory env then createDataTransfer env u HOST_TO_DEVICE s else Inr s)
      else if isPrefix Str ''from_device'' then
        (if \<not> ManagedMemory env then createDataTransfer env u DEVICE_TO_HOST s
         else createCallSynchronizeDevice env s)
      else Inl (NullDereference ''KernelStmt''))"
| "createUser env Str u (Some (Anno_kernel_stmt KernelStmt)) s =
     (if Str = ''kernel'' then Inl (NullDereference ''Kernel'')
      else if isPrefix Str ''to_device'' then
        (if \<not> ManagedMemory env then createDataTransfer env u HOST_TO_DEVICE s else Inr s)
      else if isPrefix Str ''from_device'' then
        (if \<not> ManagedMemory env then createDataTransfer env u DEVICE_TO_HOST s
         else createCallSynchronizeDevice env s)
      else
        (case KernelStmt of
           ppcg_kernel_domain Stmt \<Rightarrow> Inr (createScopStmt Stmt s)
         | ppcg_kernel_copy read \<Rightarrow> Inr (createKernelCopy read s)
         | ppcg_kernel_sync \<Rightarrow> Inr (createKernelSync s)))"
| "createKernel env Kernel tree s =
     (case enterKernel env Kernel tree s of
        Inl e \<Rightarrow> Inl e
      | Inr (ctx, s1) \<Rightarrow>
          (case tree of
             None \<Rightarrow> Inl (AssertionFailed ''Device AST of kernel node is empty'')
           | Some t \<Rightarrow>
               (case create env t s1 of
                  Inl e \<Rightarrow> Inl e
                | Inr s2 \<Rightarrow> leaveKernel env Kernel ctx s2)))"

subsection \<open>The code of a region\<close>

text \<open>\<^verbatim>\<open>initializeAfterRTH\<close> (line 700) and \<^verbatim>\<open>finalize\<close> (line 712).\<close>

definition initializeAfterRTH :: "'p Env \<Rightarrow> 'p GPUNodeBuilder \<Rightarrow> error + 'p GPUNodeBuilder" where
  "initializeAfterRTH env s =
     (let s1 = createCallInitContext env (s\<lparr>InsertPoint := HostPoint ''polly.acc.initialize''\<rparr>)
      in if \<not> ManagedMemory env then allocateDeviceArrays env s1 else Inr s1)"

definition finalize :: "'p Env \<Rightarrow> 'p GPUNodeBuilder \<Rightarrow> error + 'p GPUNodeBuilder" where
  "finalize env s =
     (case (if \<not> ManagedMemory env then freeDeviceArrays env s else Inr s) of
        Inl e \<Rightarrow> Inl e
      | Inr s1 \<Rightarrow> Inr (createCallFreeContext s1))"

text \<open>
  The condition of the branch that guards the generated code: the run-time check, or the
  constant false.
\<close>

datatype Guard = RTC | ConstFalse

text \<open>The builder as \<^verbatim>\<open>generateCode\<close> makes it, with the parameters bound.\<close>

definition newBuilder :: "'p Env \<Rightarrow> 'p GPUNodeBuilder" where
  "newBuilder env =
     \<lparr>BuildSuccessful = True, DeepestSequential = 0, DeepestParallel = 0,
      IDToValue = ParamValues env, ValueMap = Map.empty, ScalarMap = Map.empty,
      EscapeMap = [], IDToSAI = [], DeviceAllocations = [], LocalArrays = [],
      KernelIds = [], GPUModule = None, InsertPoint = HostPoint ''polly.start'',
      Code = []\<rparr>"

text \<open>The two tests at the end of \<^verbatim>\<open>generateCode\<close> (lines 3099 and 3102).\<close>

definition finalGuard :: "'p GPUNodeBuilder \<Rightarrow> Guard" where
  "finalGuard s =
     (let g1 = (if DeepestSequential s > DeepestParallel s then ConstFalse else RTC)
      in if \<not> BuildSuccessful s then ConstFalse else g1)"

text \<open>\<^verbatim>\<open>generateCode\<close> (line 3051): the guard and the builder at the end.\<close>

definition generateCode ::
    "'p Env \<Rightarrow> 'p isl_ast_node \<Rightarrow> error + (Guard \<times> 'p GPUNodeBuilder)" where
  "generateCode env Root =
     (case initializeAfterRTH env (newBuilder env) of
        Inl e \<Rightarrow> Inl e
      | Inr s1 \<Rightarrow>
          (case create env Root s1 of
             Inl e \<Rightarrow> Inl e
           | Inr s2 \<Rightarrow>
               (case finalize env s2 of
                  Inl e \<Rightarrow> Inl e
                | Inr s3 \<Rightarrow> Inr (finalGuard s3, s3))))"

subsection \<open>The pass\<close>









section \<open>Properties of the builder\<close>

subsection \<open>An example program\<close>

text \<open>
  A region of a function \<open>f\<close> with one parameter \<open>n\<close>, float scalars and float arrays
  of one dimension with the elements \<open>0\<close> to \<open>99\<close>, and kernels over them.
\<close>

definition exScalar :: "string \<Rightarrow> bool \<Rightarrow> unit ScopArrayInfo" where
  "exScalar n ro =
     \<lparr>BasePtr = Val n FloatTy, BasePtrId = ''MemRef_'' @ n, BasePtrUsers = [],
      Kind = MK_Value, ElementType = FloatTy, ElemSizeInBytes = 4,
      DimensionSizesPw = [], ReadOnly = ro\<rparr>"

definition progScalar :: "string \<Rightarrow> bool \<Rightarrow> unit gpu_array_info" where
  "progScalar n ro =
     \<lparr>array_name = ''MemRef_'' @ n, size_in_bytes = 4, n_index = 0,
      extent = isl_set_universe 0, bound = [], read_only_scalar = ro,
      user = exScalar n ro\<rparr>"

definition exArray :: "string \<Rightarrow> unit ScopArrayInfo" where
  "exArray n =
     \<lparr>BasePtr = Val n (PointerTy FloatTy 0), BasePtrId = ''MemRef_'' @ n, BasePtrUsers = [],
      Kind = MK_Array, ElementType = FloatTy, ElemSizeInBytes = 4,
      DimensionSizesPw = [None], ReadOnly = False\<rparr>"

definition progArray :: "string \<Rightarrow> unit gpu_array_info" where
  "progArray n =
     \<lparr>array_name = ''MemRef_'' @ n, size_in_bytes = 4, n_index = 1,
      extent = (\<lambda>p. Box [(Some 0, Some 99)]), bound = [Some (\<lambda>p. Some 100)],
      read_only_scalar = False, user = exArray n\<rparr>"

definition exEnv :: "bool \<Rightarrow> unit gpu_array_info list \<Rightarrow> unit Env" where
  "exEnv managed arrays =
     \<lparr>ManagedMemory = managed, FailOnVerifyModuleFailure = False, Runtime = CUDA,
      Arch = NVPTX64, ProgArrays = arrays, ScopArrays = map user arrays,
      ScopParams = [''n''], ScopStmts = [], ScopFunction = ''f'',
      ParamValues = [(''n'', Val ''n'' (IntegerTy 64))], verifyModule = (\<lambda>n. False)\<rparr>"

text \<open>A kernel with \<open>g\<close> grid and \<open>b\<close> block dimensions, each of size \<open>1\<close>.\<close>

definition exKernel :: "nat \<Rightarrow> nat \<Rightarrow> unit ppcg_kernel" where
  "exKernel g b =
     \<lparr>kernel_id = 0, n_grid = g, grid_size = replicate g (\<lambda>p. Some 1), n_block = b,
      block_dim = replicate b 1, requires_array_argument = (\<lambda>i. True),
      space_set_ids = [], space_param_ids = [''n''],
      block_ids = [''b0'', ''b1''], thread_ids = [''t0'', ''t1'', ''t2''],
      kernel_var = []\<rparr>"

subsection \<open>The scalar write-back hazard\<close>

text \<open>A scalar argument that is not read-only: what \<^verbatim>\<open>finalizeKernelArguments\<close> stores back.\<close>

definition scalarStoredBack :: "'p Env \<Rightarrow> nat \<Rightarrow> bool" where
  "scalarStoredBack env i =
     (getNumberOfDimensions (user (ProgArrays env ! i)) = 0
      \<and> \<not> gpu_array_is_read_only_scalar (ProgArrays env ! i))"

lemma storeBack_flag:
  "BuildSuccessful (snd (storeBack env js b s)) = BuildSuccessful s"
  by (induction js arbitrary: b s)
     (simp_all add: Let_def emit_def getOrCreateAlloca_def split: option.splits InsertPoint.splits)

lemma storeBack_stored:
  "fst (storeBack env js b s) = (b \<or> list_ex (scalarStoredBack env) js)"
  by (induction js arbitrary: b s) (auto simp: Let_def scalarStoredBack_def)

text \<open>
  Claim C4 (as amended). \<^verbatim>\<open>finalizeKernelArguments\<close> is total (it has
  no failing branch), and the build-success flag after it is the flag before it, cleared
  exactly when a non-read-only scalar argument was stored back and the number of block
  dimensions or the number of grid dimensions of the kernel is not zero. A kernel with
  no block and no grid dimension is launched with a \<open>1 x 1\<close> grid of \<open>1 x 1 x 1\<close> blocks,
  and for it the flag is unchanged. The test is on the numbers of dimensions, not on
  the sizes.
\<close>

theorem finalizeKernelArguments_flag:
  "(BuildSuccessful (finalizeKernelArguments env Kernel s) =
      (BuildSuccessful s \<and>
       \<not> (list_ex (scalarStoredBack env) (requiredArrays env Kernel)
          \<and> (n_block Kernel \<noteq> 0 \<or> n_grid Kernel \<noteq> 0))))
   \<and> (n_block Kernel = 0 \<and> n_grid Kernel = 0 \<longrightarrow>
        getBlockSizes Kernel = [1, 1, 1]
        \<and> getGridSizes Kernel = [isl_ast_expr_from_val 1, isl_ast_expr_from_val 1])"
proof -
  obtain b s1 where sb: "storeBack env (requiredArrays env Kernel) False s = (b, s1)"
    by (cases "storeBack env (requiredArrays env Kernel) False s")
  have b: "b = list_ex (scalarStoredBack env) (requiredArrays env Kernel)"
    using storeBack_stored [of env "requiredArrays env Kernel" False s] sb by simp
  have f: "BuildSuccessful s1 = BuildSuccessful s"
    using storeBack_flag [of env "requiredArrays env Kernel" False s] sb by simp
  have "BuildSuccessful (finalizeKernelArguments env Kernel s) =
      (BuildSuccessful s \<and>
       \<not> (list_ex (scalarStoredBack env) (requiredArrays env Kernel)
          \<and> (n_block Kernel \<noteq> 0 \<or> n_grid Kernel \<noteq> 0)))"
    unfolding finalizeKernelArguments_def sb using b f by auto
  moreover have "n_block Kernel = 0 \<and> n_grid Kernel = 0 \<longrightarrow>
        getBlockSizes Kernel = [1, 1, 1]
        \<and> getGridSizes Kernel = [isl_ast_expr_from_val 1, isl_ast_expr_from_val 1]"
    by (simp add: getBlockSizes_def getGridSizes_def numeral_3_eq_3)
  ultimately show ?thesis by simp
qed

text \<open>
  A kernel without block and grid dimensions that writes the scalar \<open>s\<close>: the flag stays
  set.
\<close>

theorem finalizeKernelArguments_flag_witness:
  "BuildSuccessful (finalizeKernelArguments (exEnv False [progScalar ''s'' False]) (exKernel 0 0)
      (newBuilder (exEnv False [progScalar ''s'' False])))
   \<and> getBlockSizes (exKernel 0 0) = [1, 1, 1]
   \<and> getGridSizes (exKernel 0 0) = [isl_ast_expr_from_val 1, isl_ast_expr_from_val 1]"
  using finalizeKernelArguments_flag
          [of "exEnv False [progScalar ''s'' False]" "exKernel 0 0"
              "newBuilder (exEnv False [progScalar ''s'' False])"]
  by (simp add: exKernel_def newBuilder_def)

text \<open>
  C4 as stated fails for a kernel with one grid dimension and one block dimension, each
  of size \<open>1\<close>, that writes the scalar \<open>s\<close>: it is launched with a \<open>1 x 1\<close> grid of
  \<open>1 x 1 x 1\<close> blocks, on one thread, and the flag is cleared.
\<close>

theorem finalizeKernelArguments_counterexample:
  "BuildSuccessful (newBuilder (exEnv False [progScalar ''s'' False]))
   \<and> getBlockSizes (exKernel 1 1) = [1, 1, 1]
   \<and> map (\<lambda>e. e ()) (getGridSizes (exKernel 1 1)) = [Some 1, Some 1]
   \<and> \<not> BuildSuccessful (finalizeKernelArguments (exEnv False [progScalar ''s'' False])
           (exKernel 1 1) (newBuilder (exEnv False [progScalar ''s'' False])))"
  by (simp add: exKernel_def newBuilder_def exEnv_def progScalar_def exScalar_def
        getBlockSizes_def getGridSizes_def isl_ast_expr_from_val_def
        finalizeKernelArguments_def requiredArrays_def getNumberOfDimensions_def
        gpu_array_is_read_only_scalar_def Let_def emit_def getOrCreateAlloca_def numeral_3_eq_3)


subsection \<open>The closure of a kernel is filtered and partitioned\<close>

lemma SetVector_insert_set: "set (SetVector_insert V x) = insert x (set V)"
  by (auto simp: SetVector_insert_def)

lemma dyn_cast_Function_Some: "(dyn_cast_Function v = Some F) = (v = FunctionValue F)"
  by (cases v) auto

lemma dyn_cast_Function_None: "(dyn_cast_Function v = None) = (\<forall>F. v \<noteq> FunctionValue F)"
  by (cases v) auto

lemma removeBoundValues_set:
  "removeBoundValues IDs Ids V = Inr W \<Longrightarrow>
     set W = set V - {v. \<exists>ID \<in> set Ids. map_of IDs ID = Some v}"
proof (induction Ids arbitrary: V)
  case Nil
  then show ?case by simp
next
  case (Cons ID Ids)
  then obtain v where v: "map_of IDs ID = Some v"
    and r: "removeBoundValues IDs Ids (SetVector_remove V v) = Inr W"
    by (auto split: option.splits)
  have "set W = set (SetVector_remove V v) - {v. \<exists>ID \<in> set Ids. map_of IDs ID = Some v}"
    using Cons.IH [OF r] .
  then show ?case using v by (auto simp: SetVector_remove_def)
qed

lemma removeBasePtrs_set:
  "set (fold (\<lambda>SAI V. SetVector_remove V (BasePtr SAI)) SAIs V) = set V - BasePtr ` set SAIs"
  by (induction SAIs arbitrary: V) (auto simp: SetVector_remove_def)

lemma functionsFrom_set:
  "functionsFrom Vs acc = Inr Fs \<Longrightarrow>
     set Fs = set acc \<union> {F. FunctionValue F \<in> set Vs}"
proof (induction Vs arbitrary: acc)
  case Nil
  then show ?case by simp
next
  case (Cons It rest)
  show ?case
  proof (cases "dyn_cast_Function It")
    case None
    then have "functionsFrom rest acc = Inr Fs" using Cons.prems by simp
    then have "set Fs = set acc \<union> {F. FunctionValue F \<in> set rest}" by (rule Cons.IH)
    moreover have "\<forall>F. It \<noteq> FunctionValue F" using None by (simp add: dyn_cast_Function_None)
    ultimately show ?thesis by auto
  next
    case (Some F)
    then have It: "It = FunctionValue F" by (simp add: dyn_cast_Function_Some)
    have "functionsFrom rest (SetVector_insert acc F) = Inr Fs"
      using Cons.prems Some by (auto split: sum.splits if_splits)
    then have "set Fs = set (SetVector_insert acc F) \<union> {F. FunctionValue F \<in> set rest}"
      by (rule Cons.IH)
    then show ?thesis using It by (auto simp: SetVector_insert_set)
  qed
qed

lemma filteredReferences_excludes:
  assumes "filteredReferences env Kernel tree s = Inr raw"
  shows "set raw \<inter> BasePtr ` set (ScopArrays env) = {}"
    and "set raw \<inter> {v. \<exists>ID \<in> set (ScopParams env) \<union> set (space_set_ids Kernel).
                         map_of (IDToValue s) ID = Some v} = {}"
proof -
  let ?R0 = "\<lparr>Values = fold (\<lambda>I V. SetVector_insert V (snd I)) (IDToValue s) [], SCEVs = []\<rparr>"
  obtain Refs where "(case tree of None \<Rightarrow> Inr ?R0
                          | Some t \<Rightarrow> foreach_descendant_top_down t ?R0) = Inr Refs"
    using assms unfolding filteredReferences_def Let_def by (auto split: sum.splits)
  define V1 where "V1 = fold (\<lambda>v V. SetVector_insert V v) (SCEVs Refs) (Values Refs)"
  define V2 where "V2 = fold (\<lambda>SAI V. SetVector_remove V (BasePtr SAI)) (ScopArrays env) V1"
  obtain V3 where r1: "removeBoundValues (IDToValue s) (ScopParams env) V2 = Inr V3"
    and r2: "removeBoundValues (IDToValue s) (space_set_ids Kernel) V3 = Inr raw"
    using assms \<open>_ = Inr Refs\<close> unfolding filteredReferences_def Let_def V1_def V2_def
    by (auto split: sum.splits)
  have s2: "set V2 = set V1 - BasePtr ` set (ScopArrays env)"
    unfolding V2_def by (rule removeBasePtrs_set)
  have s3: "set V3 = set V2 - {v. \<exists>ID \<in> set (ScopParams env). map_of (IDToValue s) ID = Some v}"
    using r1 by (rule removeBoundValues_set)
  have s4: "set raw = set V3 - {v. \<exists>ID \<in> set (space_set_ids Kernel). map_of (IDToValue s) ID = Some v}"
    using r2 by (rule removeBoundValues_set)
  show "set raw \<inter> BasePtr ` set (ScopArrays env) = {}" using s2 s3 s4 by auto
  show "set raw \<inter> {v. \<exists>ID \<in> set (ScopParams env) \<union> set (space_set_ids Kernel).
                         map_of (IDToValue s) ID = Some v} = {}"
    using s3 s4 by auto
qed

lemma getReferencesInKernel_partition:
  assumes "getReferencesInKernel env Kernel tree s = Inr (vals, funs)"
  shows "\<exists>raw. filteredReferences env Kernel tree s = Inr raw
               \<and> set vals \<union> FunctionValue ` set funs = set raw
               \<and> set vals \<inter> FunctionValue ` set funs = {}"
proof -
  obtain raw where raw: "filteredReferences env Kernel tree s = Inr raw"
    and vals: "vals = filter isValidSubtreeValue raw"
    and funs: "getFunctionsFromRawSubtreeValues raw = Inr funs"
    using assms unfolding getReferencesInKernel_def Let_def by (auto split: sum.splits)
  have f: "set funs = {F. FunctionValue F \<in> set raw}"
    using functionsFrom_set [of raw "[]" funs] funs
    by (simp add: getFunctionsFromRawSubtreeValues_def)
  have v: "set vals = {v \<in> set raw. \<forall>F. v \<noteq> FunctionValue F}"
    using vals by (auto simp: isValidSubtreeValue_def dyn_cast_Function_None)
  have "set vals \<union> FunctionValue ` set funs = set raw" using f v by auto
  moreover have "set vals \<inter> FunctionValue ` set funs = {}" using v by auto
  ultimately show ?thesis using raw by simp
qed

text \<open>
  Claim C6. When \<^verbatim>\<open>getReferencesInKernel\<close> returns the values \<open>vals\<close> and the functions
  \<open>funs\<close>: no base pointer of an array of the region is among them, no value bound to a
  parameter of the region or to a host iterator of the kernel's space is among them, the
  values and the functions have no element in common, and together they are exactly the
  reference set as it is after the removals (\<open>filteredReferences\<close>), so that nothing
  referenced is lost in the partition.
\<close>

theorem getReferencesInKernel_closure:
  assumes "getReferencesInKernel env Kernel tree s = Inr (vals, funs)"
  shows "(\<forall>SAI \<in> set (ScopArrays env). BasePtr SAI \<notin> set vals \<union> FunctionValue ` set funs)
       \<and> (\<forall>ID \<in> set (ScopParams env) \<union> set (space_set_ids Kernel).
            \<forall>v. map_of (IDToValue s) ID = Some v \<longrightarrow> v \<notin> set vals \<union> FunctionValue ` set funs)
       \<and> set vals \<inter> FunctionValue ` set funs = {}
       \<and> (\<exists>raw. filteredReferences env Kernel tree s = Inr raw
                 \<and> set vals \<union> FunctionValue ` set funs = set raw)"
proof -
  obtain raw where raw: "filteredReferences env Kernel tree s = Inr raw"
    and u: "set vals \<union> FunctionValue ` set funs = set raw"
    and d: "set vals \<inter> FunctionValue ` set funs = {}"
    using getReferencesInKernel_partition [OF assms] by blast
  have a: "\<forall>SAI \<in> set (ScopArrays env). BasePtr SAI \<notin> set raw"
    using filteredReferences_excludes(1) [OF raw] by auto
  have b: "\<forall>ID \<in> set (ScopParams env) \<union> set (space_set_ids Kernel).
            \<forall>v. map_of (IDToValue s) ID = Some v \<longrightarrow> v \<notin> set raw"
    using filteredReferences_excludes(2) [OF raw] by blast
  show ?thesis using a b d raw u by simp
qed

text \<open>
  A kernel in a loop over \<open>c0\<close> whose statement references the array \<open>A\<close>, the value
  \<open>x\<close>, the intrinsic \<open>llvm.sqrt.f32\<close>, the parameter \<open>n\<close> and the iterator \<open>c0\<close>: the
  closure is \<open>x\<close> and the intrinsic.
\<close>

definition closureStmt :: ScopStmt where
  "closureStmt =
     \<lparr>StmtName = ''Stmt_body'',
      Body = BlockStmt \<lparr>BlockName = ''body'', Instructions = []\<rparr>,
      References = [Val ''A'' (PointerTy FloatTy 0), Val ''x'' FloatTy,
                    FunctionValue (Function ''llvm.sqrt.f32'' True), Val ''n'' (IntegerTy 64)],
      SCEVValues = [Val ''c0'' (IntegerTy 64)]\<rparr>"

definition closureTree :: "unit isl_ast_node" where
  "closureTree =
     Node_user ''Stmt_body'' None (Some (Anno_kernel_stmt (ppcg_kernel_domain closureStmt)))"

definition closureKernel :: "unit ppcg_kernel" where
  "closureKernel = (exKernel 1 1)\<lparr>space_set_ids := [''c0'']\<rparr>"

definition closureState :: "unit GPUNodeBuilder" where
  "closureState =
     (newBuilder (exEnv False [progArray ''A'']))
       \<lparr>IDToValue := [(''n'', Val ''n'' (IntegerTy 64)), (''c0'', Val ''c0'' (IntegerTy 64))]\<rparr>"

lemma closure_filtered:
  "filteredReferences (exEnv False [progArray ''A'']) closureKernel (Some closureTree) closureState
     = Inr [Val ''x'' FloatTy, FunctionValue (Function ''llvm.sqrt.f32'' True)]"
  by (simp add: filteredReferences_def exEnv_def progArray_def exArray_def closureKernel_def
        exKernel_def closureTree_def closureStmt_def closureState_def newBuilder_def
        SetVector_insert_def SetVector_remove_def isPrefix_def addReferencesFromStmt_def)

lemma closure_references:
  "getReferencesInKernel (exEnv False [progArray ''A'']) closureKernel (Some closureTree)
       closureState
     = Inr ([Val ''x'' FloatTy], [Function ''llvm.sqrt.f32'' True])"
  by (simp add: getReferencesInKernel_def closure_filtered isValidSubtreeValue_def
        getFunctionsFromRawSubtreeValues_def SetVector_insert_def)

theorem getReferencesInKernel_closure_witness:
  "getReferencesInKernel (exEnv False [progArray ''A'']) closureKernel (Some closureTree)
       closureState
     = Inr ([Val ''x'' FloatTy], [Function ''llvm.sqrt.f32'' True])
   \<and> (\<exists>raw. filteredReferences (exEnv False [progArray ''A'']) closureKernel (Some closureTree)
              closureState = Inr raw
            \<and> set [Val ''x'' FloatTy] \<union> FunctionValue ` set [Function ''llvm.sqrt.f32'' True]
                = set raw)
   \<and> Val ''A'' (PointerTy FloatTy 0) \<notin>
       set [Val ''x'' FloatTy] \<union> FunctionValue ` set [Function ''llvm.sqrt.f32'' True]"
  using getReferencesInKernel_closure
          [of "exEnv False [progArray ''A'']" closureKernel "Some closureTree" closureState
              "[Val ''x'' FloatTy]" "[Function ''llvm.sqrt.f32'' True]"]
        closure_references
  by simp


subsection \<open>Functions a kernel cannot call\<close>











































subsection \<open>The launch parameters and the formal arguments\<close>
































subsection \<open>What the building of a kernel leaves alone\<close>

text \<open>
  The calls for device memory and the synchronisation among the emitted code, and what
  the statements below are about: the two depths and the numbers of these calls.
\<close>

fun isMemoryCall :: "'p Emitted \<Rightarrow> bool" where
  "isMemoryCall (polly_allocateMemoryForDevice a e) = True"
| "isMemoryCall (polly_freeDeviceMemory a) = True"
| "isMemoryCall (polly_copyFromHostToDevice a e) = True"
| "isMemoryCall (polly_copyFromDeviceToHost a e) = True"
| "isMemoryCall I = False"

fun isSynchronize :: "'p Emitted \<Rightarrow> bool" where
  "isSynchronize polly_synchronizeDevice = True"
| "isSynchronize I = False"

definition memoryCalls :: "(InsertPoint \<times> 'p Emitted) list \<Rightarrow> nat" where
  "memoryCalls code = length (filter (\<lambda>c. isMemoryCall (snd c)) code)"

definition synchronizeCalls :: "(InsertPoint \<times> 'p Emitted) list \<Rightarrow> nat" where
  "synchronizeCalls code = length (filter (\<lambda>c. isSynchronize (snd c)) code)"

definition tally :: "'p GPUNodeBuilder \<Rightarrow> nat \<times> nat \<times> nat \<times> nat" where
  "tally s =
     (DeepestSequential s, DeepestParallel s, memoryCalls (Code s), synchronizeCalls (Code s))"

lemma tally_same:
  "DeepestSequential t = DeepestSequential s \<Longrightarrow> DeepestParallel t = DeepestParallel s \<Longrightarrow>
     Code t = Code s \<Longrightarrow> tally t = tally s"
  by (simp add: tally_def)

lemma tally_emit:
  "\<not> isMemoryCall I \<Longrightarrow> \<not> isSynchronize I \<Longrightarrow> tally (emit I s) = tally s"
  by (simp add: tally_def emit_def memoryCalls_def synchronizeCalls_def)

lemma tally_getOrCreateAlloca: "tally (snd (getOrCreateAlloca Array s)) = tally s"
  by (rule tally_same) (simp_all add: getOrCreateAlloca_def Let_def split: option.splits)

lemma tally_getOrCreateManagedDeviceArray:
  assumes "getOrCreateManagedDeviceArray env Array s = Inr (v, s1)"
  shows "tally s1 = tally s"
proof (cases "map_of (DeviceAllocations s) (BasePtrId (user Array))")
  case (Some w)
  then show ?thesis using assms
    by (simp add: getOrCreateManagedDeviceArray_def split: if_splits)
next
  case None
  obtain HostPtr s0 where h: "(if gpu_array_is_scalar Array then getOrCreateAlloca (user Array) s
                    else (BasePtr (user Array), s)) = (HostPtr, s0)"
    by (cases "(if gpu_array_is_scalar Array then getOrCreateAlloca (user Array) s
                    else (BasePtr (user Array), s))")
  have s0: "tally s0 = tally s"
  proof (cases "gpu_array_is_scalar Array")
    case True
    then have "s0 = snd (getOrCreateAlloca (user Array) s)" using h by simp
    then show ?thesis by (simp add: tally_getOrCreateAlloca)
  next
    case False
    then show ?thesis using h by simp
  qed
  have "s1 = s0\<lparr>DeviceAllocations :=
                   AList.update (BasePtrId (user Array)) HostPtr (DeviceAllocations s0)\<rparr>"
    using assms None h
    by (auto simp: getOrCreateManagedDeviceArray_def split: if_splits sum.splits)
  then have "tally s1 = tally s0" by (simp add: tally_def)
  then show ?thesis using s0 by simp
qed

lemma tally_declareArrayArguments:
  "declareArrayArguments env fn js s = Inr s1 \<Longrightarrow> tally s1 = tally s"
proof (induction js arbitrary: s)
  case Nil
  then show ?case by simp
next
  case (Cons i js)
  then obtain s2 where a: "declareArrayArgument env fn i s = Inr s2"
    and r: "declareArrayArguments env fn js s2 = Inr s1"
    by (auto split: sum.splits)
  have "tally s2 = tally s"
    using a by (auto simp: declareArrayArgument_def Let_def tally_def split: if_splits)
  then show ?case using Cons.IH [OF r] by simp
qed

lemma tally_bindHostIterators: "tally (fold (bindHostIterator fn) Ids s) = tally s"
  by (induction Ids arbitrary: s) (simp_all add: bindHostIterator_def tally_def)

lemma tally_bindParameters: "bindParameters fn Ids s = Inr s1 \<Longrightarrow> tally s1 = tally s"
proof (induction Ids arbitrary: s)
  case Nil
  then show ?case by simp
next
  case (Cons ID Ids)
  then obtain s2 where a: "bindParameter fn ID s = Inr s2"
    and r: "bindParameters fn Ids s2 = Inr s1"
    by (auto split: sum.splits)
  have "tally s2 = tally s"
    using a by (auto simp: bindParameter_def Let_def tally_def split: sum.splits)
  then show ?case using Cons.IH [OF r] by simp
qed

lemma tally_mapSubtreeValues: "tally (fold (mapSubtreeValue fn) Vs s) = tally s"
  by (induction Vs arbitrary: s) (simp_all add: mapSubtreeValue_def tally_def)

lemma tally_createKernelFunctionDecl:
  assumes "createKernelFunctionDecl env Kernel SV s = Inr (F, s1)"
  shows "tally s1 = tally s"
proof -
  let ?fn = "getKernelFuncName env (kernel_id Kernel)"
  obtain s2 s3 where a: "declareArrayArguments env ?fn (requiredArrays env Kernel) s = Inr s2"
    and b: "bindParameters ?fn (space_param_ids Kernel)
              (fold (bindHostIterator ?fn) (space_set_ids Kernel) s2) = Inr s3"
    and c: "s1 = fold (mapSubtreeValue ?fn) SV s3"
    using assms unfolding createKernelFunctionDecl_def Let_def by (auto split: sum.splits)
  show ?thesis
    using tally_declareArrayArguments [OF a] tally_bindParameters [OF b] c
    by (simp add: tally_bindHostIterators tally_mapSubtreeValues)
qed

lemma tally_prepareKernelArgument: "tally (prepareKernelArgument env i s) = tally s"
  by (simp add: prepareKernelArgument_def Let_def tally_emit tally_getOrCreateAlloca)

lemma tally_prepareKernelArguments: "tally (prepareKernelArguments env Kernel s) = tally s"
proof -
  have "tally (fold (prepareKernelArgument env) js s) = tally s" for js
    by (induction js arbitrary: s) (simp_all add: tally_prepareKernelArgument)
  then show ?thesis by (simp add: prepareKernelArguments_def)
qed

lemma tally_createKernelVariables:
  "createKernelVariables fn Vars s = Inr s1 \<Longrightarrow> tally s1 = tally s"
proof (induction Vars arbitrary: s)
  case Nil
  then show ?case by simp
next
  case (Cons Var Vars)
  then obtain s2 where a: "createKernelVariable fn Var s = Inr s2"
    and r: "createKernelVariables fn Vars s2 = Inr s1"
    by (auto split: sum.splits)
  have "tally s2 = tally s"
    using a by (auto simp: createKernelVariable_def Let_def tally_def split: sum.splits)
  then show ?case using Cons.IH [OF r] by simp
qed

lemma tally_addIds: "addIds fn limit ids js s = Inr s1 \<Longrightarrow> tally s1 = tally s"
proof (induction js arbitrary: s)
  case Nil
  then show ?case by simp
next
  case (Cons i js)
  let ?s = "s\<lparr>IDToValue :=
              AList.update (ids ! i) (KernelValue fn (ids ! i) (IntegerTy 64)) (IDToValue s)\<rparr>"
  have "addIds fn limit ids js ?s = Inr s1" using Cons.prems by (simp split: if_splits)
  then have "tally s1 = tally ?s" by (rule Cons.IH)
  then show ?case by (simp add: tally_def)
qed

lemma tally_insertKernelIntrinsics:
  "insertKernelIntrinsics fn Kernel s = Inr s1 \<Longrightarrow> tally s1 = tally s"
  unfolding insertKernelIntrinsics_def
  by (auto split: sum.splits dest!: tally_addIds)

lemma tally_createKernelFunction:
  assumes "createKernelFunction env Kernel SV s = Inr s1"
  shows "tally s1 = tally s"
proof -
  obtain FN s2 s4 where a: "createKernelFunctionDecl env Kernel SV s = Inr (FN, s2)"
    and b: "createKernelVariables (FnName FN) (kernel_var Kernel)
              (prepareKernelArguments env Kernel
                 (s2\<lparr>GPUModule := Some FN, InsertPoint := KernelPoint (FnName FN)\<rparr>)) = Inr s4"
    and c: "insertKernelIntrinsics (FnName FN) Kernel s4 = Inr s1"
    using assms unfolding createKernelFunction_def Let_def by (auto split: sum.splits)
  have "tally (s2\<lparr>GPUModule := Some FN, InsertPoint := KernelPoint (FnName FN)\<rparr>) = tally s2"
    by (simp add: tally_def)
  then show ?thesis
    using tally_createKernelFunctionDecl [OF a] tally_createKernelVariables [OF b]
      tally_insertKernelIntrinsics [OF c]
    by (simp add: tally_prepareKernelArguments)
qed

lemma tally_setupKernelSubtreeFunctions:
  "setupKernelSubtreeFunctions Fns s = Inr s1 \<Longrightarrow> tally s1 = tally s"
proof (induction Fns arbitrary: s)
  case Nil
  then show ?case by simp
next
  case (Cons Fn Fns)
  let ?s = "s\<lparr>ValueMap := (ValueMap s)(FunctionValue Fn \<mapsto> FunctionValue Fn)\<rparr>"
  have "setupKernelSubtreeFunctions Fns ?s = Inr s1" using Cons.prems by (simp split: if_splits)
  then have "tally s1 = tally ?s" by (rule Cons.IH)
  then show ?case by (simp add: tally_def)
qed

lemma tally_enterKernel:
  assumes "enterKernel env Kernel tree s = Inr (ctx, s1)"
  shows "tally s1 = tally (updateDepths Kernel s)"
proof -
  let ?s0 = "updateDepths Kernel s"
  obtain Vals Fns s2 where "getReferencesInKernel env Kernel tree ?s0 = Inr (Vals, Fns)"
    and a: "createKernelFunction env Kernel Vals (?s0\<lparr>ScalarMap := Map.empty\<rparr>) = Inr s2"
    and b: "setupKernelSubtreeFunctions Fns s2 = Inr s1"
    using assms unfolding enterKernel_def Let_def by (auto split: sum.splits if_splits)
  have "tally (?s0\<lparr>ScalarMap := Map.empty\<rparr>) = tally ?s0" by (simp add: tally_def)
  then show ?thesis
    using tally_createKernelFunction [OF a] tally_setupKernelSubtreeFunctions [OF b] by simp
qed

lemma tally_storeBack: "tally (snd (storeBack env js b s)) = tally s"
  by (induction js arbitrary: b s)
     (simp_all add: Let_def tally_emit tally_getOrCreateAlloca)

lemma tally_finalizeKernelArguments: "tally (finalizeKernelArguments env Kernel s) = tally s"
proof -
  obtain b s1 where sb: "storeBack env (requiredArrays env Kernel) False s = (b, s1)"
    by (cases "storeBack env (requiredArrays env Kernel) False s")
  have "tally s1 = tally s"
    using tally_storeBack [of env "requiredArrays env Kernel" False s] sb by simp
  moreover have "tally (s1\<lparr>BuildSuccessful := False\<rparr>) = tally s1" by (simp add: tally_def)
  ultimately show ?thesis by (simp add: finalizeKernelArguments_def sb)
qed

lemma tally_finalizeKernelFunction:
  "finalizeKernelFunction env s = Inr (ASMString, s1) \<Longrightarrow> tally s1 = tally s"
  by (auto simp: finalizeKernelFunction_def tally_def split: option.splits if_splits)

lemma storeSlot_Builder: "storeSlot sz slot b L = Inr L1 \<Longrightarrow> Builder L1 = b"
  by (auto simp: storeSlot_def split: if_splits)

lemma tally_launchArrayArgument:
  assumes "launchArrayArgument env i L = Inr L1"
  shows "tally (Builder L1) = tally (Builder L)"
proof -
  let ?s = "Builder L"
  let ?A = "ProgArrays env ! i"
  let ?dev = "(if ManagedMemory env then
                 (case getOrCreateManagedDeviceArray env ?A ?s of
                    Inl e \<Rightarrow> Inl e
                  | Inr (DevArray, s1) \<Rightarrow> Inr s1)
               else
                 (case map_of (DeviceAllocations ?s) (BasePtrId (user ?A)) of
                    None \<Rightarrow> Inl (NullDereference ''DeviceAllocations[SAI]'')
                  | Some DevArray \<Rightarrow> Inr (createCallGetDevicePtr (array_name ?A) ?s)))"
  obtain s1 where dev: "?dev = Inr s1"
    and st: "(if gpu_array_is_read_only_scalar ?A then
               storeSlot (ElemSizeInBytes (user ?A)) (Slot_scalar (array_name ?A))
                 (if ManagedMemory env then s1 else snd (getOrCreateAlloca (user ?A) s1)) L
             else
               storeSlot (ElemSizeInBytes (user ?A)) (Slot_array (array_name ?A)) s1 L) = Inr L1"
    using assms unfolding launchArrayArgument_def Let_def
    by (cases ?dev; cases "getArrayOffset ?A") (simp_all split: if_splits)
  have s1: "tally s1 = tally ?s"
  proof (cases "ManagedMemory env")
    case True
    then obtain v where "getOrCreateManagedDeviceArray env ?A ?s = Inr (v, s1)"
      using dev by (auto split: sum.splits)
    then show ?thesis by (rule tally_getOrCreateManagedDeviceArray)
  next
    case False
    then show ?thesis using dev
      by (auto simp: createCallGetDevicePtr_def tally_emit split: option.splits)
  qed
  have "Builder L1 = s1 \<or> Builder L1 = snd (getOrCreateAlloca (user ?A) s1)"
    using st by (auto split: if_splits dest: storeSlot_Builder)
  then show ?thesis using s1 by (auto simp: tally_getOrCreateAlloca)
qed

lemma tally_launchArrayArguments:
  "launchArrayArguments env js L = Inr L1 \<Longrightarrow> tally (Builder L1) = tally (Builder L)"
proof (induction js arbitrary: L)
  case Nil
  then show ?case by simp
next
  case (Cons i js)
  then obtain L2 where a: "launchArrayArgument env i L = Inr L2"
    and r: "launchArrayArguments env js L2 = Inr L1"
    by (auto split: sum.splits)
  show ?case using tally_launchArrayArgument [OF a] Cons.IH [OF r] by simp
qed

lemma launchBoundValues_Builder: "launchBoundValues Ids L = Inr L1 \<Longrightarrow> Builder L1 = Builder L"
proof (induction Ids arbitrary: L)
  case Nil
  then show ?case by simp
next
  case (Cons ID Ids)
  then obtain v L2
    where st: "storeSlot (computeSizeInBytes (getType v)) (Slot_value v) (Builder L) L = Inr L2"
    and r: "launchBoundValues Ids L2 = Inr L1"
    by (auto split: sum.splits)
  show ?case using storeSlot_Builder [OF st] Cons.IH [OF r] by simp
qed

lemma launchSubtreeValues_Builder: "launchSubtreeValues vs L = Inr L1 \<Longrightarrow> Builder L1 = Builder L"
proof (induction vs arbitrary: L)
  case Nil
  then show ?case by simp
next
  case (Cons v vs)
  then obtain L2
    where st: "storeSlot (computeSizeInBytes (getType v)) (Slot_value v) (Builder L) L = Inr L2"
    and r: "launchSubtreeValues vs L2 = Inr L1"
    by (auto split: sum.splits)
  show ?case using storeSlot_Builder [OF st] Cons.IH [OF r] by simp
qed

lemma launchSizes_Builder: "Builder (launchSizes js L) = Builder L"
  by (induction js arbitrary: L) simp_all

text \<open>The builder after \<^verbatim>\<open>createLaunchParameters\<close> is the builder after its first loop.\<close>

lemma createLaunchParameters_Builder:
  assumes "createLaunchParameters env Kernel F SV t = Inr (Params, t1)"
  shows "\<exists>L1. launchArrayArguments env (requiredArrays env Kernel)
                \<lparr>Index = 0, ArgSizes = replicate (length (FnArgTypes F)) 0,
                 Parameters = replicate (2 * length (FnArgTypes F)) None, Builder = t\<rparr> = Inr L1
             \<and> t1 = Builder L1"
proof -
  let ?N = "length (FnArgTypes F)"
  let ?L0 = "\<lparr>Index = 0, ArgSizes = replicate ?N 0,
              Parameters = replicate (2 * ?N) None, Builder = t\<rparr>"
  obtain L1 L2 L3 L4
    where 1: "launchArrayArguments env (requiredArrays env Kernel) ?L0 = Inr L1"
      and 2: "launchBoundValues (space_set_ids Kernel) L1 = Inr L2"
      and 3: "launchBoundValues (space_param_ids Kernel) L2 = Inr L3"
      and 4: "launchSubtreeValues SV L3 = Inr L4"
      and P: "t1 = Builder (launchSizes [0..<?N] L4)"
    using assms unfolding createLaunchParameters_def Let_def
    by (auto split: sum.splits)
  have "t1 = Builder L1"
    using P launchBoundValues_Builder [OF 2] launchBoundValues_Builder [OF 3]
      launchSubtreeValues_Builder [OF 4]
    by (simp add: launchSizes_Builder)
  then show ?thesis using 1 by simp
qed

lemma tally_createLaunchParameters:
  assumes "createLaunchParameters env Kernel F SV t = Inr (Params, t1)"
  shows "tally t1 = tally t"
proof -
  from createLaunchParameters_Builder [OF assms] obtain L1
    where 1: "launchArrayArguments env (requiredArrays env Kernel)
                \<lparr>Index = 0, ArgSizes = replicate (length (FnArgTypes F)) 0,
                 Parameters = replicate (2 * length (FnArgTypes F)) None, Builder = t\<rparr> = Inr L1"
      and t1: "t1 = Builder L1"
    by blast
  show ?thesis using tally_launchArrayArguments [OF 1] t1 by simp
qed

lemma tally_leaveKernel:
  assumes "leaveKernel env Kernel ctx s = Inr s1"
  shows "tally s1 = tally s"
proof -
  let ?s1 = "finalizeKernelArguments env Kernel s"
  let ?Name = "getKernelFuncName env (kernel_id Kernel)"
  obtain F ASMString s3 Params s5
    where "GPUModule ?s1 = Some F"
      and a: "finalizeKernelFunction env (restoreHost ctx ?s1) = Inr (ASMString, s3)"
      and b: "createLaunchParameters env Kernel F (SubtreeValues ctx)
                (s3\<lparr>InsertPoint := HostInsertPoint ctx\<rparr>) = Inr (Params, s5)"
      and c: "s1 = (createCallFreeKernel ?Name
                     (createCallLaunchKernel ?Name (getGridSizes Kernel) (getBlockSizes Kernel)
                        Params (createCallGetKernel ?Name s5)))\<lparr>KernelIds := []\<rparr>"
    using assms unfolding leaveKernel_def Let_def
    by (auto split: option.splits sum.splits)
  have 1: "tally (restoreHost ctx ?s1) = tally s"
    using tally_finalizeKernelArguments [of env Kernel s] by (simp add: restoreHost_def tally_def)
  have 2: "tally (s3\<lparr>InsertPoint := HostInsertPoint ctx\<rparr>) = tally s3" by (simp add: tally_def)
  have 3: "tally s1 = tally s5"
    unfolding c
    by (simp add: tally_def createCallFreeKernel_def createCallLaunchKernel_def
          createCallGetKernel_def emit_def memoryCalls_def synchronizeCalls_def)
  show ?thesis
    using 1 2 3 tally_finalizeKernelFunction [OF a] tally_createLaunchParameters [OF b] by simp
qed

subsection \<open>The kernels and the transfers of a tree\<close>

text \<open>
  The kernels the walk meets in a tree, in its order: a user node named \<open>kernel\<close> with
  a kernel as its annotation, then the kernels of the tree of that kernel.
\<close>

fun kernelsOf :: "'p isl_ast_node \<Rightarrow> 'p ppcg_kernel list"
  and kernelsOfBlock :: "'p isl_ast_node list \<Rightarrow> 'p ppcg_kernel list"
  and kernelsOfUser :: "string \<Rightarrow> 'p annotation option \<Rightarrow> 'p ppcg_kernel list" where
  "kernelsOf (Node_user Str u Anno) = kernelsOfUser Str Anno"
| "kernelsOf (Node_block ns) = kernelsOfBlock ns"
| "kernelsOf (Node_for it body) = kernelsOf body"
| "kernelsOf (Node_if t e) = kernelsOf t @ (case e of None \<Rightarrow> [] | Some en \<Rightarrow> kernelsOf en)"
| "kernelsOfBlock [] = []"
| "kernelsOfBlock (n # ns) = kernelsOf n @ kernelsOfBlock ns"
| "kernelsOfUser Str None = []"
| "kernelsOfUser Str (Some (Anno_kernel Kernel tree)) =
     (if Str = ''kernel''
      then Kernel # (case tree of None \<Rightarrow> [] | Some t \<Rightarrow> kernelsOf t) else [])"
| "kernelsOfUser Str (Some (Anno_kernel_stmt KernelStmt)) = []"

text \<open>The number of nodes the walk meets that copy from the device.\<close>

fun fromDeviceNodes :: "'p isl_ast_node \<Rightarrow> nat"
  and fromDeviceNodesBlock :: "'p isl_ast_node list \<Rightarrow> nat"
  and fromDeviceNodesUser :: "string \<Rightarrow> 'p annotation option \<Rightarrow> nat" where
  "fromDeviceNodes (Node_user Str u Anno) = fromDeviceNodesUser Str Anno"
| "fromDeviceNodes (Node_block ns) = fromDeviceNodesBlock ns"
| "fromDeviceNodes (Node_for it body) = fromDeviceNodes body"
| "fromDeviceNodes (Node_if t e) =
     fromDeviceNodes t + (case e of None \<Rightarrow> 0 | Some en \<Rightarrow> fromDeviceNodes en)"
| "fromDeviceNodesBlock [] = 0"
| "fromDeviceNodesBlock (n # ns) = fromDeviceNodes n + fromDeviceNodesBlock ns"
| "fromDeviceNodesUser Str None = (if isPrefix Str ''from_device'' then 1 else 0)"
| "fromDeviceNodesUser Str (Some (Anno_kernel Kernel tree)) =
     (if Str = ''kernel'' then (case tree of None \<Rightarrow> 0 | Some t \<Rightarrow> fromDeviceNodes t)
      else if isPrefix Str ''from_device'' then 1 else 0)"
| "fromDeviceNodesUser Str (Some (Anno_kernel_stmt KernelStmt)) =
     (if isPrefix Str ''from_device'' then 1 else 0)"

lemma not_both_transfers: "isPrefix Str ''to_device'' \<Longrightarrow> \<not> isPrefix Str ''from_device''"
  by (cases Str) (simp_all add: isPrefix_def)

lemma kernel_no_transfer:
  "\<not> isPrefix ''kernel'' ''to_device''" "\<not> isPrefix ''kernel'' ''from_device''"
  by (simp_all add: isPrefix_def)

subsection \<open>The two depths\<close>

text \<open>
  The depth of a kernel is the number of set dimensions of its space; a kernel counts as
  parallel when it has more than one grid dimension.
\<close>

definition depthOf :: "'p ppcg_kernel \<Rightarrow> nat" where
  "depthOf Kernel = length (space_set_ids Kernel)"

definition deepest :: "'p ppcg_kernel list \<Rightarrow> nat" where
  "deepest Ks = foldr (\<lambda>K d. max (depthOf K) d) Ks 0"

definition parallelKernels :: "'p isl_ast_node \<Rightarrow> 'p ppcg_kernel list" where
  "parallelKernels Root = filter (\<lambda>K. 1 < n_grid K) (kernelsOf Root)"

definition sequentialKernels :: "'p isl_ast_node \<Rightarrow> 'p ppcg_kernel list" where
  "sequentialKernels Root = filter (\<lambda>K. \<not> 1 < n_grid K) (kernelsOf Root)"

definition depths :: "'p GPUNodeBuilder \<Rightarrow> nat \<times> nat" where
  "depths s = (DeepestSequential s, DeepestParallel s)"

definition deepen :: "'p ppcg_kernel list \<Rightarrow> nat \<times> nat \<Rightarrow> nat \<times> nat" where
  "deepen Ks d =
     (max (fst d) (deepest (filter (\<lambda>K. \<not> 1 < n_grid K) Ks)),
      max (snd d) (deepest (filter (\<lambda>K. 1 < n_grid K) Ks)))"

lemma deepest_append: "deepest (xs @ ys) = max (deepest xs) (deepest ys)"
  by (induction xs) (simp_all add: deepest_def)

lemma deepen_Nil: "deepen [] d = d"
  by (simp add: deepen_def deepest_def)

lemma deepen_append: "deepen (xs @ ys) d = deepen ys (deepen xs d)"
  by (simp add: deepen_def deepest_append max.assoc)

lemma deepen_Cons: "deepen (K # Ks) d = deepen Ks (deepen [K] d)"
  using deepen_append [of "[K]" Ks d] by simp

lemma depths_tally: "tally t = tally s \<Longrightarrow> depths t = depths s"
  by (simp add: tally_def depths_def)

lemma depths_updateDepths: "depths (updateDepths Kernel s) = deepen [Kernel] (depths s)"
  by (simp add: updateDepths_def depths_def deepen_def deepest_def depthOf_def)

lemma depths_emit: "depths (emit I s) = depths s"
  by (simp add: depths_def emit_def)

lemma depths_getOrCreateAlloca: "depths (snd (getOrCreateAlloca Array s)) = depths s"
  by (rule depths_tally) (rule tally_getOrCreateAlloca)

lemma depths_copy:
  "createCallCopyFromHostToDevice env a e s = Inr s1 \<Longrightarrow> depths s1 = depths s"
  "createCallCopyFromDeviceToHost env a e s = Inr s1 \<Longrightarrow> depths s1 = depths s"
  by (auto simp: createCallCopyFromHostToDevice_def createCallCopyFromDeviceToHost_def
        depths_emit split: if_splits)

lemma depths_createDataTransfer:
  "createDataTransfer env u Direction s = Inr s1 \<Longrightarrow> depths s1 = depths s"
  unfolding createDataTransfer_def Let_def
  by (auto simp: depths_getOrCreateAlloca split: if_splits option.splits sum.splits
           dest!: depths_copy)

lemma depths_createCallSynchronizeDevice:
  "createCallSynchronizeDevice env s = Inr s1 \<Longrightarrow> depths s1 = depths s"
  by (auto simp: createCallSynchronizeDevice_def depths_def emit_def split: if_splits)

lemma depths_transfer:
  assumes "(if isPrefix Str ''to_device'' then
              (if \<not> ManagedMemory env then createDataTransfer env u HOST_TO_DEVICE s else Inr s)
            else if isPrefix Str ''from_device'' then
              (if \<not> ManagedMemory env then createDataTransfer env u DEVICE_TO_HOST s
               else createCallSynchronizeDevice env s)
            else other) = Inr s1"
    and "\<not> isPrefix Str ''to_device'' \<Longrightarrow> \<not> isPrefix Str ''from_device'' \<Longrightarrow>
           other = Inr s1 \<Longrightarrow> depths s1 = depths s"
  shows "depths s1 = depths s"
  using assms
  by (auto split: if_splits
      dest: depths_createDataTransfer depths_createCallSynchronizeDevice)

lemma depths_kernel_stmt:
  "(case KernelStmt of
      ppcg_kernel_domain Stmt \<Rightarrow> Inr (createScopStmt Stmt s)
    | ppcg_kernel_copy read \<Rightarrow> Inr (createKernelCopy read s)
    | ppcg_kernel_sync \<Rightarrow> Inr (createKernelSync s)) = Inr s1 \<Longrightarrow> depths s1 = depths s"
  by (cases KernelStmt)
     (auto simp: createScopStmt_def createKernelCopy_def createKernelSync_def emit_def depths_def)

lemma create_depths:
  "\<forall>s1. create env node s = Inr s1 \<longrightarrow> depths s1 = deepen (kernelsOf node) (depths s)"
  "\<forall>s1. createBlock env ns s = Inr s1 \<longrightarrow> depths s1 = deepen (kernelsOfBlock ns) (depths s)"
  "\<forall>s1. createUser env Str u Anno s = Inr s1 \<longrightarrow>
         depths s1 = deepen (kernelsOfUser Str Anno) (depths s)"
  "\<forall>s1. createKernel env Kernel tree s = Inr s1 \<longrightarrow>
         depths s1 = deepen (Kernel # (case tree of None \<Rightarrow> [] | Some t \<Rightarrow> kernelsOf t))
                       (depths s)"
proof (induction env node s and env ns s and env Str u Anno s and env Kernel tree s
       rule: create_createBlock_createUser_createKernel.induct)
  case (1 env Str u Anno s)
  then show ?case by simp
next
  case (2 env ns s)
  then show ?case by simp
next
  case (3 env it body s)
  show ?case
  proof (intro allI impI)
    fix s1
    assume a: "create env (Node_for it body) s = Inr s1"
    let ?s = "s\<lparr>IDToValue := AList.update it (loopIV it s) (IDToValue s)\<rparr>"
    obtain s2 where b: "create env body ?s = Inr s2"
      and c: "s1 = s2\<lparr>IDToValue := AList.delete it (IDToValue s2)\<rparr>"
      using a by (auto split: sum.splits)
    have "depths s2 = deepen (kernelsOf body) (depths ?s)" using 3 b by simp
    then show "depths s1 = deepen (kernelsOf (Node_for it body)) (depths s)"
      using c by (simp add: depths_def)
  qed
next
  case (4 env t e s)
  show ?case
  proof (intro allI impI)
    fix s1
    assume a: "create env (Node_if t e) s = Inr s1"
    obtain s2 where b: "create env t s = Inr s2"
      and c: "(case e of None \<Rightarrow> Inr s2 | Some en \<Rightarrow> create env en s2) = Inr s1"
      using a by (auto split: sum.splits)
    have d: "depths s2 = deepen (kernelsOf t) (depths s)" using 4(1) b by simp
    show "depths s1 = deepen (kernelsOf (Node_if t e)) (depths s)"
    proof (cases e)
      case None
      then show ?thesis using c d by (simp add: deepen_append deepen_Nil)
    next
      case (Some en)
      then have "create env en s2 = Inr s1" using c by simp
      then have "depths s1 = deepen (kernelsOf en) (depths s2)" using 4(2) [OF b Some] by simp
      then show ?thesis using d Some by (simp add: deepen_append)
    qed
  qed
next
  case (5 env s)
  then show ?case by (simp add: deepen_Nil)
next
  case (6 env n ns s)
  show ?case
  proof (intro allI impI)
    fix s1
    assume a: "createBlock env (n # ns) s = Inr s1"
    obtain s2 where b: "create env n s = Inr s2" and c: "createBlock env ns s2 = Inr s1"
      using a by (auto split: sum.splits)
    have "depths s2 = deepen (kernelsOf n) (depths s)" using 6(1) b by simp
    moreover have "depths s1 = deepen (kernelsOfBlock ns) (depths s2)" using 6(2) [OF b] c by simp
    ultimately show "depths s1 = deepen (kernelsOfBlock (n # ns)) (depths s)"
      by (simp add: deepen_append)
  qed
next
  case (7 env Str u s)
  show ?case
  proof (intro allI impI)
    fix s1
    assume a: "createUser env Str u None s = Inr s1"
    have k: "Str \<noteq> ''kernel''" using a by auto
    have "depths s1 = depths s"
      by (rule depths_transfer [where other = "Inl (NullDereference ''KernelStmt'')"])
         (use a k in simp_all)
    then show "depths s1 = deepen (kernelsOfUser Str None) (depths s)" by (simp add: deepen_Nil)
  qed
next
  case (8 env Str u Kernel tree s)
  show ?case
  proof (intro allI impI)
    fix s1
    assume a: "createUser env Str u (Some (Anno_kernel Kernel tree)) s = Inr s1"
    show "depths s1 = deepen (kernelsOfUser Str (Some (Anno_kernel Kernel tree))) (depths s)"
    proof (cases "Str = ''kernel''")
      case True
      then have "createKernel env Kernel tree s = Inr s1" using a by simp
      then show ?thesis using 8 True by simp
    next
      case False
      have "depths s1 = depths s"
        by (rule depths_transfer [where other = "Inl (NullDereference ''KernelStmt'')"])
           (use a False in simp_all)
      then show ?thesis using False by (simp add: deepen_Nil)
    qed
  qed
next
  case (9 env Str u KernelStmt s)
  show ?case
  proof (intro allI impI)
    fix s1
    assume a: "createUser env Str u (Some (Anno_kernel_stmt KernelStmt)) s = Inr s1"
    have k: "Str \<noteq> ''kernel''" using a by auto
    have "depths s1 = depths s"
      by (rule depths_transfer
            [where other = "(case KernelStmt of
                               ppcg_kernel_domain Stmt \<Rightarrow> Inr (createScopStmt Stmt s)
                             | ppcg_kernel_copy read \<Rightarrow> Inr (createKernelCopy read s)
                             | ppcg_kernel_sync \<Rightarrow> Inr (createKernelSync s))"])
         (use a k depths_kernel_stmt in simp_all)
    then show "depths s1 = deepen (kernelsOfUser Str (Some (Anno_kernel_stmt KernelStmt))) (depths s)"
      by (simp add: deepen_Nil)
  qed
next
  case (10 env Kernel tree s)
  show ?case
  proof (intro allI impI)
    fix s1
    assume a: "createKernel env Kernel tree s = Inr s1"
    obtain ctx s2 t s3 where e: "enterKernel env Kernel tree s = Inr (ctx, s2)"
      and t: "tree = Some t" and c: "create env t s2 = Inr s3"
      and l: "leaveKernel env Kernel ctx s3 = Inr s1"
      using a by (auto split: sum.splits option.splits)
    have 1: "depths s2 = deepen [Kernel] (depths s)"
      using depths_tally [OF tally_enterKernel [OF e]] by (simp add: depths_updateDepths)
    have 2: "depths s3 = deepen (kernelsOf t) (depths s2)"
      using 10 [OF e refl t] c by simp
    have 3: "depths s1 = depths s3" using depths_tally [OF tally_leaveKernel [OF l]] .
    show "depths s1 = deepen (Kernel # (case tree of None \<Rightarrow> [] | Some t \<Rightarrow> kernelsOf t))
                       (depths s)"
      using 1 2 3 t deepen_Cons [of Kernel "kernelsOf t" "depths s"] by simp
  qed
qed

lemma depths_allocateArrays:
  "allocateArrays env Arrays s = Inr s1 \<Longrightarrow> depths s1 = depths s"
proof (induction Arrays arbitrary: s)
  case Nil
  then show ?case by simp
next
  case (Cons Array Arrays)
  then obtain sz off s2
    where a: "createCallAllocateMemoryForDevice env (array_name Array)
                (sizeLessOffset Array sz off) s = Inr s2"
      and r: "allocateArrays env Arrays
                (s2\<lparr>DeviceAllocations :=
                     AList.update (BasePtrId (user Array))
                       (Val (''p_dev_array_'' @ array_name Array) (PointerTy (IntegerTy 8) 0))
                       (DeviceAllocations s2)\<rparr>) = Inr s1"
    by (auto split: sum.splits)
  have "depths s2 = depths s"
    using a by (auto simp: createCallAllocateMemoryForDevice_def depths_emit split: if_splits)
  then show ?case using Cons.IH [OF r] by (simp add: depths_def)
qed

lemma depths_freeArrays: "freeArrays env Arrays s = Inr s1 \<Longrightarrow> depths s1 = depths s"
proof (induction Arrays arbitrary: s)
  case Nil
  then show ?case by simp
next
  case (Cons Array Arrays)
  then obtain s2 where a: "createCallFreeDeviceMemory env (getName (snd Array)) s = Inr s2"
    and r: "freeArrays env Arrays s2 = Inr s1"
    by (auto split: sum.splits)
  have "depths s2 = depths s"
    using a by (auto simp: createCallFreeDeviceMemory_def depths_emit split: if_splits)
  then show ?case using Cons.IH [OF r] by simp
qed

lemma depths_initializeAfterRTH:
  assumes "initializeAfterRTH env s = Inr s1"
  shows "depths s1 = depths s"
proof -
  let ?s = "createCallInitContext env (s\<lparr>InsertPoint := HostPoint ''polly.acc.initialize''\<rparr>)"
  have 0: "depths ?s = depths s"
    by (simp add: createCallInitContext_def emit_def depths_def)
  show ?thesis
  proof (cases "ManagedMemory env")
    case True
    then show ?thesis using assms 0 by (simp add: initializeAfterRTH_def)
  next
    case False
    then have "allocateArrays env (ProgArrays env) ?s = Inr s1"
      using assms by (simp add: initializeAfterRTH_def allocateDeviceArrays_def)
    then show ?thesis using 0 depths_allocateArrays by fastforce
  qed
qed

lemma depths_finalize:
  assumes "finalize env s = Inr s1"
  shows "depths s1 = depths s"
proof (cases "ManagedMemory env")
  case True
  then show ?thesis using assms
    by (auto simp: finalize_def createCallFreeContext_def depths_emit)
next
  case False
  then obtain s2 where a: "freeArrays env (DeviceAllocations s) s = Inr s2"
    and b: "s1 = createCallFreeContext s2"
    using assms by (auto simp: finalize_def freeDeviceArrays_def split: sum.splits)
  show ?thesis using depths_freeArrays [OF a] b by (simp add: createCallFreeContext_def depths_emit)
qed

lemma generateCode_depths:
  assumes "generateCode env Root = Inr (g, s)"
  shows "depths s = deepen (kernelsOf Root) (0, 0)" and "g = finalGuard s"
proof -
  obtain s1 s2 where i: "initializeAfterRTH env (newBuilder env) = Inr s1"
    and c: "create env Root s1 = Inr s2" and f: "finalize env s2 = Inr s"
    and g: "g = finalGuard s"
    using assms unfolding generateCode_def by (auto split: sum.splits)
  have "depths s1 = (0, 0)"
    using depths_initializeAfterRTH [OF i] by (simp add: depths_def newBuilder_def)
  moreover have "depths s2 = deepen (kernelsOf Root) (depths s1)"
    using create_depths(1) [of env Root s1] c by simp
  ultimately show "depths s = deepen (kernelsOf Root) (0, 0)"
    using depths_finalize [OF f] by simp
  show "g = finalGuard s" by (rule g)
qed

text \<open>
  Claim C10. After \<^verbatim>\<open>generateCode\<close>, the deepest parallel depth is the largest depth of
  a kernel of the tree with more than one grid dimension and the deepest sequential
  depth is the largest depth of any other kernel of the tree (\<open>0\<close> when there is none).
  The guard is the constant false exactly when the deepest sequential depth exceeds the
  deepest parallel depth or the build failed; so it is the constant false for a
  successful build whose deepest sequential kernel is deeper than every parallel one.
\<close>

theorem generateCode_guard:
  assumes "generateCode env Root = Inr (g, s)"
  shows "DeepestParallel s = deepest (parallelKernels Root)
       \<and> DeepestSequential s = deepest (sequentialKernels Root)
       \<and> (g = ConstFalse) =
           (deepest (parallelKernels Root) < deepest (sequentialKernels Root)
            \<or> \<not> BuildSuccessful s)
       \<and> (g = RTC) =
           (deepest (sequentialKernels Root) \<le> deepest (parallelKernels Root)
            \<and> BuildSuccessful s)"
proof -
  have d: "depths s = deepen (kernelsOf Root) (0, 0)" and g: "g = finalGuard s"
    using generateCode_depths [OF assms] by simp_all
  have p: "DeepestParallel s = deepest (parallelKernels Root)"
    and q: "DeepestSequential s = deepest (sequentialKernels Root)"
    using d by (simp_all add: depths_def deepen_def parallelKernels_def sequentialKernels_def)
  show ?thesis using p q g by (auto simp: finalGuard_def Let_def)
qed

text \<open>
  A region with one kernel with a single grid dimension inside a loop over \<open>c0\<close>: the
  build succeeds, the deepest sequential depth is \<open>1\<close>, there is no parallel kernel, and
  the guard is the constant false.
\<close>

definition exStmt :: ScopStmt where
  "exStmt =
     \<lparr>StmtName = ''Stmt_body'',
      Body = BlockStmt \<lparr>BlockName = ''body'', Instructions = []\<rparr>,
      References = [Val ''A'' (PointerTy FloatTy 0)], SCEVValues = []\<rparr>"

definition exKernelNode :: "unit ppcg_kernel \<Rightarrow> unit isl_ast_node" where
  "exKernelNode Kernel =
     Node_user ''kernel'' None
       (Some (Anno_kernel Kernel
          (Some (Node_user ''Stmt_body'' None
                   (Some (Anno_kernel_stmt (ppcg_kernel_domain exStmt)))))))"

definition seqRoot :: "unit isl_ast_node" where
  "seqRoot = Node_for ''c0'' (exKernelNode ((exKernel 1 1)\<lparr>space_set_ids := [''c0'']\<rparr>))"

lemma seqRoot_generated:
  "map_sum id (\<lambda>r. (fst r, BuildSuccessful (snd r)))
     (generateCode (exEnv False [progArray ''A'']) seqRoot) = Inr (ConstFalse, True)"
  by code_simp

lemma seqRoot_depths:
  "deepest (sequentialKernels seqRoot) = 1" "deepest (parallelKernels seqRoot) = 0"
  by (simp_all add: seqRoot_def exKernelNode_def sequentialKernels_def parallelKernels_def
        exKernel_def deepest_def depthOf_def)

theorem generateCode_guard_witness:
  "\<exists>s. generateCode (exEnv False [progArray ''A'']) seqRoot = Inr (ConstFalse, s)
      \<and> BuildSuccessful s \<and> DeepestSequential s = 1 \<and> DeepestParallel s = 0"
proof -
  obtain s where g: "generateCode (exEnv False [progArray ''A'']) seqRoot = Inr (ConstFalse, s)"
    and b: "BuildSuccessful s"
    using seqRoot_generated
    by (cases "generateCode (exEnv False [progArray ''A'']) seqRoot") auto
  have "DeepestSequential s = 1 \<and> DeepestParallel s = 0"
    using generateCode_guard [OF g] by (simp add: seqRoot_depths)
  then show ?thesis using g b by blast
qed


subsection \<open>Managed memory: no memory calls, one synchronisation for each copy back\<close>

definition calls :: "'p GPUNodeBuilder \<Rightarrow> nat \<times> nat" where
  "calls s = (memoryCalls (Code s), synchronizeCalls (Code s))"

definition synced :: "nat \<Rightarrow> nat \<times> nat \<Rightarrow> nat \<times> nat" where
  "synced n c = (fst c, snd c + n)"

lemma synced_0: "synced 0 c = c"
  by (simp add: synced_def)

lemma synced_add: "synced (a + b) c = synced b (synced a c)"
  by (simp add: synced_def)

lemma calls_tally: "tally t = tally s \<Longrightarrow> calls t = calls s"
  by (simp add: tally_def calls_def)

lemma calls_updateDepths: "calls (updateDepths Kernel s) = calls s"
  by (simp add: updateDepths_def calls_def)

lemma calls_createCallSynchronizeDevice:
  "createCallSynchronizeDevice env s = Inr s1 \<Longrightarrow> calls s1 = synced 1 (calls s)"
  by (auto simp: createCallSynchronizeDevice_def calls_def synced_def emit_def
        memoryCalls_def synchronizeCalls_def split: if_splits)

lemma calls_transfer:
  assumes "ManagedMemory env"
    and "(if isPrefix Str ''to_device'' then
              (if \<not> ManagedMemory env then createDataTransfer env u HOST_TO_DEVICE s else Inr s)
            else if isPrefix Str ''from_device'' then
              (if \<not> ManagedMemory env then createDataTransfer env u DEVICE_TO_HOST s
               else createCallSynchronizeDevice env s)
            else other) = Inr s1"
    and "\<not> isPrefix Str ''to_device'' \<Longrightarrow> \<not> isPrefix Str ''from_device'' \<Longrightarrow>
           other = Inr s1 \<Longrightarrow> calls s1 = calls s"
  shows "calls s1 = synced (if isPrefix Str ''from_device'' then 1 else 0) (calls s)"
proof (cases "isPrefix Str ''to_device''")
  case True
  then have "s1 = s" using assms(1,2) by simp
  then show ?thesis using not_both_transfers [OF True] by (simp add: synced_0)
next
  case False
  show ?thesis
  proof (cases "isPrefix Str ''from_device''")
    case True
    then have "createCallSynchronizeDevice env s = Inr s1" using assms(1,2) False by simp
    then show ?thesis using True by (simp add: calls_createCallSynchronizeDevice)
  next
    case no: False
    then have "other = Inr s1" using assms(2) False by simp
    then show ?thesis using assms(3) False no by (simp add: synced_0)
  qed
qed

lemma calls_kernel_stmt:
  "(case KernelStmt of
      ppcg_kernel_domain Stmt \<Rightarrow> Inr (createScopStmt Stmt s)
    | ppcg_kernel_copy read \<Rightarrow> Inr (createKernelCopy read s)
    | ppcg_kernel_sync \<Rightarrow> Inr (createKernelSync s)) = Inr s1 \<Longrightarrow> calls s1 = calls s"
  by (cases KernelStmt)
     (auto simp: createScopStmt_def createKernelCopy_def createKernelSync_def emit_def calls_def
        memoryCalls_def synchronizeCalls_def)

lemma create_calls:
  "ManagedMemory env \<longrightarrow>
     (\<forall>s1. create env node s = Inr s1 \<longrightarrow> calls s1 = synced (fromDeviceNodes node) (calls s))"
  "ManagedMemory env \<longrightarrow>
     (\<forall>s1. createBlock env ns s = Inr s1 \<longrightarrow>
        calls s1 = synced (fromDeviceNodesBlock ns) (calls s))"
  "ManagedMemory env \<longrightarrow>
     (\<forall>s1. createUser env Str u Anno s = Inr s1 \<longrightarrow>
        calls s1 = synced (fromDeviceNodesUser Str Anno) (calls s))"
  "ManagedMemory env \<longrightarrow>
     (\<forall>s1. createKernel env Kernel tree s = Inr s1 \<longrightarrow>
        calls s1 = synced (case tree of None \<Rightarrow> 0 | Some t \<Rightarrow> fromDeviceNodes t) (calls s))"
proof (induction env node s and env ns s and env Str u Anno s and env Kernel tree s
       rule: create_createBlock_createUser_createKernel.induct)
  case (1 env Str u Anno s)
  then show ?case by simp
next
  case (2 env ns s)
  then show ?case by simp
next
  case (3 env it body s)
  show ?case
  proof (intro allI impI)
    fix s1
    assume m: "ManagedMemory env" and a: "create env (Node_for it body) s = Inr s1"
    let ?s = "s\<lparr>IDToValue := AList.update it (loopIV it s) (IDToValue s)\<rparr>"
    obtain s2 where b: "create env body ?s = Inr s2"
      and c: "s1 = s2\<lparr>IDToValue := AList.delete it (IDToValue s2)\<rparr>"
      using a by (auto split: sum.splits)
    have "calls s2 = synced (fromDeviceNodes body) (calls ?s)" using 3 m b by simp
    then show "calls s1 = synced (fromDeviceNodes (Node_for it body)) (calls s)"
      using c by (simp add: calls_def)
  qed
next
  case (4 env t e s)
  show ?case
  proof (intro allI impI)
    fix s1
    assume m: "ManagedMemory env" and a: "create env (Node_if t e) s = Inr s1"
    obtain s2 where b: "create env t s = Inr s2"
      and c: "(case e of None \<Rightarrow> Inr s2 | Some en \<Rightarrow> create env en s2) = Inr s1"
      using a by (auto split: sum.splits)
    have d: "calls s2 = synced (fromDeviceNodes t) (calls s)" using 4(1) m b by simp
    show "calls s1 = synced (fromDeviceNodes (Node_if t e)) (calls s)"
    proof (cases e)
      case None
      then show ?thesis using c d by simp
    next
      case (Some en)
      then have "create env en s2 = Inr s1" using c by simp
      then have "calls s1 = synced (fromDeviceNodes en) (calls s2)"
        using 4(2) [OF b Some] m by simp
      then show ?thesis using d Some by (simp add: synced_add)
    qed
  qed
next
  case (5 env s)
  then show ?case by (simp add: synced_0)
next
  case (6 env n ns s)
  show ?case
  proof (intro allI impI)
    fix s1
    assume m: "ManagedMemory env" and a: "createBlock env (n # ns) s = Inr s1"
    obtain s2 where b: "create env n s = Inr s2" and c: "createBlock env ns s2 = Inr s1"
      using a by (auto split: sum.splits)
    have "calls s2 = synced (fromDeviceNodes n) (calls s)" using 6(1) m b by simp
    moreover have "calls s1 = synced (fromDeviceNodesBlock ns) (calls s2)"
      using 6(2) [OF b] m c by simp
    ultimately show "calls s1 = synced (fromDeviceNodesBlock (n # ns)) (calls s)"
      by (simp add: synced_add)
  qed
next
  case (7 env Str u s)
  show ?case
  proof (intro allI impI)
    fix s1
    assume m: "ManagedMemory env" and a: "createUser env Str u None s = Inr s1"
    have k: "Str \<noteq> ''kernel''" using a by auto
    have "calls s1 = synced (if isPrefix Str ''from_device'' then 1 else 0) (calls s)"
      by (rule calls_transfer [OF m, where other = "Inl (NullDereference ''KernelStmt'')"])
         (use a k in simp_all)
    then show "calls s1 = synced (fromDeviceNodesUser Str None) (calls s)" by simp
  qed
next
  case (8 env Str u Kernel tree s)
  show ?case
  proof (intro allI impI)
    fix s1
    assume m: "ManagedMemory env"
      and a: "createUser env Str u (Some (Anno_kernel Kernel tree)) s = Inr s1"
    show "calls s1 = synced (fromDeviceNodesUser Str (Some (Anno_kernel Kernel tree))) (calls s)"
    proof (cases "Str = ''kernel''")
      case True
      then have "createKernel env Kernel tree s = Inr s1" using a by simp
      then show ?thesis using 8 m True by simp
    next
      case False
      have "calls s1 = synced (if isPrefix Str ''from_device'' then 1 else 0) (calls s)"
        by (rule calls_transfer [OF m, where other = "Inl (NullDereference ''KernelStmt'')"])
           (use a False in simp_all)
      then show ?thesis using False by simp
    qed
  qed
next
  case (9 env Str u KernelStmt s)
  show ?case
  proof (intro allI impI)
    fix s1
    assume m: "ManagedMemory env"
      and a: "createUser env Str u (Some (Anno_kernel_stmt KernelStmt)) s = Inr s1"
    have k: "Str \<noteq> ''kernel''" using a by auto
    have "calls s1 = synced (if isPrefix Str ''from_device'' then 1 else 0) (calls s)"
      by (rule calls_transfer
            [OF m, where other = "(case KernelStmt of
                               ppcg_kernel_domain Stmt \<Rightarrow> Inr (createScopStmt Stmt s)
                             | ppcg_kernel_copy read \<Rightarrow> Inr (createKernelCopy read s)
                             | ppcg_kernel_sync \<Rightarrow> Inr (createKernelSync s))"])
         (use a k calls_kernel_stmt in simp_all)
    then show "calls s1 =
        synced (fromDeviceNodesUser Str (Some (Anno_kernel_stmt KernelStmt))) (calls s)"
      by simp
  qed
next
  case (10 env Kernel tree s)
  show ?case
  proof (intro allI impI)
    fix s1
    assume m: "ManagedMemory env" and a: "createKernel env Kernel tree s = Inr s1"
    obtain ctx s2 t s3 where e: "enterKernel env Kernel tree s = Inr (ctx, s2)"
      and t: "tree = Some t" and c: "create env t s2 = Inr s3"
      and l: "leaveKernel env Kernel ctx s3 = Inr s1"
      using a by (auto split: sum.splits option.splits)
    have 1: "calls s2 = calls s"
      using calls_tally [OF tally_enterKernel [OF e]] by (simp add: calls_updateDepths)
    have 2: "calls s3 = synced (fromDeviceNodes t) (calls s2)"
      using 10 [OF e refl t] m c by simp
    have 3: "calls s1 = calls s3" using calls_tally [OF tally_leaveKernel [OF l]] .
    show "calls s1 = synced (case tree of None \<Rightarrow> 0 | Some t \<Rightarrow> fromDeviceNodes t) (calls s)"
      using 1 2 3 t by simp
  qed
qed

lemma generateCode_calls:
  assumes "ManagedMemory env" and "generateCode env Root = Inr (g, s)"
  shows "calls s = (0, fromDeviceNodes Root)"
proof -
  obtain s1 s2 where i: "initializeAfterRTH env (newBuilder env) = Inr s1"
    and c: "create env Root s1 = Inr s2" and f: "finalize env s2 = Inr s"
    using assms(2) unfolding generateCode_def by (auto split: sum.splits)
  have "calls s1 = (0, 0)"
    using i assms(1)
    by (auto simp: initializeAfterRTH_def createCallInitContext_def emit_def newBuilder_def
          calls_def memoryCalls_def synchronizeCalls_def)
  moreover have "calls s2 = synced (fromDeviceNodes Root) (calls s1)"
    using create_calls(1) [of env Root s1] assms(1) c by simp
  moreover have "calls s = calls s2"
    using f assms(1)
    by (auto simp: finalize_def createCallFreeContext_def emit_def calls_def memoryCalls_def
          synchronizeCalls_def)
  ultimately show ?thesis by (simp add: synced_def)
qed

text \<open>
  Claim C5. In managed-memory mode the code \<^verbatim>\<open>generateCode\<close> emits (by
  \<^verbatim>\<open>initializeAfterRTH\<close>, the walk over the tree and \<^verbatim>\<open>finalize\<close>) contains no call
  that allocates or frees device memory or copies between host and device, and the
  number of synchronisation calls in it is the number of user nodes of the tree whose
  name starts with \<open>from_device\<close>; a node whose name starts with \<open>to_device\<close> emits
  nothing.
\<close>

theorem managed_memory_calls:
  assumes "ManagedMemory env" and "generateCode env Root = Inr (g, s)"
  shows "(\<forall>c \<in> set (Code s). \<not> isMemoryCall (snd c))
       \<and> synchronizeCalls (Code s) = fromDeviceNodes Root"
proof -
  have c: "calls s = (0, fromDeviceNodes Root)" using generateCode_calls [OF assms] .
  then have "filter (\<lambda>c. isMemoryCall (snd c)) (Code s) = []"
    by (simp add: calls_def memoryCalls_def)
  then have "\<forall>c \<in> set (Code s). \<not> isMemoryCall (snd c)"
    by (simp add: filter_empty_conv)
  then show ?thesis using c by (simp add: calls_def)
qed

text \<open>
  A region in managed-memory mode: the array \<open>A\<close> is copied to the device, a kernel runs,
  and \<open>A\<close> is copied back. The code is the initialisation of the context, the statement
  in the kernel, the three calls that launch the kernel, one synchronisation and the
  release of the context.
\<close>

definition managedRoot :: "unit isl_ast_node" where
  "managedRoot =
     Node_block
       [Node_user ''to_device_MemRef_A'' (Some 0) None,
        exKernelNode (exKernel 2 1),
        Node_user ''from_device_MemRef_A'' (Some 0) None]"

lemma managedRoot_generated:
  "map_sum id (\<lambda>r. map (\<lambda>c. isSynchronize (snd c)) (Code (snd r)))
     (generateCode (exEnv True [progArray ''A'']) managedRoot)
     = Inr [False, False, False, False, False, True, False]"
  by code_simp

theorem managed_memory_calls_witness:
  "\<exists>g s. generateCode (exEnv True [progArray ''A'']) managedRoot = Inr (g, s)
        \<and> ManagedMemory (exEnv True [progArray ''A''])
        \<and> fromDeviceNodes managedRoot = 1
        \<and> synchronizeCalls (Code s) = 1
        \<and> length (Code s) = 7"
proof -
  obtain g s where r: "generateCode (exEnv True [progArray ''A'']) managedRoot = Inr (g, s)"
    and c: "map (\<lambda>c. isSynchronize (snd c)) (Code s) = [False, False, False, False, False, True, False]"
    using managedRoot_generated
    by (cases "generateCode (exEnv True [progArray ''A'']) managedRoot") auto
  have m: "ManagedMemory (exEnv True [progArray ''A''])" by (simp add: exEnv_def)
  have n: "fromDeviceNodes managedRoot = 1"
    by (simp add: managedRoot_def exKernelNode_def isPrefix_def)
  have "synchronizeCalls (Code s) = 1"
    using managed_memory_calls [OF m r] n by simp
  moreover have "length (map (\<lambda>c. isSynchronize (snd c)) (Code s)) = 7"
    unfolding c by simp
  then have "length (Code s) = 7" by simp
  ultimately show ?thesis using r m n by blast
qed


subsection \<open>The host bindings around a kernel\<close>


























end
